theory Spec2Isabelle
  imports Complex_Main "HOL-Library.Word" "HOL-Library.Char_ord" "HOL-Library.List_Lexorder"
    "HOL-Library.Multiset" "HOL-Library.Product_Lexorder"
begin

section \<open>The transaction facade of the document store: a shallow embedding\<close>

text \<open>
  The definitions below follow \<^verbatim>\<open>Transaction.cpp\<close> (the CRUD pipeline, the
  index planner, the condition normaliser and the document identity codec) and
  \<^verbatim>\<open>RestDebugHandler.cpp\<close>. Collaborators whose code is not part of the
  sources (the storage engine, the cluster communication layer, the name
  resolver, the index implementations, the AST library) are parameters of the
  functions that call them.
\<close>

subsection \<open>Error codes and HTTP response codes\<close>

text \<open>
  The \<^verbatim>\<open>TRI_ERROR_*\<close> codes are plain \<^verbatim>\<open>int\<close>s in the source; their table
  (voc-errors.h) is not part of the sources, the values are the ones of the
  error table of the server. Only \<^verbatim>\<open>TRI_ERROR_NO_ERROR = 0\<close> and their being
  pairwise different are ever used.
\<close>

definition TRI_ERROR_NO_ERROR :: int where "TRI_ERROR_NO_ERROR = 0"
definition TRI_ERROR_INTERNAL :: int where "TRI_ERROR_INTERNAL = 4"
definition TRI_ERROR_NOT_IMPLEMENTED :: int where "TRI_ERROR_NOT_IMPLEMENTED = 9"
definition TRI_ERROR_ARANGO_CONFLICT :: int where "TRI_ERROR_ARANGO_CONFLICT = 1200"
definition TRI_ERROR_ARANGO_DOCUMENT_NOT_FOUND :: int where
  "TRI_ERROR_ARANGO_DOCUMENT_NOT_FOUND = 1202"
definition TRI_ERROR_ARANGO_COLLECTION_NOT_FOUND :: int where
  "TRI_ERROR_ARANGO_COLLECTION_NOT_FOUND = 1203"
definition TRI_ERROR_ARANGO_DOCUMENT_HANDLE_BAD :: int where
  "TRI_ERROR_ARANGO_DOCUMENT_HANDLE_BAD = 1205"
definition TRI_ERROR_ARANGO_UNIQUE_CONSTRAINT_VIOLATED :: int where
  "TRI_ERROR_ARANGO_UNIQUE_CONSTRAINT_VIOLATED = 1210"
definition TRI_ERROR_ARANGO_DOCUMENT_KEY_BAD :: int where
  "TRI_ERROR_ARANGO_DOCUMENT_KEY_BAD = 1221"
definition TRI_ERROR_ARANGO_DOCUMENT_TYPE_INVALID :: int where
  "TRI_ERROR_ARANGO_DOCUMENT_TYPE_INVALID = 1227"

text \<open>\<^verbatim>\<open>GeneralResponse::ResponseCode\<close>: the codes the modelled functions test or
  produce, and one constructor for the remaining codes of the enum.\<close>

datatype ResponseCode =
    OK | CREATED | ACCEPTED
  | BAD | NOT_FOUND | CONFLICT | PRECONDITION_FAILED
  | SERVER_ERROR | NOT_IMPLEMENTED
  | OTHER_CODE nat

text \<open>What a function throws: \<^verbatim>\<open>THROW_ARANGO_EXCEPTION(code)\<close>, or an exception
  of the VelocyPack library (a typed read of a slice of another type).
  \<^verbatim>\<open>OutOfBounds\<close> stands for an access outside a buffer or a null pointer
  dereference, where C++ leaves the behaviour undefined.\<close>

datatype exn = ArangoException int | VPackException | OutOfBounds

subsection \<open>VelocyPack slices\<close>

text \<open>
  A slice is a view of a tagged tree. \<^verbatim>\<open>CustomSlice h bs\<close> is a custom-typed value:
  its head byte \<open>h\<close> and the bytes after it.
\<close>

datatype VPackSlice =
    NoneSlice
  | NullSlice
  | BoolSlice bool
  | IntSlice int
  | StringSlice string
  | ArraySlice "VPackSlice list"
  | ObjectSlice "(string \<times> VPackSlice) list"
  | CustomSlice "8 word" "8 word list"

fun isObject :: "VPackSlice \<Rightarrow> bool" where
  "isObject (ObjectSlice _) = True"
| "isObject _ = False"

fun isArray :: "VPackSlice \<Rightarrow> bool" where
  "isArray (ArraySlice _) = True"
| "isArray _ = False"

fun isString :: "VPackSlice \<Rightarrow> bool" where
  "isString (StringSlice _) = True"
| "isString _ = False"

fun isCustom :: "VPackSlice \<Rightarrow> bool" where
  "isCustom (CustomSlice _ _) = True"
| "isCustom _ = False"

fun isNone :: "VPackSlice \<Rightarrow> bool" where
  "isNone NoneSlice = True"
| "isNone _ = False"

text \<open>\<^verbatim>\<open>slice.get(name)\<close>: the value of the attribute, the None slice when the
  object has no such attribute. Every call of the modelled code is on a slice
  that is an object; on any other slice the model answers the None slice, whose
  typed reads throw as well.\<close>

fun slice_get :: "VPackSlice \<Rightarrow> string \<Rightarrow> VPackSlice" where
  "slice_get (ObjectSlice kvs) k = (case map_of kvs k of None \<Rightarrow> NoneSlice | Some v \<Rightarrow> v)"
| "slice_get _ k = NoneSlice"

text \<open>\<^verbatim>\<open>slice.copyString()\<close> throws unless the slice is a string.\<close>

fun copyString :: "VPackSlice \<Rightarrow> exn + string" where
  "copyString (StringSlice s) = Inr s"
| "copyString _ = Inl VPackException"

definition TRI_VOC_ATTRIBUTE_KEY :: string where "TRI_VOC_ATTRIBUTE_KEY = ''_key''"
definition TRI_VOC_ATTRIBUTE_ID :: string where "TRI_VOC_ATTRIBUTE_ID = ''_id''"
definition TRI_VOC_ATTRIBUTE_REV :: string where "TRI_VOC_ATTRIBUTE_REV = ''_rev''"

subsection \<open>The debug handler (\<^verbatim>\<open>RestDebugHandler::execute\<close>)\<close>

text \<open>The request types; any type but \<^verbatim>\<open>DELETE_REQ\<close> and \<^verbatim>\<open>PUT\<close> takes the
  \<^verbatim>\<open>default\<close> branch of the handler.\<close>

datatype RequestType =
  DELETE_REQ | GET | HEAD | OPTIONS | POST | PUT | PATCH | ILLEGAL

text \<open>
  The handler's state: the fail-points armed in the process, and the responses
  the handler generated, oldest first (each \<^verbatim>\<open>generate...\<close> call writes the
  response code and body of the one response object).

  Modelled from the spec: the three \<^verbatim>\<open>TRI_*FailurePoint*Debugging\<close> functions
  are not part of the sources; they clear all fail-points, remove one, and arm one.
\<close>

record debug_state =
  failurePoints :: "string set"
  generated :: "(ResponseCode \<times> VPackSlice) list"

definition TRI_ClearFailurePointsDebugging :: "debug_state \<Rightarrow> debug_state" where
  "TRI_ClearFailurePointsDebugging s = s\<lparr>failurePoints := {}\<rparr>"

definition TRI_RemoveFailurePointDebugging :: "string \<Rightarrow> debug_state \<Rightarrow> debug_state" where
  "TRI_RemoveFailurePointDebugging name s = s\<lparr>failurePoints := failurePoints s - {name}\<rparr>"

definition TRI_AddFailurePointDebugging :: "string \<Rightarrow> debug_state \<Rightarrow> debug_state" where
  "TRI_AddFailurePointDebugging name s = s\<lparr>failurePoints := insert name (failurePoints s)\<rparr>"

text \<open>\<^verbatim>\<open>generateNotImplemented\<close> answers 501 with an error body (here: the path it
  was given); \<^verbatim>\<open>generateResult\<close> answers the given code and body.\<close>

definition generateNotImplemented :: "string \<Rightarrow> debug_state \<Rightarrow> debug_state" where
  "generateNotImplemented path s = s\<lparr>generated := generated s @ [(NOT_IMPLEMENTED, StringSlice path)]\<rparr>"

definition generateResult :: "ResponseCode \<Rightarrow> VPackSlice \<Rightarrow> debug_state \<Rightarrow> debug_state" where
  "generateResult c body s = s\<lparr>generated := generated s @ [(c, body)]\<rparr>"

text \<open>The response the client sees is the one generated last.\<close>

definition response :: "debug_state \<Rightarrow> (ResponseCode \<times> VPackSlice) option" where
  "response s = (if generated s = [] then None else Some (last (generated s)))"

text \<open>\<^verbatim>\<open>execute\<close>, with the request type and the request's suffix as arguments.
  A \<^verbatim>\<open>break\<close> leaves the \<^verbatim>\<open>switch\<close> and goes on to the final
  \<^verbatim>\<open>generateResult\<close>; only the two \<^verbatim>\<open>return\<close>s skip it.\<close>

definition execute :: "RequestType \<Rightarrow> string list \<Rightarrow> debug_state \<Rightarrow> debug_state" where
  "execute type suffix s =
     (let len = length suffix in
      if len = 0 \<or> len > 2 \<or> \<not> (suffix ! 0 = ''failat'') then
        generateNotImplemented ''ILLEGAL /_admin/debug/failat'' s
      else
        (case type of
           DELETE_REQ \<Rightarrow>
             generateResult OK (BoolSlice True)
               (if len = 1 then TRI_ClearFailurePointsDebugging s
                else TRI_RemoveFailurePointDebugging (suffix ! 1) s)
         | PUT \<Rightarrow>
             generateResult OK (BoolSlice True)
               (if len = 2 then TRI_AddFailurePointDebugging (suffix ! 1) s
                else generateNotImplemented ''ILLEGAL /_admin/debug/failat'' s)
         | _ \<Rightarrow> generateNotImplemented ''ILLEGAL /_admin/debug/failat'' s))"

subsection \<open>Operation options and results\<close>

record OperationOptions =
  waitForSync :: bool
  ignoreRevs :: bool
  returnOld :: bool
  returnNew :: bool
  silent :: bool

text \<open>An \<^verbatim>\<open>OperationResult\<close>: the top-level code, the payload (if any), the error
  message, the \<^verbatim>\<open>wasSynchronous\<close> bit and the per-error-code counters of a
  multi-document operation (an \<^verbatim>\<open>unordered_map<int, size_t>\<close>).\<close>

record OperationResult =
  code :: int
  buffer :: "VPackSlice option"
  errorMessage :: string
  wasSynchronous :: bool
  countErrorCodes :: "(int \<times> nat) list"

text \<open>The three constructors the modelled code calls: \<^verbatim>\<open>OperationResult(code)\<close>,
  \<^verbatim>\<open>OperationResult(code, message)\<close> and the one with a payload.\<close>

definition OperationResult_code :: "int \<Rightarrow> OperationResult" where
  "OperationResult_code c =
     \<lparr>code = c, buffer = None, errorMessage = [], wasSynchronous = False, countErrorCodes = []\<rparr>"

definition OperationResult_message :: "int \<Rightarrow> string \<Rightarrow> OperationResult" where
  "OperationResult_message c msg =
     \<lparr>code = c, buffer = None, errorMessage = msg, wasSynchronous = False, countErrorCodes = []\<rparr>"

definition OperationResult_buffer ::
  "VPackSlice \<Rightarrow> string \<Rightarrow> int \<Rightarrow> bool \<Rightarrow> (int \<times> nat) list \<Rightarrow> OperationResult" where
  "OperationResult_buffer buf msg c sync counts =
     \<lparr>code = c, buffer = Some buf, errorMessage = msg, wasSynchronous = sync,
      countErrorCodes = counts\<rparr>"

subsection \<open>Document keys (\<^verbatim>\<open>Transaction::extractKey\<close>)\<close>

text \<open>\<^verbatim>\<open>key.find('/')\<close> and \<^verbatim>\<open>key.substr(pos + 1)\<close>: what follows the first slash.\<close>

definition after_first_slash :: "string \<Rightarrow> string" where
  "after_first_slash key = tl (dropWhile (\<lambda>c. c \<noteq> CHR ''/'') key)"

fun extractKey :: "VPackSlice \<Rightarrow> string" where
  "extractKey (ObjectSlice kvs) =
     (case slice_get (ObjectSlice kvs) TRI_VOC_ATTRIBUTE_KEY of
        StringSlice k \<Rightarrow> k
      | _ \<Rightarrow> [])"
| "extractKey (StringSlice key) =
     (if CHR ''/'' \<in> set key then after_first_slash key else key)"
| "extractKey _ = []"

subsection \<open>The coordinator CRUD pipeline\<close>

text \<open>
  The shard-dispatch functions of \<^verbatim>\<open>ClusterMethods\<close>, the revision reader and
  the VelocyPack parser are not part of the sources; they are parameters. Each
  dispatch function answers the triple (\<^verbatim>\<open>res\<close>, response code, response body);
  the parser answers the parsed slice or the message of its exception. The
  database name and the HTTP headers do not reach the result and are left out.
\<close>

record ClusterMethods =
  getDocumentOnCoordinator :: "string \<Rightarrow> string \<Rightarrow> nat \<Rightarrow> int \<times> ResponseCode \<times> string"
  modifyDocumentOnCoordinator ::
    "string \<Rightarrow> string \<Rightarrow> nat \<Rightarrow> OperationOptions \<Rightarrow> bool \<Rightarrow> VPackSlice
       \<Rightarrow> int \<times> ResponseCode \<times> string"
  deleteDocumentOnCoordinator ::
    "string \<Rightarrow> string \<Rightarrow> nat \<Rightarrow> OperationOptions \<Rightarrow> int \<times> ResponseCode \<times> string"
  TRI_ExtractRevisionId :: "VPackSlice \<Rightarrow> nat"
  parse :: "string \<Rightarrow> string + VPackSlice"

text \<open>Modelled from the spec: \<^verbatim>\<open>VelocyPackHelper::getNumericValue\<close> and
  \<^verbatim>\<open>getStringValue\<close> are not part of the sources; they read \<^verbatim>\<open>errorNum\<close> and
  \<^verbatim>\<open>errorMessage\<close> from the body, with a default. The number is read as an
  \<^verbatim>\<open>int\<close> (\<^verbatim>\<open>getNumericValue<int>\<close>): reading a number that is no 32-bit
  \<^verbatim>\<open>int\<close> throws.\<close>

definition getNumericValue :: "VPackSlice \<Rightarrow> string \<Rightarrow> int \<Rightarrow> exn + int" where
  "getNumericValue s name dflt =
     (case slice_get s name of
        IntSlice n \<Rightarrow> if - (2 ^ 31) \<le> n \<and> n < 2 ^ 31 then Inr n else Inl VPackException
      | _ \<Rightarrow> Inr dflt)"

definition getStringValue :: "VPackSlice \<Rightarrow> string \<Rightarrow> string \<Rightarrow> string" where
  "getStringValue s name dflt = (case slice_get s name of StringSlice v \<Rightarrow> v | _ \<Rightarrow> dflt)"

text \<open>\<^verbatim>\<open>DBServerResponseBad\<close> on the body as a string: whatever is thrown while
  the body is parsed and read is caught, and answered with \<^verbatim>\<open>INTERNAL\<close>.\<close>

definition DBServerResponseBad :: "ClusterMethods \<Rightarrow> string \<Rightarrow> OperationResult" where
  "DBServerResponseBad cm resultBody =
     (case parse cm resultBody of
        Inr res \<Rightarrow>
          (case getNumericValue res ''errorNum'' TRI_ERROR_INTERNAL of
             Inr errorNum \<Rightarrow>
               OperationResult_message errorNum
                 (getStringValue res ''errorMessage'' ''JSON sent to DBserver was bad'')
           | Inl _ \<Rightarrow> OperationResult_message TRI_ERROR_INTERNAL ''JSON sent to DBserver was bad'')
      | Inl _ \<Rightarrow> OperationResult_message TRI_ERROR_INTERNAL ''JSON sent to DBserver was bad'')"

text \<open>The \<^verbatim>\<open>try\<close> block shared by the coordinator functions: parse the body and
  answer it with the given code, or answer \<^verbatim>\<open>INTERNAL\<close> with the parser's message.\<close>

definition parsed_result :: "ClusterMethods \<Rightarrow> string \<Rightarrow> int \<Rightarrow> bool \<Rightarrow> OperationResult" where
  "parsed_result cm resultBody errorCode sync =
     (case parse cm resultBody of
        Inr buf \<Rightarrow> OperationResult_buffer buf [] errorCode sync []
      | Inl what \<Rightarrow>
          OperationResult_message TRI_ERROR_INTERNAL
            (''JSON from DBserver not parseable: '' @ resultBody @ '':'' @ what))"

definition documentCoordinator ::
  "ClusterMethods \<Rightarrow> string \<Rightarrow> VPackSlice \<Rightarrow> OperationOptions \<Rightarrow> exn + OperationResult" where
  "documentCoordinator cm collectionName val options =
     (if isArray val then Inl (ArangoException TRI_ERROR_NOT_IMPLEMENTED)
      else
        let key = extractKey val in
        if key = [] then Inr (OperationResult_code TRI_ERROR_ARANGO_DOCUMENT_KEY_BAD)
        else
          let expectedRevision = TRI_ExtractRevisionId cm val;
              (res, responseCode, resultBody) =
                 getDocumentOnCoordinator cm collectionName key expectedRevision
          in
          if res = TRI_ERROR_NO_ERROR then
            (if responseCode = OK \<or> responseCode = PRECONDITION_FAILED then
               Inr (parsed_result cm resultBody
                      (if responseCode = OK then TRI_ERROR_NO_ERROR else TRI_ERROR_ARANGO_CONFLICT)
                      False)
             else if responseCode = NOT_FOUND then
               Inr (OperationResult_code TRI_ERROR_ARANGO_DOCUMENT_NOT_FOUND)
             else Inr (OperationResult_code TRI_ERROR_INTERNAL))
          else Inr (OperationResult_code res))"

text \<open>The \<^verbatim>\<open>switch\<close> of \<^verbatim>\<open>updateCoordinator\<close> and of \<^verbatim>\<open>replaceCoordinator\<close> (the
  two are the same text): \<^verbatim>\<open>CONFLICT\<close> and \<^verbatim>\<open>PRECONDITION_FAILED\<close> set the error
  code and fall through to the parsing of \<^verbatim>\<open>ACCEPTED\<close> and \<^verbatim>\<open>CREATED\<close>.\<close>

definition modify_switch :: "ClusterMethods \<Rightarrow> ResponseCode \<Rightarrow> string \<Rightarrow> OperationResult" where
  "modify_switch cm responseCode resultBody =
     (let errorCode =
            (if responseCode = CONFLICT then TRI_ERROR_ARANGO_UNIQUE_CONSTRAINT_VIOLATED
             else if responseCode = PRECONDITION_FAILED then TRI_ERROR_ARANGO_CONFLICT
             else TRI_ERROR_NO_ERROR)
      in
      if responseCode = CONFLICT \<or> responseCode = PRECONDITION_FAILED
         \<or> responseCode = ACCEPTED \<or> responseCode = CREATED then
        parsed_result cm resultBody errorCode (responseCode = CREATED)
      else if responseCode = BAD then DBServerResponseBad cm resultBody
      else if responseCode = NOT_FOUND then OperationResult_code TRI_ERROR_ARANGO_DOCUMENT_NOT_FOUND
      else OperationResult_code TRI_ERROR_INTERNAL)"

definition updateCoordinator ::
  "ClusterMethods \<Rightarrow> string \<Rightarrow> VPackSlice \<Rightarrow> OperationOptions \<Rightarrow> exn + OperationResult" where
  "updateCoordinator cm collectionName newValue options =
     (if isArray newValue then Inl (ArangoException TRI_ERROR_NOT_IMPLEMENTED)
      else
        let key = extractKey newValue in
        if key = [] then Inr (OperationResult_code TRI_ERROR_ARANGO_DOCUMENT_KEY_BAD)
        else
          let expectedRevision =
                (if ignoreRevs options then 0 else TRI_ExtractRevisionId cm newValue);
              (res, responseCode, resultBody) =
                 modifyDocumentOnCoordinator cm collectionName key expectedRevision options
                   True newValue
          in
          if res = TRI_ERROR_NO_ERROR then Inr (modify_switch cm responseCode resultBody)
          else Inr (OperationResult_code res))"

definition replaceCoordinator ::
  "ClusterMethods \<Rightarrow> string \<Rightarrow> VPackSlice \<Rightarrow> OperationOptions \<Rightarrow> exn + OperationResult" where
  "replaceCoordinator cm collectionName newValue options =
     (if isArray newValue then Inl (ArangoException TRI_ERROR_ARANGO_DOCUMENT_TYPE_INVALID)
      else
        let key = extractKey newValue in
        if key = [] then Inr (OperationResult_code TRI_ERROR_ARANGO_DOCUMENT_KEY_BAD)
        else
          let expectedRevision =
                (if ignoreRevs options then 0 else TRI_ExtractRevisionId cm newValue);
              (res, responseCode, resultBody) =
                 modifyDocumentOnCoordinator cm collectionName key expectedRevision options
                   False newValue
          in
          if res = TRI_ERROR_NO_ERROR then Inr (modify_switch cm responseCode resultBody)
          else Inr (OperationResult_code res))"

definition removeCoordinator ::
  "ClusterMethods \<Rightarrow> string \<Rightarrow> VPackSlice \<Rightarrow> OperationOptions \<Rightarrow> exn + OperationResult" where
  "removeCoordinator cm collectionName val options =
     (if isArray val then Inl (ArangoException TRI_ERROR_NOT_IMPLEMENTED)
      else
        let key = extractKey val in
        if key = [] then Inr (OperationResult_code TRI_ERROR_ARANGO_DOCUMENT_KEY_BAD)
        else
          let expectedRevision = (if ignoreRevs options then 0 else TRI_ExtractRevisionId cm val);
              (res, responseCode, resultBody) =
                 deleteDocumentOnCoordinator cm collectionName key expectedRevision options
          in
          if res = TRI_ERROR_NO_ERROR then
            (if responseCode = OK \<or> responseCode = ACCEPTED
                \<or> responseCode = PRECONDITION_FAILED then
               Inr (parsed_result cm resultBody
                      (if responseCode = PRECONDITION_FAILED then TRI_ERROR_ARANGO_CONFLICT
                       else TRI_ERROR_NO_ERROR)
                      (responseCode \<noteq> ACCEPTED))
             else if responseCode = BAD then Inr (DBServerResponseBad cm resultBody)
             else if responseCode = NOT_FOUND then
               Inr (OperationResult_code TRI_ERROR_ARANGO_DOCUMENT_NOT_FOUND)
             else Inr (OperationResult_code TRI_ERROR_INTERNAL))
          else Inr (OperationResult_code res))"

subsection \<open>Document ids (\<^verbatim>\<open>Transaction::extractIdString\<close>)\<close>

text \<open>Modelled from the spec: \<^verbatim>\<open>DatafileHelper::ReadNumber\<close> is not part of the
  sources; the bytes after the tag are the collection id in little-endian order.\<close>

definition ReadNumber :: "8 word list \<Rightarrow> 64 word" where
  "ReadNumber bs = foldr (\<lambda>b v. ucast b + push_bit 8 v) bs 0"

text \<open>
  The static \<^verbatim>\<open>extractIdString(resolver, slice, base)\<close>. The resolver's
  \<^verbatim>\<open>getCollectionNameCluster\<close> is the parameter \<open>resolver\<close>: the name it writes
  for a collection id. The name, the slash and the key are assembled in a buffer
  of 512 bytes; the source does not check that they fit, and reads 8 bytes after
  the tag without a check.
\<close>

definition extractIdString ::
  "(64 word \<Rightarrow> string) \<Rightarrow> VPackSlice \<Rightarrow> VPackSlice \<Rightarrow> exn + string" where
  "extractIdString resolver sl base =
     (let id = (if isObject sl then slice_get sl TRI_VOC_ATTRIBUTE_ID else sl) in
      case id of
        StringSlice s \<Rightarrow> Inr s
      | CustomSlice h bs \<Rightarrow>
          if h \<noteq> 0xf3 then Inl (ArangoException TRI_ERROR_ARANGO_DOCUMENT_TYPE_INVALID)
          else
            let key = (if isObject sl then slice_get sl TRI_VOC_ATTRIBUTE_KEY
                       else if isObject base then slice_get base TRI_VOC_ATTRIBUTE_KEY
                       else NoneSlice)
            in
            (case key of
               StringSlice k \<Rightarrow>
                 if length bs < 8 then Inl OutOfBounds
                 else
                   let cid = ReadNumber (take 8 bs);
                       name = resolver cid
                   in
                   if length name + 1 + length k > 512 then Inl OutOfBounds
                   else Inr (name @ ''/'' @ k)
             | _ \<Rightarrow> Inl (ArangoException TRI_ERROR_ARANGO_DOCUMENT_TYPE_INVALID))
      | _ \<Rightarrow> Inl (ArangoException TRI_ERROR_ARANGO_DOCUMENT_TYPE_INVALID))"

text \<open>
  A well-formed document of collection \<open>name\<close>: an object with a string
  \<^verbatim>\<open>_key\<close> whose \<^verbatim>\<open>_id\<close> is either the literal \<^verbatim>\<open><name>/<_key>\<close> or the custom
  blob (tag \<^verbatim>\<open>0xF3\<close>, eight bytes) of a collection id that the resolver maps to
  \<open>name\<close>, name and key being short enough for the id buffer.
\<close>

definition well_formed_document ::
  "(64 word \<Rightarrow> string) \<Rightarrow> string \<Rightarrow> VPackSlice \<Rightarrow> bool" where
  "well_formed_document resolver name sl =
     (case sl of
        ObjectSlice kvs \<Rightarrow>
          (case slice_get sl TRI_VOC_ATTRIBUTE_KEY of
             StringSlice k \<Rightarrow>
               (case slice_get sl TRI_VOC_ATTRIBUTE_ID of
                  StringSlice s \<Rightarrow> s = name @ ''/'' @ k
                | CustomSlice h bs \<Rightarrow>
                    h = 0xf3 \<and> length bs = 8 \<and> resolver (ReadNumber bs) = name
                    \<and> length name + 1 + length k \<le> 512
                | _ \<Rightarrow> False)
           | _ \<Rightarrow> False)
      | _ \<Rightarrow> False)"

subsection \<open>The local CRUD pipeline\<close>

text \<open>
  The storage engine is not part of the sources. A collection is a value of a
  type \<open>'c\<close>; the engine's document operations take the collection, the
  document and the options and answer the \<^verbatim>\<open>int\<close> that the source receives,
  the values of the output parameters the source reads (the master pointer of
  the stored document, the actual revision, the previous document) and the
  collection afterwards. \<^verbatim>\<open>lock\<close> is the transaction's write lock request.
  The registration of the collection with the transaction precedes every
  operation and is not modelled.
\<close>

record TRI_doc_mptr_t =
  vpack :: VPackSlice
  revisionIdAsSlice :: VPackSlice

record 'c StorageEngine =
  doc_insert :: "'c \<Rightarrow> VPackSlice \<Rightarrow> OperationOptions \<Rightarrow> int \<times> TRI_doc_mptr_t \<times> 'c"
  doc_update :: "'c \<Rightarrow> VPackSlice \<Rightarrow> OperationOptions
                   \<Rightarrow> int \<times> TRI_doc_mptr_t \<times> VPackSlice \<times> TRI_doc_mptr_t \<times> 'c"
  doc_replace :: "'c \<Rightarrow> VPackSlice \<Rightarrow> OperationOptions
                   \<Rightarrow> int \<times> TRI_doc_mptr_t \<times> VPackSlice \<times> TRI_doc_mptr_t \<times> 'c"
  doc_remove :: "'c \<Rightarrow> VPackSlice \<Rightarrow> OperationOptions
                   \<Rightarrow> int \<times> VPackSlice \<times> TRI_doc_mptr_t \<times> 'c"
  lock :: "'c \<Rightarrow> int"

datatype TRI_voc_document_operation_e =
    TRI_VOC_DOCUMENT_OPERATION_UNKNOWN
  | TRI_VOC_DOCUMENT_OPERATION_INSERT
  | TRI_VOC_DOCUMENT_OPERATION_UPDATE
  | TRI_VOC_DOCUMENT_OPERATION_REPLACE
  | TRI_VOC_DOCUMENT_OPERATION_REMOVE

text \<open>
  The result builder is the list of the values added to it, in order. When the
  operation is on an array the values are the members of one array (the
  \<^verbatim>\<open>VPackArrayBuilder\<close> guard); otherwise the builder holds the one value added,
  or nothing.
\<close>

type_synonym VPackBuilder = "VPackSlice list"

definition steal :: "bool \<Rightarrow> VPackBuilder \<Rightarrow> VPackSlice" where
  "steal inArray b = (if inArray then ArraySlice b else (case b of [] \<Rightarrow> NoneSlice | x # _ \<Rightarrow> x))"

text \<open>\<^verbatim>\<open>buildDocumentIdentity\<close>: the object added to the builder. \<open>collectionName\<close>
  is what the resolver answers for the collection id.\<close>

definition buildDocumentIdentity ::
  "string \<Rightarrow> string \<Rightarrow> VPackSlice \<Rightarrow> VPackSlice \<Rightarrow> TRI_doc_mptr_t option \<Rightarrow> TRI_doc_mptr_t option
     \<Rightarrow> VPackSlice" where
  "buildDocumentIdentity collectionName key rid oldRid oldMptr newMptr =
     ObjectSlice
       ([(TRI_VOC_ATTRIBUTE_ID, StringSlice (collectionName @ ''/'' @ key)),
         (TRI_VOC_ATTRIBUTE_KEY, StringSlice key),
         (TRI_VOC_ATTRIBUTE_REV, rid)]
        @ (if \<not> isNone oldRid then [(''_oldRev'', oldRid)] else [])
        @ (case oldMptr of Some m \<Rightarrow> [(''old'', vpack m)] | None \<Rightarrow> [])
        @ (case newMptr of Some m \<Rightarrow> [(''new'', vpack m)] | None \<Rightarrow> []))"

text \<open>\<^verbatim>\<open>createBabiesError\<close>: the error object replaces the document in the result,
  and the counter of the error code is created at 1 or incremented.\<close>

definition createBabiesError ::
  "VPackBuilder \<Rightarrow> (int \<times> nat) list \<Rightarrow> int \<Rightarrow> VPackBuilder \<times> (int \<times> nat) list" where
  "createBabiesError builder counters errorCode =
     (builder @ [ObjectSlice [(''error'', BoolSlice True), (''errorNum'', IntSlice errorCode)]],
      (case map_of counters errorCode of
         None \<Rightarrow> counters @ [(errorCode, 1)]
       | Some _ \<Rightarrow> map (\<lambda>(k, v). if k = errorCode then (k, v + 1) else (k, v)) counters))"

text \<open>The lambda \<^verbatim>\<open>workForOneDocument\<close> of \<^verbatim>\<open>insertLocal\<close>: the return code, the
  builder and the collection afterwards; or the exception of \<^verbatim>\<open>copyString\<close>.\<close>

definition insert_workForOneDocument ::
  "'c StorageEngine \<Rightarrow> string \<Rightarrow> OperationOptions \<Rightarrow> 'c \<Rightarrow> VPackBuilder \<Rightarrow> VPackSlice
     \<Rightarrow> exn + (int \<times> VPackBuilder \<times> 'c)" where
  "insert_workForOneDocument eng cname options document resultBuilder val =
     (if \<not> isObject val then Inr (TRI_ERROR_ARANGO_DOCUMENT_TYPE_INVALID, resultBuilder, document)
      else
        let (res, mptr, document') = doc_insert eng document val options in
        if res \<noteq> TRI_ERROR_NO_ERROR then Inr (res, resultBuilder, document')
        else if silent options then Inr (TRI_ERROR_NO_ERROR, resultBuilder, document')
        else
          (case copyString (slice_get (vpack mptr) TRI_VOC_ATTRIBUTE_KEY) of
             Inl e \<Rightarrow> Inl e
           | Inr keyString \<Rightarrow>
               Inr (TRI_ERROR_NO_ERROR,
                    resultBuilder @
                      [buildDocumentIdentity cname keyString (revisionIdAsSlice mptr) NoneSlice
                         None (if returnNew options then Some mptr else None)],
                    document')))"

text \<open>The loop of \<^verbatim>\<open>insertLocal\<close> over the members of an array value.\<close>

fun insert_babies ::
  "'c StorageEngine \<Rightarrow> string \<Rightarrow> OperationOptions \<Rightarrow> VPackSlice list
     \<Rightarrow> VPackBuilder \<times> (int \<times> nat) list \<times> 'c \<Rightarrow> exn + (VPackBuilder \<times> (int \<times> nat) list \<times> 'c)" where
  "insert_babies eng cname options [] st = Inr st"
| "insert_babies eng cname options (s # ss) (resultBuilder, counters, document) =
     (case insert_workForOneDocument eng cname options document resultBuilder s of
        Inl e \<Rightarrow> Inl e
      | Inr (res, resultBuilder', document') \<Rightarrow>
          if res \<noteq> TRI_ERROR_NO_ERROR then
            (let (resultBuilder'', counters') =
                   createBabiesError resultBuilder' counters res
             in insert_babies eng cname options ss (resultBuilder'', counters', document'))
          else insert_babies eng cname options ss (resultBuilder', counters, document'))"

text \<open>The values that \<^verbatim>\<open>res\<close> takes in that loop, one for each member processed.\<close>

fun insert_codes ::
  "'c StorageEngine \<Rightarrow> string \<Rightarrow> OperationOptions \<Rightarrow> VPackSlice list \<Rightarrow> VPackBuilder \<times> 'c
     \<Rightarrow> int list" where
  "insert_codes eng cname options [] st = []"
| "insert_codes eng cname options (s # ss) (resultBuilder, document) =
     (case insert_workForOneDocument eng cname options document resultBuilder s of
        Inl e \<Rightarrow> []
      | Inr (res, resultBuilder', document') \<Rightarrow>
          res # insert_codes eng cname options ss
                  (if res \<noteq> TRI_ERROR_NO_ERROR
                   then fst (createBabiesError resultBuilder' [] res) else resultBuilder',
                   document'))"

text \<open>
  The cluster communication layer is not part of the sources. A request is the
  four arguments of its constructor. \<^verbatim>\<open>performRequests\<close> is a parameter: given
  the requests and the timeout it answers \<^verbatim>\<open>nrGood\<close> and, for each position of
  the request vector, the \<^verbatim>\<open>done\<close> flag and the \<^verbatim>\<open>result\<close> it left there.
\<close>

type_synonym ServerID = string

datatype ClusterCommOpStatus =
    CL_COMM_SUBMITTED | CL_COMM_SENDING | CL_COMM_SENT | CL_COMM_TIMEOUT | CL_COMM_RECEIVED
  | CL_COMM_ERROR | CL_COMM_DROPPED | CL_COMM_BACKEND_UNAVAILABLE

record ClusterCommResult =
  status :: ClusterCommOpStatus
  answer_code :: ResponseCode
  serverID :: ServerID

record ClusterCommRequest =
  destination :: string
  requestType :: RequestType
  path :: string
  body :: string

record ClusterEnv =
  isDBServer :: bool
  vocbase_name :: string
  info_name :: string
  urlEncode :: "string \<Rightarrow> string"
  toJson :: "VPackSlice \<Rightarrow> string"
  performRequests :: "ClusterCommRequest list \<Rightarrow> real \<Rightarrow> nat \<times> (nat \<Rightarrow> bool \<times> ClusterCommResult)"

text \<open>What an operation works on: the collection, the collection's follower
  list (\<^verbatim>\<open>document->followers()\<close>) and the replication log.\<close>

record 'c local_state =
  collection :: 'c
  followers :: "ServerID list"
  log_REPLICATION :: "string list"

text \<open>Modelled from the spec: \<^verbatim>\<open>FollowerInfo::remove\<close> is not part of the
  sources; it removes the server from the follower set.\<close>

definition followerInfo_remove :: "ServerID \<Rightarrow> 'c local_state \<Rightarrow> 'c local_state" where
  "followerInfo_remove sid st = st\<lparr>followers := filter (\<lambda>f. f \<noteq> sid) (followers st)\<rparr>"

text \<open>The test of the loop that drops followers, on the request at position \<open>i\<close>.\<close>

definition not_successful :: "bool \<times> ClusterCommResult \<Rightarrow> bool" where
  "not_successful r =
     (\<not> fst r \<or> status (snd r) \<noteq> CL_COMM_RECEIVED
      \<or> (answer_code (snd r) \<noteq> ACCEPTED \<and> answer_code (snd r) \<noteq> CREATED))"

definition drop_follower ::
  "string \<Rightarrow> (nat \<Rightarrow> bool \<times> ClusterCommResult) \<Rightarrow> 'c local_state \<Rightarrow> nat \<Rightarrow> 'c local_state" where
  "drop_follower fname requests st i =
     (if not_successful (requests i) then
        (followerInfo_remove (serverID (snd (requests i))) st)
          \<lparr>log_REPLICATION := log_REPLICATION st
             @ [fname @ '': dropping follower '' @ serverID (snd (requests i))]\<rparr>
      else st)"

text \<open>The requests of the replication branch of \<^verbatim>\<open>insertLocal\<close>: one \<^verbatim>\<open>POST\<close> of
  the same body for each follower.\<close>

definition replication_requests ::
  "ClusterEnv \<Rightarrow> VPackSlice \<Rightarrow> ServerID list \<Rightarrow> ClusterCommRequest list" where
  "replication_requests env val fs =
     map (\<lambda>f. \<lparr>destination = ''server:'' @ f, requestType = POST,
                path = ''/_db/'' @ urlEncode env (vocbase_name env) @ ''/_api/document/''
                         @ urlEncode env (info_name env),
                body = toJson env val\<rparr>) fs"

text \<open>The replication branch of \<^verbatim>\<open>insertLocal\<close>; it only changes the follower
  list and the log.\<close>

definition replicate_insert :: "ClusterEnv \<Rightarrow> VPackSlice \<Rightarrow> 'c local_state \<Rightarrow> 'c local_state" where
  "replicate_insert env val st =
     (if isDBServer env then
        (let fs = followers st in
         if length fs > 0 then
           (let (nrGood, requests) = performRequests env (replication_requests env val fs) 60
            in
            if nrGood < length fs then
              foldl (drop_follower ''insertLocal'' requests) st [0 ..< length fs]
            else st)
         else st)
      else st)"

definition insertLocal ::
  "'c StorageEngine \<Rightarrow> ClusterEnv \<Rightarrow> string \<Rightarrow> VPackSlice \<Rightarrow> OperationOptions \<Rightarrow> 'c local_state
     \<Rightarrow> exn + (OperationResult \<times> 'c local_state)" where
  "insertLocal eng env cname val options st =
     (case
        (case val of
           ArraySlice members \<Rightarrow>
             (case insert_babies eng cname options members ([], [], collection st) of
                Inl e \<Rightarrow> Inl e
              | Inr (resultBuilder, counters, document') \<Rightarrow>
                  Inr (TRI_ERROR_NO_ERROR, resultBuilder, counters, document'))
         | _ \<Rightarrow>
             (case insert_workForOneDocument eng cname options (collection st) [] val of
                Inl e \<Rightarrow> Inl e
              | Inr (res, resultBuilder, document') \<Rightarrow> Inr (res, resultBuilder, [], document')))
      of
        Inl e \<Rightarrow> Inl e
      | Inr (res, resultBuilder, counters, document') \<Rightarrow>
          Inr (OperationResult_buffer (steal (isArray val) resultBuilder) [] res
                 (waitForSync options) counters,
               replicate_insert env val (st\<lparr>collection := document'\<rparr>)))"

text \<open>The lambda \<^verbatim>\<open>workForOneDocument\<close> of \<^verbatim>\<open>modifyLocal\<close>.\<close>

definition modify_workForOneDocument ::
  "'c StorageEngine \<Rightarrow> string \<Rightarrow> OperationOptions \<Rightarrow> TRI_voc_document_operation_e
     \<Rightarrow> 'c \<Rightarrow> VPackBuilder \<Rightarrow> VPackSlice \<Rightarrow> exn + (int \<times> VPackBuilder \<times> 'c)" where
  "modify_workForOneDocument eng cname options operation document resultBuilder newVal =
     (if \<not> isObject newVal then Inr (TRI_ERROR_ARANGO_DOCUMENT_TYPE_INVALID, resultBuilder, document)
      else
        let (res, mptr, actualRevision, previous, document') =
              (if operation = TRI_VOC_DOCUMENT_OPERATION_REPLACE
               then doc_replace eng document newVal options
               else doc_update eng document newVal options)
        in
        if res = TRI_ERROR_ARANGO_CONFLICT then
          (if \<not> silent options then
             (case copyString (slice_get newVal TRI_VOC_ATTRIBUTE_KEY) of
                Inl e \<Rightarrow> Inl e
              | Inr key \<Rightarrow>
                  Inr (TRI_ERROR_ARANGO_CONFLICT,
                       resultBuilder @
                         [buildDocumentIdentity cname key actualRevision NoneSlice
                            (if returnOld options then Some previous else None) None],
                       document'))
           else Inr (TRI_ERROR_ARANGO_CONFLICT, resultBuilder, document'))
        else if res \<noteq> TRI_ERROR_NO_ERROR then Inr (res, resultBuilder, document')
        else if \<not> silent options then
          (case copyString (slice_get newVal TRI_VOC_ATTRIBUTE_KEY) of
             Inl e \<Rightarrow> Inl e
           | Inr key \<Rightarrow>
               Inr (TRI_ERROR_NO_ERROR,
                    resultBuilder @
                      [buildDocumentIdentity cname key (revisionIdAsSlice mptr) actualRevision
                         (if returnOld options then Some previous else None)
                         (if returnNew options then Some mptr else None)],
                    document'))
        else Inr (TRI_ERROR_NO_ERROR, resultBuilder, document'))"

text \<open>The lambda \<^verbatim>\<open>workOnOneDocument\<close> of \<^verbatim>\<open>removeLocal\<close>.\<close>

definition remove_workOnOneDocument ::
  "'c StorageEngine \<Rightarrow> string \<Rightarrow> OperationOptions \<Rightarrow> 'c \<Rightarrow> VPackBuilder \<Rightarrow> VPackSlice
     \<Rightarrow> exn + (int \<times> VPackBuilder \<times> 'c)" where
  "remove_workOnOneDocument eng cname options document resultBuilder val =
     (case
        (case val of
           StringSlice s \<Rightarrow>
             if CHR ''/'' \<in> set s
             then Inr (Some (after_first_slash s, StringSlice (after_first_slash s)))
             else Inr (Some (s, val))
         | ObjectSlice kvs \<Rightarrow>
             (case copyString (slice_get val TRI_VOC_ATTRIBUTE_KEY) of
                Inl e \<Rightarrow> Inl e
              | Inr key \<Rightarrow> Inr (Some (key, val)))
         | _ \<Rightarrow> Inr None)
      of
        Inl e \<Rightarrow> Inl e
      | Inr None \<Rightarrow> Inr (TRI_ERROR_ARANGO_DOCUMENT_HANDLE_BAD, resultBuilder, document)
      | Inr (Some (key, val')) \<Rightarrow>
          let (res, actualRevision, previous, document') = doc_remove eng document val' options in
          if res \<noteq> TRI_ERROR_NO_ERROR then
            (if res = TRI_ERROR_ARANGO_CONFLICT \<and> \<not> silent options then
               Inr (res,
                    resultBuilder @
                      [buildDocumentIdentity cname key actualRevision NoneSlice
                         (if returnOld options then Some previous else None) None],
                    document')
             else Inr (res, resultBuilder, document'))
          else if \<not> silent options then
            Inr (TRI_ERROR_NO_ERROR,
                 resultBuilder @
                   [buildDocumentIdentity cname key actualRevision NoneSlice
                      (if returnOld options then Some previous else None) None],
                 document')
          else Inr (TRI_ERROR_NO_ERROR, resultBuilder, document'))"

text \<open>The loop of \<^verbatim>\<open>modifyLocal\<close> and of \<^verbatim>\<open>removeLocal\<close> over the members of an
  array value: it leaves at the first member whose \<^verbatim>\<open>res\<close> is not
  \<^verbatim>\<open>TRI_ERROR_NO_ERROR\<close>. \<open>work\<close> is the lambda.\<close>

fun babies_until_error ::
  "('c \<Rightarrow> VPackBuilder \<Rightarrow> VPackSlice \<Rightarrow> exn + (int \<times> VPackBuilder \<times> 'c)) \<Rightarrow> VPackSlice list
     \<Rightarrow> VPackBuilder \<times> 'c \<Rightarrow> exn + (int \<times> VPackBuilder \<times> 'c)" where
  "babies_until_error work [] (resultBuilder, document) =
     Inr (TRI_ERROR_NO_ERROR, resultBuilder, document)"
| "babies_until_error work (s # ss) (resultBuilder, document) =
     (case work document resultBuilder s of
        Inl e \<Rightarrow> Inl e
      | Inr (res, resultBuilder', document') \<Rightarrow>
          if res \<noteq> TRI_ERROR_NO_ERROR then Inr (res, resultBuilder', document')
          else babies_until_error work ss (resultBuilder', document'))"

definition modifyLocal ::
  "'c StorageEngine \<Rightarrow> string \<Rightarrow> VPackSlice \<Rightarrow> OperationOptions \<Rightarrow> TRI_voc_document_operation_e
     \<Rightarrow> 'c local_state \<Rightarrow> exn + (OperationResult \<times> 'c local_state)" where
  "modifyLocal eng cname newValue options operation st =
     (let res = lock eng (collection st) in
      if res \<noteq> TRI_ERROR_NO_ERROR then Inr (OperationResult_code res, st)
      else
        (case
           (case newValue of
              ArraySlice members \<Rightarrow>
                babies_until_error (modify_workForOneDocument eng cname options operation)
                  members ([], collection st)
            | _ \<Rightarrow>
                modify_workForOneDocument eng cname options operation (collection st) [] newValue)
         of
           Inl e \<Rightarrow> Inl e
         | Inr (res, resultBuilder, document') \<Rightarrow>
             Inr (OperationResult_buffer (steal (isArray newValue) resultBuilder) [] res
                    (waitForSync options) [],
                  st\<lparr>collection := document'\<rparr>)))"

definition removeLocal ::
  "'c StorageEngine \<Rightarrow> string \<Rightarrow> VPackSlice \<Rightarrow> OperationOptions \<Rightarrow> 'c local_state
     \<Rightarrow> exn + (OperationResult \<times> 'c local_state)" where
  "removeLocal eng cname val options st =
     (case
        (case val of
           ArraySlice members \<Rightarrow>
             babies_until_error (remove_workOnOneDocument eng cname options)
               members ([], collection st)
         | _ \<Rightarrow> remove_workOnOneDocument eng cname options (collection st) [] val)
      of
        Inl e \<Rightarrow> Inl e
      | Inr (res, resultBuilder, document') \<Rightarrow>
          Inr (OperationResult_buffer (steal (isArray val) resultBuilder) [] res
                 (waitForSync options) [],
               st\<lparr>collection := document'\<rparr>))"

subsection \<open>The query AST, as far as the planner reads it\<close>

text \<open>
  The AST library (\<^verbatim>\<open>Aql/AstNode\<close>, \<^verbatim>\<open>Aql/Ast\<close>, \<^verbatim>\<open>Aql/Condition\<close>,
  \<^verbatim>\<open>Aql/SortCondition\<close>) is not part of the sources. A node has a type, a payload
  and members, as the planner reads them; \<^verbatim>\<open>Nullptr\<close> is the null pointer that
  \<^verbatim>\<open>changeMember\<close> may store. Only the types the planner distinguishes are listed
  by name.
\<close>

datatype AstNodeType =
    NODE_TYPE_OPERATOR_NARY_OR
  | NODE_TYPE_OPERATOR_NARY_AND
  | NODE_TYPE_OPERATOR_BINARY_EQ
  | NODE_TYPE_OPERATOR_BINARY_NE
  | NODE_TYPE_OPERATOR_BINARY_LT
  | NODE_TYPE_OPERATOR_BINARY_LE
  | NODE_TYPE_OPERATOR_BINARY_GT
  | NODE_TYPE_OPERATOR_BINARY_GE
  | NODE_TYPE_OPERATOR_BINARY_IN
  | NODE_TYPE_OPERATOR_BINARY_NIN
  | NODE_TYPE_OPERATOR_BINARY_AND
  | NODE_TYPE_OPERATOR_BINARY_PLUS
  | NODE_TYPE_ATTRIBUTE_ACCESS
  | NODE_TYPE_INDEXED_ACCESS
  | NODE_TYPE_EXPANSION
  | NODE_TYPE_REFERENCE
  | NODE_TYPE_VALUE
  | NODE_TYPE_ARRAY
  | NODE_TYPE_OBJECT
  | NODE_TYPE_FCALL

record Variable =
  variable_id :: nat
  variable_name :: string

datatype AstData = NoData | IntData int | StringData string | VariableData Variable

datatype AstNode = Nullptr | AstNode AstNodeType AstData "AstNode list"

text \<open>Modelled from the spec: the accessors of \<^verbatim>\<open>AstNode\<close> are not part of the
  sources. \<^verbatim>\<open>isArray\<close> tests the type; a comparison is one of the eight binary
  comparison operators; \<^verbatim>\<open>createNodeArray\<close> makes an array without members.\<close>

fun node_isArray :: "AstNode \<Rightarrow> bool" where
  "node_isArray (AstNode t d ms) = (t = NODE_TYPE_ARRAY)"
| "node_isArray Nullptr = False"

fun numMembers :: "AstNode \<Rightarrow> nat" where
  "numMembers (AstNode t d ms) = length ms"
| "numMembers Nullptr = 0"

definition isComparisonOperatorType :: "AstNodeType \<Rightarrow> bool" where
  "isComparisonOperatorType t =
     (t = NODE_TYPE_OPERATOR_BINARY_EQ \<or> t = NODE_TYPE_OPERATOR_BINARY_NE
      \<or> t = NODE_TYPE_OPERATOR_BINARY_LT \<or> t = NODE_TYPE_OPERATOR_BINARY_LE
      \<or> t = NODE_TYPE_OPERATOR_BINARY_GT \<or> t = NODE_TYPE_OPERATOR_BINARY_GE
      \<or> t = NODE_TYPE_OPERATOR_BINARY_IN \<or> t = NODE_TYPE_OPERATOR_BINARY_NIN)"

definition createNodeArray :: AstNode where
  "createNodeArray = AstNode NODE_TYPE_ARRAY NoData []"

text \<open>
  A \<^verbatim>\<open>ConditionPart\<close>, with the fields that the normaliser and its comparator
  read. Its \<^verbatim>\<open>data\<close> pointer is kept beside the part: the
  \<^verbatim>\<open>ConditionData\<close> pair of the clause (here: the position of the clause among
  the members of the root, since the clause is changed through the root while
  the pair points to it) and the index handle of the clause.
\<close>

datatype AttributeSideType = ATTRIBUTE_LEFT | ATTRIBUTE_RIGHT

record ConditionPart =
  variable :: Variable
  attributeName :: string
  operatorType :: AstNodeType
  valueNode :: AstNode

type_synonym 'h ConditionData = "nat \<times> 'h"

text \<open>
  What the AST library answers, as parameters: whether a node is constant;
  whether it is an attribute access for a variable, and then for which variable
  and attribute path (in the string form that the \<^verbatim>\<open>ConditionPart\<close> stores);
  whether a condition is an equality match only; the members of the array that
  \<^verbatim>\<open>createNodeUnionizedArray\<close> makes of two arrays; the operator that the
  \<^verbatim>\<open>ConditionPart\<close> of an attribute on the right-hand side carries; the lower
  bound of a part (a null pointer if it has none) and whether it is inclusive;
  \<^verbatim>\<open>CompareAstNodes\<close>.
\<close>

record AstLibrary =
  isConstant :: "AstNode \<Rightarrow> bool"
  isAttributeAccessForVariable :: "AstNode \<Rightarrow> (Variable \<times> string) option"
  isOnlyEqualityMatch :: "AstNode \<Rightarrow> bool"
  unionizedMembers :: "AstNode \<Rightarrow> AstNode \<Rightarrow> AstNode list"
  ReverseOperator :: "AstNodeType \<Rightarrow> AstNodeType"
  lowerBound :: "ConditionPart \<Rightarrow> AstNode"
  isLowerInclusive :: "ConditionPart \<Rightarrow> bool"
  CompareAstNodes :: "AstNode \<Rightarrow> AstNode \<Rightarrow> int"

definition createNodeUnionizedArray :: "AstLibrary \<Rightarrow> AstNode \<Rightarrow> AstNode \<Rightarrow> AstNode" where
  "createNodeUnionizedArray lib l r = AstNode NODE_TYPE_ARRAY NoData (unionizedMembers lib l r)"

text \<open>Modelled from the spec: the constructor of \<^verbatim>\<open>ConditionPart\<close> is not part of
  the sources. The value node is the operand on the other side of the attribute
  access.\<close>

definition make_ConditionPart ::
  "AstLibrary \<Rightarrow> Variable \<Rightarrow> string \<Rightarrow> AstNodeType \<Rightarrow> AstNode \<Rightarrow> AstNode \<Rightarrow> AttributeSideType
     \<Rightarrow> ConditionPart" where
  "make_ConditionPart lib v attr optype lhs rhs side =
     (case side of
        ATTRIBUTE_LEFT \<Rightarrow>
          \<lparr>variable = v, attributeName = attr, operatorType = optype, valueNode = rhs\<rparr>
      | ATTRIBUTE_RIGHT \<Rightarrow>
          \<lparr>variable = v, attributeName = attr, operatorType = ReverseOperator lib optype,
           valueNode = lhs\<rparr>)"

subsection \<open>The condition normaliser (\<^verbatim>\<open>sortOrs\<close>)\<close>

text \<open>The type of a node that is no null pointer.\<close>

fun node_type :: "AstNode \<Rightarrow> AstNodeType" where
  "node_type (AstNode t d ms) = t"

text \<open>
  The two \<^verbatim>\<open>if\<close> blocks in the body of the first loop, for an attribute access
  on the left-hand side and on the right-hand side of the comparison: the part
  that the block appends to \<^verbatim>\<open>parts\<close>, if any.
\<close>

definition left_part ::
  "AstLibrary \<Rightarrow> Variable \<Rightarrow> AstNodeType \<Rightarrow> AstNode \<Rightarrow> AstNode \<Rightarrow> ConditionPart list" where
  "left_part lib variable' optype lhs rhs =
     (case isAttributeAccessForVariable lib lhs of
        Some (v, attr) \<Rightarrow>
          if isConstant lib rhs \<and> v = variable'
             \<and> (optype \<noteq> NODE_TYPE_OPERATOR_BINARY_IN \<or> node_isArray rhs)
          then [make_ConditionPart lib v attr optype lhs rhs ATTRIBUTE_LEFT]
          else []
      | None \<Rightarrow> [])"

definition right_part ::
  "AstLibrary \<Rightarrow> Variable \<Rightarrow> AstNodeType \<Rightarrow> AstNode \<Rightarrow> AstNode \<Rightarrow> ConditionPart list" where
  "right_part lib variable' optype lhs rhs =
     (case isAttributeAccessForVariable lib rhs of
        Some (v, attr) \<Rightarrow>
          if isConstant lib lhs \<and> v = variable'
          then [make_ConditionPart lib v attr optype lhs rhs ATTRIBUTE_RIGHT]
          else []
      | None \<Rightarrow> [])"

text \<open>
  One pass of the first loop, on the clause \<^verbatim>\<open>sub\<close>: an exception or a null
  dereference; \<^verbatim>\<open>None\<close> when the loop returns false; or the parts that the pass
  appends to \<^verbatim>\<open>parts\<close> (none, one or two). \<^verbatim>\<open>getMember\<close> throws when the
  operand has fewer than two members.
\<close>

definition clause_parts ::
  "AstLibrary \<Rightarrow> Variable \<Rightarrow> AstNode \<Rightarrow> exn + ConditionPart list option" where
  "clause_parts lib variable' sub =
     (case sub of
        Nullptr \<Rightarrow> Inl OutOfBounds
      | AstNode subtype subdata submembers \<Rightarrow>
          if length submembers \<noteq> 1 then Inr None
          else
            (case submembers ! 0 of
               Nullptr \<Rightarrow> Inl OutOfBounds
             | AstNode optype opdata opmembers \<Rightarrow>
                 if \<not> isComparisonOperatorType optype then Inr None
                 else if optype = NODE_TYPE_OPERATOR_BINARY_NE
                         \<or> optype = NODE_TYPE_OPERATOR_BINARY_NIN then Inr None
                 else if length opmembers < 2 then Inl (ArangoException TRI_ERROR_INTERNAL)
                 else
                   (let lhs = opmembers ! 0; rhs = opmembers ! 1 in
                    if lhs = Nullptr \<or> rhs = Nullptr then Inl OutOfBounds
                    else
                      Inr (Some
                        ((if node_type lhs = NODE_TYPE_ATTRIBUTE_ACCESS
                          then left_part lib variable' optype lhs rhs else [])
                         @
                         (if node_type rhs = NODE_TYPE_ATTRIBUTE_ACCESS
                             \<or> node_type rhs = NODE_TYPE_EXPANSION
                          then right_part lib variable' optype lhs rhs else []))))))"

text \<open>The first loop, from the clause at position \<open>i\<close> on: each part with its
  \<^verbatim>\<open>ConditionData\<close>, the clause and \<^verbatim>\<open>usedIndexes[i]\<close>.\<close>

fun collect_parts ::
  "AstLibrary \<Rightarrow> Variable \<Rightarrow> AstNode list \<Rightarrow> 'h list \<Rightarrow> nat
     \<Rightarrow> exn + (ConditionPart \<times> 'h ConditionData) list option" where
  "collect_parts lib variable' [] usedIndexes i = Inr (Some [])"
| "collect_parts lib variable' (sub # subs) usedIndexes i =
     (case clause_parts lib variable' sub of
        Inl e \<Rightarrow> Inl e
      | Inr None \<Rightarrow> Inr None
      | Inr (Some ps) \<Rightarrow>
          (case collect_parts lib variable' subs usedIndexes (Suc i) of
             Inl e \<Rightarrow> Inl e
           | Inr None \<Rightarrow> Inr None
           | Inr (Some rest) \<Rightarrow>
               Inr (Some (map (\<lambda>p. (p, (i, usedIndexes ! i))) ps @ rest))))"

text \<open>The second loop: do all parts use the same variable and attribute?\<close>

fun same_attribute :: "ConditionPart list \<Rightarrow> bool" where
  "same_attribute (l # r # ps) =
     (if variable l \<noteq> variable r \<or> attributeName l \<noteq> attributeName r then False
      else same_attribute (r # ps))"
| "same_attribute _ = True"

text \<open>\<^verbatim>\<open>root->getMember(i)->getMember(0)->changeMember(1, node)\<close>, on the clause.
  After the first loop the clause has one member and that member has two.\<close>

fun changeValue :: "AstNode \<Rightarrow> AstNode \<Rightarrow> AstNode" where
  "changeValue (AstNode subtype subdata [AstNode optype opdata opmembers]) node =
     AstNode subtype subdata [AstNode optype opdata (opmembers[1 := node])]"
| "changeValue sub node = sub"

definition isInArray :: "ConditionPart \<Rightarrow> bool" where
  "isInArray p = (operatorType p = NODE_TYPE_OPERATOR_BINARY_IN \<and> node_isArray (valueNode p))"

text \<open>The third loop, which merges the \<^verbatim>\<open>IN\<close> arrays into the first one. The state
  is \<^verbatim>\<open>previousIn\<close> (\<^verbatim>\<open>None\<close> for \<^verbatim>\<open>SIZE_MAX\<close>), the parts, and the clauses of
  the root.\<close>

definition merge_step ::
  "AstLibrary \<Rightarrow> nat option \<times> (ConditionPart \<times> 'h ConditionData) list \<times> AstNode list \<Rightarrow> nat
     \<Rightarrow> nat option \<times> (ConditionPart \<times> 'h ConditionData) list \<times> AstNode list" where
  "merge_step lib st i =
     (case st of (previousIn, parts, subs) \<Rightarrow>
        if isInArray (fst (parts ! i)) then
          (case previousIn of
             Some pin \<Rightarrow>
               (let emptyArray = createNodeArray;
                    mergedIn = createNodeUnionizedArray lib (valueNode (fst (parts ! pin)))
                                 (valueNode (fst (parts ! i)));
                    parts1 = parts[pin := ((fst (parts ! pin))\<lparr>valueNode := mergedIn\<rparr>,
                                           snd (parts ! pin))];
                    parts2 = parts1[i := ((fst (parts1 ! i))\<lparr>valueNode := emptyArray\<rparr>,
                                          snd (parts1 ! i))];
                    subs1 = subs[pin := changeValue (subs ! pin) mergedIn];
                    subs2 = subs1[i := changeValue (subs1 ! i) emptyArray]
                in (previousIn, parts2, subs2))
           | None \<Rightarrow> (Some i, parts, subs))
        else st)"

definition merge_ins ::
  "AstLibrary \<Rightarrow> nat \<Rightarrow> (ConditionPart \<times> 'h ConditionData) list \<Rightarrow> AstNode list
     \<Rightarrow> (ConditionPart \<times> 'h ConditionData) list \<times> AstNode list" where
  "merge_ins lib n parts subs = snd (foldl (merge_step lib) (None, parts, subs) [0 ..< n])"

text \<open>\<^verbatim>\<open>std::string::compare\<close>, by its sign.\<close>

definition string_compare :: "string \<Rightarrow> string \<Rightarrow> int" where
  "string_compare a b = (if a < b then - 1 else if a = b then 0 else 1)"

text \<open>The comparator of the \<^verbatim>\<open>std::sort\<close> call.\<close>

definition part_less :: "AstLibrary \<Rightarrow> ConditionPart \<Rightarrow> ConditionPart \<Rightarrow> bool" where
  "part_less lib lhs rhs =
     (let res = string_compare (variable_name (variable lhs)) (variable_name (variable rhs)) in
      if res \<noteq> 0 then res < 0
      else
        let res = string_compare (attributeName lhs) (attributeName rhs) in
        if res \<noteq> 0 then res < 0
        else
          let ll = lowerBound lib lhs; lr = lowerBound lib rhs in
          if ll = Nullptr \<and> lr \<noteq> Nullptr then True
          else if ll \<noteq> Nullptr \<and> lr = Nullptr then False
          else
            let res = (if ll \<noteq> Nullptr \<and> lr \<noteq> Nullptr then CompareAstNodes lib ll lr else 0) in
            if res \<noteq> 0 then res < 0
            else if isLowerInclusive lib lhs \<and> \<not> isLowerInclusive lib rhs then True
            else if isLowerInclusive lib rhs \<and> \<not> isLowerInclusive lib lhs then False
            else False)"

definition data_less ::
  "AstLibrary \<Rightarrow> ConditionPart \<times> 'h ConditionData \<Rightarrow> ConditionPart \<times> 'h ConditionData \<Rightarrow> bool"
  where
  "data_less lib a b = part_less lib (fst a) (fst b)"

text \<open>The test of the last loop: an \<^verbatim>\<open>IN\<close> with an empty array is left out.\<close>

definition isEmptyIn :: "ConditionPart \<Rightarrow> bool" where
  "isEmptyIn p = (operatorType p = NODE_TYPE_OPERATOR_BINARY_IN \<and> node_isArray (valueNode p)
                  \<and> numMembers (valueNode p) = 0)"

text \<open>
  \<^verbatim>\<open>sortOrs\<close>: what it returns, and the root and \<^verbatim>\<open>usedIndexes\<close> afterwards.
  \<open>std_sort\<close> is the \<^verbatim>\<open>std::sort\<close> of the C++ library, a parameter: given the
  comparator and the sequence it answers the sequence in order. The assertions
  (\<^verbatim>\<open>TRI_ASSERT\<close>) are no-ops, as in a production build.
\<close>

definition sortOrs ::
  "AstLibrary
     \<Rightarrow> ((ConditionPart \<times> 'h ConditionData \<Rightarrow> ConditionPart \<times> 'h ConditionData \<Rightarrow> bool)
           \<Rightarrow> (ConditionPart \<times> 'h ConditionData) list \<Rightarrow> (ConditionPart \<times> 'h ConditionData) list)
     \<Rightarrow> AstNode \<Rightarrow> Variable \<Rightarrow> 'h list \<Rightarrow> exn + (bool \<times> AstNode \<times> 'h list)" where
  "sortOrs lib std_sort root' variable' usedIndexes =
     (case root' of
        Nullptr \<Rightarrow> Inr (True, root', usedIndexes)
      | AstNode roottype rootdata subs \<Rightarrow>
          let n = length subs in
          if n < 2 then Inr (True, root', usedIndexes)
          else if n \<noteq> length usedIndexes then Inr (False, root', usedIndexes)
          else
            (case collect_parts lib variable' subs usedIndexes 0 of
               Inl e \<Rightarrow> Inl e
             | Inr None \<Rightarrow> Inr (False, root', usedIndexes)
             | Inr (Some parts) \<Rightarrow>
                 if length parts \<noteq> n then Inr (False, root', usedIndexes)
                 else if \<not> same_attribute (map fst parts) then Inr (False, root', usedIndexes)
                 else
                   (let (parts', subs') = merge_ins lib n parts subs;
                        sorted' = std_sort (data_less lib) parts';
                        kept = filter (\<lambda>p. \<not> isEmptyIn (fst p)) sorted'
                    in Inr (True,
                            AstNode roottype rootdata (map (\<lambda>p. subs' ! fst (snd p)) kept),
                            map (\<lambda>p. snd (snd p)) kept))))"

text \<open>
  What is taken for granted of the parameters. Of the AST library: a constant
  node is no attribute access for a variable (it holds no reference to one). Of
  \<^verbatim>\<open>std::sort\<close> with the comparator of \<^verbatim>\<open>sortOrs\<close>: it permutes the sequence
  and leaves it in order, no element being before one that the comparator puts
  before it. \<^verbatim>\<open>std::sort\<close> is not stable: where it leaves elements that are
  equivalent for the comparator is not determined.
\<close>

definition ast_consistent :: "AstLibrary \<Rightarrow> bool" where
  "ast_consistent lib =
     (\<forall>node. isConstant lib node \<longrightarrow> isAttributeAccessForVariable lib node = None)"

definition sort_contract ::
  "AstLibrary
     \<Rightarrow> ((ConditionPart \<times> 'h ConditionData \<Rightarrow> ConditionPart \<times> 'h ConditionData \<Rightarrow> bool)
           \<Rightarrow> (ConditionPart \<times> 'h ConditionData) list \<Rightarrow> (ConditionPart \<times> 'h ConditionData) list)
     \<Rightarrow> bool" where
  "sort_contract lib std_sort =
     (\<forall>xs. mset (std_sort (data_less lib) xs) = mset xs
           \<and> sorted_wrt (\<lambda>a b. \<not> data_less lib b a) (std_sort (data_less lib) xs))"

text \<open>
  No two clauses of the root are equivalent for the comparator of \<^verbatim>\<open>sortOrs\<close>:
  of any two of the parts that the first loop reads from the clauses, the
  comparator puts one before the other.
\<close>

definition no_equivalent_clauses :: "AstLibrary \<Rightarrow> AstNode \<Rightarrow> Variable \<Rightarrow> 'h list \<Rightarrow> bool" where
  "no_equivalent_clauses lib root' variable' usedIndexes =
     (case root' of
        Nullptr \<Rightarrow> True
      | AstNode roottype rootdata subs \<Rightarrow>
          (case collect_parts lib variable' subs usedIndexes 0 of
             Inr (Some parts) \<Rightarrow>
               sorted_wrt (\<lambda>a b. data_less lib a b \<or> data_less lib b a) parts
           | _ \<Rightarrow> True))"

text \<open>
  A clause as the AST builder makes it: no null pointer for the clause, for its
  operand or for the two sides of a comparison, and a comparison has its two
  sides. On such clauses the first loop neither throws nor dereferences a null
  pointer.
\<close>

definition wf_clause :: "AstNode \<Rightarrow> bool" where
  "wf_clause sub =
     (case sub of
        Nullptr \<Rightarrow> False
      | AstNode subtype subdata submembers \<Rightarrow>
          (case submembers of
             [AstNode optype opdata opmembers] \<Rightarrow>
               if isComparisonOperatorType optype then
                 (case opmembers of
                    AstNode lt ld lm # AstNode rt rd rm # others \<Rightarrow> True
                  | _ \<Rightarrow> False)
               else True
           | [Nullptr] \<Rightarrow> False
           | _ \<Rightarrow> True))"

text \<open>Whether the clause is one binary comparison, and the operator of it.\<close>

definition single_comparison :: "AstNode \<Rightarrow> AstNodeType option" where
  "single_comparison sub =
     (case sub of
        AstNode subtype subdata [AstNode optype opdata opmembers] \<Rightarrow>
          if isComparisonOperatorType optype then Some optype else None
      | _ \<Rightarrow> None)"

text \<open>The variable and the attribute path that the comparison of a clause
  refers to: those of its left-hand side if that is an attribute access for a
  variable, else those of its right-hand side.\<close>

definition clause_attribute :: "AstLibrary \<Rightarrow> AstNode \<Rightarrow> (Variable \<times> string) option" where
  "clause_attribute lib sub =
     (case sub of
        AstNode subtype subdata [AstNode optype opdata (lhs # rhs # others)] \<Rightarrow>
          if lhs = Nullptr \<or> rhs = Nullptr then None
          else
            (case (if node_type lhs = NODE_TYPE_ATTRIBUTE_ACCESS
                   then isAttributeAccessForVariable lib lhs else None) of
               Some va \<Rightarrow> Some va
             | None \<Rightarrow>
                 if node_type rhs = NODE_TYPE_ATTRIBUTE_ACCESS \<or> node_type rhs = NODE_TYPE_EXPANSION
                 then isAttributeAccessForVariable lib rhs else None)
      | _ \<Rightarrow> None)"

text \<open>
  What the merging loop has done to position \<open>k\<close>: nothing; or the part at \<open>k\<close>
  is an \<^verbatim>\<open>IN\<close> with an array, and its value node and the right-hand side of its
  clause have been replaced by an array node (the merged array, or the empty
  array). Its \<^verbatim>\<open>ConditionData\<close> is as it was.
\<close>

definition merged_at ::
  "(ConditionPart \<times> 'h ConditionData) list \<Rightarrow> AstNode list
     \<Rightarrow> (ConditionPart \<times> 'h ConditionData) list \<Rightarrow> AstNode list \<Rightarrow> nat \<Rightarrow> bool" where
  "merged_at parts subs parts' subs' k =
     (snd (parts' ! k) = snd (parts ! k)
      \<and> ((parts' ! k = parts ! k \<and> subs' ! k = subs ! k)
         \<or> (isInArray (fst (parts ! k))
            \<and> (\<exists>ms. fst (parts' ! k)
                        = (fst (parts ! k))\<lparr>valueNode := AstNode NODE_TYPE_ARRAY NoData ms\<rparr>
                     \<and> subs' ! k = changeValue (subs ! k) (AstNode NODE_TYPE_ARRAY NoData ms)))))"

text \<open>
  The invariant of the merging loop before its pass \<open>m\<close>: the positions from \<open>m\<close>
  on are untouched; \<^verbatim>\<open>previousIn\<close> is the first \<^verbatim>\<open>IN\<close> with an array before \<open>m\<close>,
  if there is one, and every other such \<^verbatim>\<open>IN\<close> before \<open>m\<close> has been emptied.
\<close>

definition merge_inv ::
  "(ConditionPart \<times> 'h ConditionData) list \<Rightarrow> AstNode list \<Rightarrow> nat
     \<Rightarrow> nat option \<times> (ConditionPart \<times> 'h ConditionData) list \<times> AstNode list \<Rightarrow> bool" where
  "merge_inv parts subs m st =
     (case st of (previousIn, parts', subs') \<Rightarrow>
        length parts' = length parts \<and> length subs' = length subs
        \<and> (\<forall>k < length parts. merged_at parts subs parts' subs' k)
        \<and> (\<forall>k. m \<le> k \<and> k < length parts \<longrightarrow> parts' ! k = parts ! k \<and> subs' ! k = subs ! k)
        \<and> (case previousIn of
              None \<Rightarrow> \<forall>k < m. \<not> isInArray (fst (parts ! k))
            | Some pin \<Rightarrow>
                pin < m \<and> isInArray (fst (parts ! pin))
                \<and> (\<forall>k < m. k \<noteq> pin \<longrightarrow> isInArray (fst (parts ! k))
                       \<longrightarrow> isEmptyIn (fst (parts' ! k)))))"

text \<open>An insertion sort that keeps the order of equivalent elements: what
  \<^verbatim>\<open>std::sort\<close> is instantiated with in the examples.\<close>

fun insort_by :: "('a \<Rightarrow> 'a \<Rightarrow> bool) \<Rightarrow> 'a \<Rightarrow> 'a list \<Rightarrow> 'a list" where
  "insort_by lt x [] = [x]"
| "insort_by lt x (y # ys) = (if lt y x then y # insort_by lt x ys else x # y # ys)"

definition insertion_sort :: "('a \<Rightarrow> 'a \<Rightarrow> bool) \<Rightarrow> 'a list \<Rightarrow> 'a list" where
  "insertion_sort lt xs = foldr (insort_by lt) xs []"

text \<open>An insertion sort that puts an element behind the elements equivalent to
  it, and so reverses the order of equivalent elements: another sort that
  \<^verbatim>\<open>std::sort\<close> may be.\<close>

fun insort_last :: "('a \<Rightarrow> 'a \<Rightarrow> bool) \<Rightarrow> 'a \<Rightarrow> 'a list \<Rightarrow> 'a list" where
  "insort_last lt x [] = [x]"
| "insort_last lt x (y # ys) = (if lt x y then x # y # ys else y # insort_last lt x ys)"

definition reversing_sort :: "('a \<Rightarrow> 'a \<Rightarrow> bool) \<Rightarrow> 'a list \<Rightarrow> 'a list" where
  "reversing_sort lt xs = foldr (insort_last lt) xs []"

subsection \<open>The index capability interface\<close>

text \<open>
  Costs are \<^verbatim>\<open>double\<close>s in the source. The type of the doubles and the
  operations that the planner applies to them are parameters: the constant
  \<^verbatim>\<open>0.0\<close>, the addition, the comparison \<^verbatim>\<open><\<close>, and the two products of an item
  count (a \<^verbatim>\<open>size_t\<close>, converted to \<^verbatim>\<open>double\<close>): \<^verbatim>\<open>n * 1.5\<close> and
  \<^verbatim>\<open>n * std::log2(static_cast<double>(n))\<close>. So the sum of two costs is what the
  addition of doubles answers (it may round), and a cost may be a NaN or an
  infinity.
\<close>

record 'd DoubleOps =
  d_zero :: 'd
  d_add :: "'d \<Rightarrow> 'd \<Rightarrow> 'd"
  d_less :: "'d \<Rightarrow> 'd \<Rightarrow> bool"
  d_times_1_5 :: "nat \<Rightarrow> 'd"
  d_times_log2 :: "nat \<Rightarrow> 'd"

text \<open>
  What is taken for granted of \<^verbatim>\<open><\<close> on doubles: no double is less than itself,
  and \<^verbatim>\<open><\<close> is transitive. (Both hold of the IEEE comparison, for which a NaN is
  neither less nor greater than any double.) A double \<open>c\<close> is comparable when it
  is on one side of every strict inequality: whenever \<open>a < b\<close>, then \<open>a < c\<close> or
  \<open>c < b\<close>. Every double but a NaN is.
\<close>

definition double_order :: "'d DoubleOps \<Rightarrow> bool" where
  "double_order dbl =
     ((\<forall>a. \<not> d_less dbl a a)
      \<and> (\<forall>a b c. d_less dbl a b \<longrightarrow> d_less dbl b c \<longrightarrow> d_less dbl a c))"

definition comparable :: "'d DoubleOps \<Rightarrow> 'd \<Rightarrow> bool" where
  "comparable dbl c = (\<forall>a b. d_less dbl a b \<longrightarrow> d_less dbl a c \<or> d_less dbl c b)"

text \<open>
  \<^verbatim>\<open>SortCondition\<close> and the index implementations are not part of the sources.
  A sort condition is what its methods answer. An index is what its virtual
  methods answer: \<^verbatim>\<open>supportsFilterCondition\<close> answers whether it supports the
  condition, the estimated items and the estimated cost;
  \<^verbatim>\<open>supportsSortCondition\<close> answers whether it supports the sort, the estimated
  cost and the covered attributes.
\<close>

record SortCondition =
  isEmpty :: bool
  isOnlyAttributeAccess :: bool
  isUnidirectional :: bool
  numAttributes :: nat
  coveredAttributes :: "Variable \<Rightarrow> string list list \<Rightarrow> nat"

record 'd Index =
  isSorted :: bool
  sparse :: bool
  idx_fields :: "string list list"
  supportsFilterCondition :: "AstNode \<Rightarrow> Variable \<Rightarrow> nat \<Rightarrow> bool \<times> nat \<times> 'd"
  supportsSortCondition :: "SortCondition \<Rightarrow> Variable \<Rightarrow> nat \<Rightarrow> bool \<times> 'd \<times> nat"
  specializeCondition :: "AstNode \<Rightarrow> Variable \<Rightarrow> AstNode"

text \<open>\<^verbatim>\<open>indexSupportsSort\<close>: the answer, and the two output parameters
  \<^verbatim>\<open>estimatedCost\<close> and \<^verbatim>\<open>coveredAttributes\<close> afterwards. \<open>covered\<close> is the
  value of \<^verbatim>\<open>coveredAttributes\<close> before the call.\<close>

definition indexSupportsSort ::
  "'d DoubleOps \<Rightarrow> 'd Index \<Rightarrow> Variable \<Rightarrow> SortCondition \<Rightarrow> nat \<Rightarrow> nat \<Rightarrow> bool \<times> 'd \<times> nat"
  where
  "indexSupportsSort dbl idx reference sortCondition itemsInIndex covered =
     (let notSupported =
            (if itemsInIndex > 0 then d_times_log2 dbl itemsInIndex else d_zero dbl)
      in
      if isSorted idx then
        (let (supports, estimatedCost, covered') =
               supportsSortCondition idx sortCondition reference itemsInIndex
         in if supports then (True, estimatedCost, covered')
            else (False, notSupported, covered'))
      else (False, notSupported, covered))"

subsection \<open>The AND-clause planner (\<^verbatim>\<open>findIndexHandleForAndNode\<close>)\<close>

text \<open>
  One pass of the loop body up to the \<^verbatim>\<open>continue\<close>: what the index supports,
  its \<^verbatim>\<open>filterCost\<close> and its \<^verbatim>\<open>sortCost\<close>, and \<^verbatim>\<open>coveredAttributes\<close> afterwards.
\<close>

definition index_costs ::
  "'d DoubleOps \<Rightarrow> AstLibrary \<Rightarrow> 'd Index \<Rightarrow> AstNode \<Rightarrow> Variable \<Rightarrow> SortCondition \<Rightarrow> nat \<Rightarrow> nat
     \<Rightarrow> bool \<times> bool \<times> 'd \<times> 'd \<times> nat" where
  "index_costs dbl lib idx node reference sortCondition itemsInCollection covered =
     (let itemsInIndex = itemsInCollection;
          (supports, estimatedItems, estimatedCost) =
             supportsFilterCondition idx node reference itemsInIndex;
          filterCost = (if supports then estimatedCost else d_times_1_5 dbl itemsInIndex);
          itemsInIndex' = (if supports then estimatedItems else itemsInIndex);
          supportsFilter = supports;
          onlyAttributeAccess = (\<not> isEmpty sortCondition \<and> isOnlyAttributeAccess sortCondition);
          (supportsSort, sortCost, covered') =
             (if isUnidirectional sortCondition then
                indexSupportsSort dbl idx reference sortCondition itemsInIndex' covered
              else (False, d_zero dbl, covered));
          sortCost' =
             (if \<not> supportsSort \<and> onlyAttributeAccess \<and> isOnlyEqualityMatch lib node then
                (let coveredFields = coveredAttributes sortCondition reference (idx_fields idx) in
                 if coveredFields = numAttributes sortCondition
                    \<and> (isSorted idx \<or> length (idx_fields idx) = numAttributes sortCondition)
                 then d_zero dbl else sortCost)
              else sortCost)
      in (supportsFilter, supportsSort, filterCost, sortCost', covered'))"

text \<open>The four values by name (none of them depends on \<^verbatim>\<open>coveredAttributes\<close>),
  and the \<^verbatim>\<open>totalCost\<close> of the index.\<close>

definition index_supportsFilter ::
  "'d DoubleOps \<Rightarrow> AstLibrary \<Rightarrow> AstNode \<Rightarrow> Variable \<Rightarrow> SortCondition \<Rightarrow> nat \<Rightarrow> 'd Index \<Rightarrow> bool"
  where
  "index_supportsFilter dbl lib node reference sortCondition itemsInCollection idx =
     fst (index_costs dbl lib idx node reference sortCondition itemsInCollection 0)"

definition index_supportsSort ::
  "'d DoubleOps \<Rightarrow> AstLibrary \<Rightarrow> AstNode \<Rightarrow> Variable \<Rightarrow> SortCondition \<Rightarrow> nat \<Rightarrow> 'd Index \<Rightarrow> bool"
  where
  "index_supportsSort dbl lib node reference sortCondition itemsInCollection idx =
     fst (snd (index_costs dbl lib idx node reference sortCondition itemsInCollection 0))"

definition index_filterCost ::
  "'d DoubleOps \<Rightarrow> AstLibrary \<Rightarrow> AstNode \<Rightarrow> Variable \<Rightarrow> SortCondition \<Rightarrow> nat \<Rightarrow> 'd Index \<Rightarrow> 'd"
  where
  "index_filterCost dbl lib node reference sortCondition itemsInCollection idx =
     fst (snd (snd (index_costs dbl lib idx node reference sortCondition itemsInCollection 0)))"

definition index_sortCost ::
  "'d DoubleOps \<Rightarrow> AstLibrary \<Rightarrow> AstNode \<Rightarrow> Variable \<Rightarrow> SortCondition \<Rightarrow> nat \<Rightarrow> 'd Index \<Rightarrow> 'd"
  where
  "index_sortCost dbl lib node reference sortCondition itemsInCollection idx =
     fst (snd (snd (snd (index_costs dbl lib idx node reference sortCondition
                           itemsInCollection 0))))"

definition index_totalCost ::
  "'d DoubleOps \<Rightarrow> AstLibrary \<Rightarrow> AstNode \<Rightarrow> Variable \<Rightarrow> SortCondition \<Rightarrow> nat \<Rightarrow> 'd Index \<Rightarrow> 'd"
  where
  "index_totalCost dbl lib node reference sortCondition itemsInCollection idx =
     d_add dbl (index_filterCost dbl lib node reference sortCondition itemsInCollection idx)
       (index_sortCost dbl lib node reference sortCondition itemsInCollection idx)"

text \<open>The variables that the loop keeps between its passes.\<close>

record 'd best_state =
  bestIndex :: "'d Index option"
  bestCost :: 'd
  bestSupportsFilter :: bool
  bestSupportsSort :: bool
  covered_state :: nat

definition best_step ::
  "'d DoubleOps \<Rightarrow> AstLibrary \<Rightarrow> AstNode \<Rightarrow> Variable \<Rightarrow> SortCondition \<Rightarrow> nat \<Rightarrow> 'd best_state
     \<Rightarrow> 'd Index \<Rightarrow> 'd best_state" where
  "best_step dbl lib node reference sortCondition itemsInCollection s idx =
     (let (supportsFilter, supportsSort, filterCost, sortCost, covered') =
            index_costs dbl lib idx node reference sortCondition itemsInCollection
              (covered_state s)
      in
      if \<not> supportsFilter \<and> \<not> supportsSort then s\<lparr>covered_state := covered'\<rparr>
      else
        (let totalCost = d_add dbl filterCost sortCost in
         if bestIndex s = None \<or> d_less dbl totalCost (bestCost s) then
           \<lparr>bestIndex = Some idx, bestCost = totalCost, bestSupportsFilter = supportsFilter,
            bestSupportsSort = supportsSort, covered_state = covered'\<rparr>
         else s\<lparr>covered_state := covered'\<rparr>))"

definition best_search ::
  "'d DoubleOps \<Rightarrow> AstLibrary \<Rightarrow> 'd Index list \<Rightarrow> AstNode \<Rightarrow> Variable \<Rightarrow> SortCondition \<Rightarrow> nat
     \<Rightarrow> 'd best_state" where
  "best_search dbl lib indexes node reference sortCondition itemsInCollection =
     foldl (best_step dbl lib node reference sortCondition itemsInCollection)
       \<lparr>bestIndex = None, bestCost = d_zero dbl, bestSupportsFilter = False,
        bestSupportsSort = False, covered_state = 0\<rparr>
       indexes"

text \<open>What holds of those variables after the loop has seen the indexes \<open>pre\<close>:
  no index yet when none of them supports filter or sort; otherwise one of the
  supporting indexes, with its cost and flags, such that no supporting index has
  a total cost less than its own, and no supporting index before it has the
  same total cost (the comparable ones before it have a greater one).\<close>

definition best_inv ::
  "'d DoubleOps \<Rightarrow> AstLibrary \<Rightarrow> AstNode \<Rightarrow> Variable \<Rightarrow> SortCondition \<Rightarrow> nat \<Rightarrow> 'd Index list
     \<Rightarrow> 'd best_state \<Rightarrow> bool"
  where
  "best_inv dbl lib node reference sc items pre s =
     (case bestIndex s of
        None \<Rightarrow> \<forall>idx \<in> set pre. \<not> index_supportsFilter dbl lib node reference sc items idx
                              \<and> \<not> index_supportsSort dbl lib node reference sc items idx
      | Some b \<Rightarrow>
          \<exists>i < length pre. b = pre ! i
            \<and> (index_supportsFilter dbl lib node reference sc items b
                \<or> index_supportsSort dbl lib node reference sc items b)
            \<and> bestCost s = index_totalCost dbl lib node reference sc items b
            \<and> bestSupportsFilter s = index_supportsFilter dbl lib node reference sc items b
            \<and> bestSupportsSort s = index_supportsSort dbl lib node reference sc items b
            \<and> (\<forall>j < length pre.
                  index_supportsFilter dbl lib node reference sc items (pre ! j)
                  \<or> index_supportsSort dbl lib node reference sc items (pre ! j)
                  \<longrightarrow> \<not> d_less dbl (index_totalCost dbl lib node reference sc items (pre ! j))
                              (index_totalCost dbl lib node reference sc items b))
            \<and> (\<forall>j < i.
                  index_supportsFilter dbl lib node reference sc items (pre ! j)
                  \<or> index_supportsSort dbl lib node reference sc items (pre ! j)
                  \<longrightarrow> index_totalCost dbl lib node reference sc items (pre ! j)
                        \<noteq> index_totalCost dbl lib node reference sc items b
                      \<and> (comparable dbl (index_totalCost dbl lib node reference sc items (pre ! j))
                           \<longrightarrow> d_less dbl (index_totalCost dbl lib node reference sc items b)
                                 (index_totalCost dbl lib node reference sc items (pre ! j)))))"

text \<open>The function: the pair it returns, and \<^verbatim>\<open>usedIndexes\<close>,
  \<^verbatim>\<open>specializedCondition\<close> and \<^verbatim>\<open>isSparse\<close> afterwards.\<close>

definition findIndexHandleForAndNode ::
  "'d DoubleOps \<Rightarrow> AstLibrary \<Rightarrow> 'd Index list \<Rightarrow> AstNode \<Rightarrow> Variable \<Rightarrow> SortCondition \<Rightarrow> nat \<Rightarrow> 'd Index list
     \<Rightarrow> AstNode \<Rightarrow> bool \<Rightarrow> (bool \<times> bool) \<times> 'd Index list \<times> AstNode \<times> bool" where
  "findIndexHandleForAndNode dbl lib indexes node reference sortCondition itemsInCollection
       usedIndexes specializedCondition isSparse =
     (let s = best_search dbl lib indexes node reference sortCondition itemsInCollection in
      case bestIndex s of
        None \<Rightarrow> ((False, False), usedIndexes, specializedCondition, isSparse)
      | Some best \<Rightarrow>
          ((bestSupportsFilter s, bestSupportsSort s),
           usedIndexes @ [best],
           specializeCondition best node reference,
           sparse best))"

text \<open>For one clause: the index that the AND planner chooses (if any), the pair
  that it returns, and the specialised condition that it leaves (a null pointer
  when it chooses no index and was given one).\<close>

definition chosen_index ::
  "'d DoubleOps \<Rightarrow> AstLibrary \<Rightarrow> 'd Index list \<Rightarrow> Variable \<Rightarrow> SortCondition \<Rightarrow> nat \<Rightarrow> AstNode \<Rightarrow> 'd Index option"
  where
  "chosen_index dbl lib indexes reference sortCondition itemsInCollection node =
     bestIndex (best_search dbl lib indexes node reference sortCondition itemsInCollection)"

definition and_result ::
  "'d DoubleOps \<Rightarrow> AstLibrary \<Rightarrow> 'd Index list \<Rightarrow> Variable \<Rightarrow> SortCondition \<Rightarrow> nat \<Rightarrow> AstNode \<Rightarrow> bool \<times> bool"
  where
  "and_result dbl lib indexes reference sortCondition itemsInCollection node =
     fst (findIndexHandleForAndNode dbl lib indexes node reference sortCondition itemsInCollection
            [] Nullptr False)"

definition specialized ::
  "'d DoubleOps \<Rightarrow> AstLibrary \<Rightarrow> 'd Index list \<Rightarrow> Variable \<Rightarrow> SortCondition \<Rightarrow> nat \<Rightarrow> AstNode \<Rightarrow> AstNode"
  where
  "specialized dbl lib indexes reference sortCondition itemsInCollection node =
     fst (snd (snd (findIndexHandleForAndNode dbl lib indexes node reference sortCondition
                      itemsInCollection [] Nullptr False)))"

subsection \<open>The OR-tree planner (\<^verbatim>\<open>getBestIndexHandlesForFilterCondition\<close>)\<close>

text \<open>
  The loop over the members of the root, from position \<open>i\<close> on. It ends either
  by the \<^verbatim>\<open>return\<close> inside the loop (\<^verbatim>\<open>Inl\<close>: the pair returned,
  \<^verbatim>\<open>usedIndexes\<close> and the members of the root) or at the end of the members
  (\<^verbatim>\<open>Inr\<close>: \<^verbatim>\<open>canUseForFilter\<close>, \<^verbatim>\<open>canUseForSort\<close>, \<^verbatim>\<open>usedIndexes\<close>, the members).
  \<open>done\<close> are the members before \<open>i\<close>, already specialised.
\<close>

fun best_handles_loop ::
  "'d DoubleOps \<Rightarrow> AstLibrary \<Rightarrow> 'd Index list \<Rightarrow> Variable \<Rightarrow> SortCondition \<Rightarrow> nat
     \<Rightarrow> AstNode list \<Rightarrow> AstNode list \<Rightarrow> bool \<times> bool \<times> 'd Index list \<times> bool
     \<Rightarrow> ((bool \<times> bool) \<times> 'd Index list \<times> AstNode list) + (bool \<times> bool \<times> 'd Index list \<times> AstNode list)"
  where
  "best_handles_loop dbl lib indexes reference sortCondition itemsInCollection done' []
       (canUseForFilter, canUseForSort, usedIndexes, isSparse) =
     Inr (canUseForFilter, canUseForSort, usedIndexes, done')"
| "best_handles_loop dbl lib indexes reference sortCondition itemsInCollection done' (node # rest)
       (canUseForFilter, canUseForSort, usedIndexes, isSparse) =
     (let (canUseIndex, usedIndexes1, specializedCondition, isSparse1) =
            findIndexHandleForAndNode dbl lib indexes node reference sortCondition itemsInCollection
              usedIndexes Nullptr isSparse
      in
      if snd canUseIndex \<and> \<not> fst canUseIndex then
        (let usedIndexes2 =
               (if length usedIndexes1 > 1 then [last usedIndexes1] else usedIndexes1);
             usedIndexes3 = (if isSparse1 then [] else usedIndexes2)
         in Inl ((False, usedIndexes3 \<noteq> []), usedIndexes3, done' @ node # rest))
      else
        best_handles_loop dbl lib indexes reference sortCondition itemsInCollection
          (done' @ [specializedCondition]) rest
          (canUseForFilter \<and> fst canUseIndex, canUseForSort \<or> snd canUseIndex, usedIndexes1,
           isSparse1))"

text \<open>
  The function: the pair it returns, and \<^verbatim>\<open>usedIndexes\<close>, the root and
  \<^verbatim>\<open>isSorted\<close> afterwards. \<open>indexes\<close> is what \<^verbatim>\<open>indexesForCollection\<close> answers.
\<close>

definition getBestIndexHandlesForFilterCondition ::
  "'d DoubleOps \<Rightarrow> AstLibrary
     \<Rightarrow> ((ConditionPart \<times> 'd Index ConditionData \<Rightarrow> ConditionPart \<times> 'd Index ConditionData \<Rightarrow> bool)
           \<Rightarrow> (ConditionPart \<times> 'd Index ConditionData) list
           \<Rightarrow> (ConditionPart \<times> 'd Index ConditionData) list)
     \<Rightarrow> 'd Index list \<Rightarrow> AstNode \<Rightarrow> Variable \<Rightarrow> SortCondition \<Rightarrow> nat \<Rightarrow> 'd Index list \<Rightarrow> bool
     \<Rightarrow> exn + ((bool \<times> bool) \<times> 'd Index list \<times> AstNode \<times> bool)" where
  "getBestIndexHandlesForFilterCondition dbl lib std_sort indexes root' reference sortCondition
       itemsInCollection usedIndexes isSorted' =
     (case root' of
        Nullptr \<Rightarrow> Inl OutOfBounds
      | AstNode roottype rootdata members \<Rightarrow>
          (case best_handles_loop dbl lib indexes reference sortCondition itemsInCollection []
                  members (length members > 0, False, usedIndexes, False) of
             Inl (result, usedIndexes', members') \<Rightarrow>
               Inr (result, usedIndexes', AstNode roottype rootdata members', isSorted')
           | Inr (canUseForFilter, canUseForSort, usedIndexes', members') \<Rightarrow>
               if canUseForFilter then
                 (case sortOrs lib std_sort (AstNode roottype rootdata members') reference
                         usedIndexes' of
                    Inl e \<Rightarrow> Inl e
                  | Inr (isSorted1, root1, usedIndexes'') \<Rightarrow>
                      Inr ((canUseForFilter, canUseForSort), usedIndexes'', root1, isSorted1))
               else
                 Inr ((canUseForFilter, canUseForSort), usedIndexes',
                      AstNode roottype rootdata members', isSorted')))"

subsection \<open>Reading the counter map; collaborators for the examples\<close>

text \<open>The counter of an error code in the counter map (0 when the code has no
  entry).\<close>

definition count_of :: "(int \<times> nat) list \<Rightarrow> int \<Rightarrow> nat" where
  "count_of counters c = (case map_of counters c of None \<Rightarrow> 0 | Some n \<Rightarrow> n)"

text \<open>
  A small storage engine for the examples: a collection is the list of the keys
  it holds. Inserting a key twice violates the unique constraint (1210);
  updating, replacing or removing a key that is not there fails with
  document-not-found (1202); a document without a string key is refused (1221).
\<close>

definition example_mptr :: "VPackSlice \<Rightarrow> TRI_doc_mptr_t" where
  "example_mptr v = \<lparr>vpack = v, revisionIdAsSlice = StringSlice ''1''\<rparr>"

definition example_modify ::
  "string list \<Rightarrow> VPackSlice \<Rightarrow> OperationOptions
     \<Rightarrow> int \<times> TRI_doc_mptr_t \<times> VPackSlice \<times> TRI_doc_mptr_t \<times> string list" where
  "example_modify d v opts =
     (if extractKey v = [] then (1221, example_mptr v, NoneSlice, example_mptr v, d)
      else if extractKey v \<in> set d
      then (0, example_mptr v, StringSlice ''0'', example_mptr v, d)
      else (1202, example_mptr v, NoneSlice, example_mptr v, d))"

definition example_engine :: "string list StorageEngine" where
  "example_engine =
     \<lparr>doc_insert = (\<lambda>d v opts.
         if extractKey v = [] then (1221, example_mptr v, d)
         else if extractKey v \<in> set d then (1210, example_mptr v, d)
         else (0, example_mptr v, d @ [extractKey v])),
      doc_update = example_modify,
      doc_replace = example_modify,
      doc_remove = (\<lambda>d v opts.
         if extractKey v \<in> set d
         then (0, StringSlice ''1'', example_mptr v, filter (\<lambda>k. k \<noteq> extractKey v) d)
         else (1202, NoneSlice, example_mptr v, d)),
      lock = (\<lambda>d. 0)\<rparr>"

definition example_options :: OperationOptions where
  "example_options =
     \<lparr>waitForSync = False, ignoreRevs = True, returnOld = False, returnNew = False,
      silent = False\<rparr>"

definition example_doc :: "string \<Rightarrow> VPackSlice" where
  "example_doc k = ObjectSlice [(''_key'', StringSlice k)]"

text \<open>A shard leader whose \<^verbatim>\<open>performRequests\<close> answers the given \<^verbatim>\<open>nrGood\<close> and
  leaves the given outcomes in the requests, in the order of the requests.\<close>

definition example_env :: "nat \<Rightarrow> (bool \<times> ClusterCommResult) list \<Rightarrow> ClusterEnv" where
  "example_env nrGood outcomes =
     \<lparr>isDBServer = True, vocbase_name = ''_system'', info_name = ''users'',
      urlEncode = (\<lambda>s. s), toJson = (\<lambda>v. ''{}''),
      performRequests = (\<lambda>requests timeout. (nrGood, (\<lambda>i. outcomes ! i)))\<rparr>"

definition received :: "ResponseCode \<Rightarrow> ServerID \<Rightarrow> bool \<times> ClusterCommResult" where
  "received c sid = (True, \<lparr>status = CL_COMM_RECEIVED, answer_code = c, serverID = sid\<rparr>)"

text \<open>
  An AST library for the examples, on nodes built of references, attribute
  accesses, integer values and arrays: values and arrays of values are constant;
  an attribute access for a variable is a chain of attribute accesses on a
  reference; arrays are unionized into the ascending array of their distinct
  values; \<^verbatim>\<open><\<close> and \<^verbatim>\<open>>\<close> (and \<^verbatim>\<open><=\<close>, \<^verbatim>\<open>>=\<close>) are each other's reverse; the
  lower bound of \<^verbatim>\<open>==\<close>, \<^verbatim>\<open>>\<close> and \<^verbatim>\<open>>=\<close> is the value, that of \<^verbatim>\<open>IN\<close> the first
  member of the array; nodes compare by their integer.
\<close>

fun example_isConstant :: "AstNode \<Rightarrow> bool" where
  "example_isConstant (AstNode t d ms) =
     (t = NODE_TYPE_VALUE \<or> (t = NODE_TYPE_ARRAY \<and> list_all example_isConstant ms))"
| "example_isConstant Nullptr = False"

fun example_access :: "AstNode \<Rightarrow> (Variable \<times> string) option" where
  "example_access (AstNode t d ms) =
     (if t = NODE_TYPE_ATTRIBUTE_ACCESS then
        (case (d, ms) of
           (StringData a, [AstNode t' d' ms']) \<Rightarrow>
             (if t' = NODE_TYPE_REFERENCE then
                (case d' of VariableData v \<Rightarrow> Some (v, a) | _ \<Rightarrow> None)
              else map_option (\<lambda>(v, p). (v, p @ ''.'' @ a)) (example_access (AstNode t' d' ms')))
         | _ \<Rightarrow> None)
      else None)"
| "example_access Nullptr = None"

fun node_int :: "AstNode \<Rightarrow> int" where
  "node_int (AstNode t (IntData i) ms) = i"
| "node_int _ = 0"

fun node_members :: "AstNode \<Rightarrow> AstNode list" where
  "node_members (AstNode t d ms) = ms"
| "node_members Nullptr = []"

definition int_node :: "int \<Rightarrow> AstNode" where
  "int_node i = AstNode NODE_TYPE_VALUE (IntData i) []"

definition example_lib :: AstLibrary where
  "example_lib =
     \<lparr>isConstant = example_isConstant,
      isAttributeAccessForVariable = example_access,
      isOnlyEqualityMatch = (\<lambda>node. case node of
          AstNode t d ms \<Rightarrow>
            list_all (\<lambda>m. case m of AstNode t' d' ms' \<Rightarrow> t' = NODE_TYPE_OPERATOR_BINARY_EQ
                                   | Nullptr \<Rightarrow> False) ms
        | Nullptr \<Rightarrow> False),
      unionizedMembers = (\<lambda>l r.
          map int_node (sort (remdups (map node_int (node_members l @ node_members r))))),
      ReverseOperator = (\<lambda>t.
          if t = NODE_TYPE_OPERATOR_BINARY_LT then NODE_TYPE_OPERATOR_BINARY_GT
          else if t = NODE_TYPE_OPERATOR_BINARY_GT then NODE_TYPE_OPERATOR_BINARY_LT
          else if t = NODE_TYPE_OPERATOR_BINARY_LE then NODE_TYPE_OPERATOR_BINARY_GE
          else if t = NODE_TYPE_OPERATOR_BINARY_GE then NODE_TYPE_OPERATOR_BINARY_LE
          else t),
      lowerBound = (\<lambda>p.
          if operatorType p = NODE_TYPE_OPERATOR_BINARY_GT
             \<or> operatorType p = NODE_TYPE_OPERATOR_BINARY_GE
             \<or> operatorType p = NODE_TYPE_OPERATOR_BINARY_EQ then valueNode p
          else if operatorType p = NODE_TYPE_OPERATOR_BINARY_IN
                  \<and> example_isConstant (valueNode p) \<and> node_isArray (valueNode p)
                  \<and> numMembers (valueNode p) > 0
          then hd (node_members (valueNode p))
          else Nullptr),
      isLowerInclusive = (\<lambda>p.
          operatorType p = NODE_TYPE_OPERATOR_BINARY_GE
          \<or> operatorType p = NODE_TYPE_OPERATOR_BINARY_EQ
          \<or> operatorType p = NODE_TYPE_OPERATOR_BINARY_IN),
      CompareAstNodes = (\<lambda>a b.
          if node_int a < node_int b then - 1 else if node_int a = node_int b then 0 else 1)\<rparr>"

text \<open>What the comparator of \<^verbatim>\<open>sortOrs\<close> orders by with this library: the name
  of the variable, the attribute path, whether there is a lower bound, the lower
  bound, and whether it is inclusive.\<close>

definition example_key :: "ConditionPart \<Rightarrow> string \<times> string \<times> nat \<times> int \<times> nat" where
  "example_key p =
     (variable_name (variable p), attributeName p,
      (if lowerBound example_lib p = Nullptr then 0 else 1),
      (if lowerBound example_lib p = Nullptr then 0 else node_int (lowerBound example_lib p)),
      (if isLowerInclusive example_lib p then 0 else 1))"

text \<open>The variable \<^verbatim>\<open>doc\<close>, the access \<^verbatim>\<open>doc.<attr>\<close>, an array of integers, a
  comparison, a clause of one comparison.\<close>

definition example_var :: Variable where
  "example_var = \<lparr>variable_id = 1, variable_name = ''doc''\<rparr>"

definition doc_attr :: "string \<Rightarrow> AstNode" where
  "doc_attr a =
     AstNode NODE_TYPE_ATTRIBUTE_ACCESS (StringData a)
       [AstNode NODE_TYPE_REFERENCE (VariableData example_var) []]"

definition int_array :: "int list \<Rightarrow> AstNode" where
  "int_array xs = AstNode NODE_TYPE_ARRAY NoData (map int_node xs)"

definition compare_node :: "AstNodeType \<Rightarrow> AstNode \<Rightarrow> AstNode \<Rightarrow> AstNode" where
  "compare_node t l r = AstNode t NoData [l, r]"

definition and_clause :: "AstNode list \<Rightarrow> AstNode" where
  "and_clause ms = AstNode NODE_TYPE_OPERATOR_NARY_AND NoData ms"

definition or_root :: "AstNode list \<Rightarrow> AstNode" where
  "or_root ms = AstNode NODE_TYPE_OPERATOR_NARY_OR NoData ms"

text \<open>
  Indexes for the examples, by what they answer: an index that supports neither
  filter nor sort (as the primary index for a condition on other attributes); an
  unsorted index that supports the filter of the clauses in \<open>nodes\<close> with the
  given estimates; a sorted index that supports that filter and the sort; a
  sorted index that supports the sort only. The sort condition is
  unidirectional, on two attributes.
\<close>

definition example_sortCondition :: SortCondition where
  "example_sortCondition =
     \<lparr>isEmpty = False, isOnlyAttributeAccess = True, isUnidirectional = True,
      numAttributes = 2, coveredAttributes = (\<lambda>v fs. 0)\<rparr>"

text \<open>For the examples the doubles are the reals with the exact operations (the
  costs of the examples are small integers, on which the operations on doubles
  are exact).\<close>

definition exact_arith :: "real DoubleOps" where
  "exact_arith =
     \<lparr>d_zero = 0, d_add = (+), d_less = (<),
      d_times_1_5 = (\<lambda>n. real n * 1.5),
      d_times_log2 = (\<lambda>n. real n * log 2 (real n))\<rparr>"

definition no_support_index :: "real Index" where
  "no_support_index =
     \<lparr>isSorted = False, sparse = False, idx_fields = [[''_key'']],
      supportsFilterCondition = (\<lambda>node v n. (False, n, 0)),
      supportsSortCondition = (\<lambda>sc v n. (False, 0, 0)),
      specializeCondition = (\<lambda>node v. node)\<rparr>"

definition filter_index :: "bool \<Rightarrow> AstNode list \<Rightarrow> nat \<Rightarrow> real \<Rightarrow> real Index" where
  "filter_index sp nodes items cost =
     \<lparr>isSorted = False, sparse = sp, idx_fields = [[''x'']],
      supportsFilterCondition = (\<lambda>node v n. (node \<in> set nodes, items, cost)),
      supportsSortCondition = (\<lambda>sc v n. (False, 0, 0)),
      specializeCondition = (\<lambda>node v. node)\<rparr>"

definition sorted_index :: "bool \<Rightarrow> AstNode list \<Rightarrow> nat \<Rightarrow> real \<Rightarrow> real Index" where
  "sorted_index sp nodes items cost =
     \<lparr>isSorted = True, sparse = sp, idx_fields = [[''x''], [''y'']],
      supportsFilterCondition = (\<lambda>node v n. (node \<in> set nodes, items, cost)),
      supportsSortCondition = (\<lambda>sc v n. (True, 0, 2)),
      specializeCondition = (\<lambda>node v. node)\<rparr>"

text \<open>The clause \<^verbatim>\<open>doc.x == 5 && doc.y > 3\<close>, and three indexes of a collection of
  1000 documents.\<close>

definition example_clause :: AstNode where
  "example_clause =
     and_clause [compare_node NODE_TYPE_OPERATOR_BINARY_EQ (doc_attr ''x'') (int_node 5),
                 compare_node NODE_TYPE_OPERATOR_BINARY_GT (doc_attr ''y'') (int_node 3)]"

definition example_indexes :: "real Index list" where
  "example_indexes =
     [no_support_index, filter_index False [example_clause] 2 10,
      sorted_index False [example_clause] 5 6]"

text \<open>A second clause, \<^verbatim>\<open>doc.z == 1\<close>, that the indexes of the examples do not
  support.\<close>

definition other_clause :: AstNode where
  "other_clause =
     and_clause [compare_node NODE_TYPE_OPERATOR_BINARY_EQ (doc_attr ''z'') (int_node 1)]"

section \<open>Properties\<close>

lemmas TRI_ERROR_defs =
  TRI_ERROR_NO_ERROR_def TRI_ERROR_INTERNAL_def TRI_ERROR_NOT_IMPLEMENTED_def
  TRI_ERROR_ARANGO_CONFLICT_def TRI_ERROR_ARANGO_DOCUMENT_NOT_FOUND_def
  TRI_ERROR_ARANGO_COLLECTION_NOT_FOUND_def TRI_ERROR_ARANGO_DOCUMENT_HANDLE_BAD_def
  TRI_ERROR_ARANGO_UNIQUE_CONSTRAINT_VIOLATED_def TRI_ERROR_ARANGO_DOCUMENT_KEY_BAD_def
  TRI_ERROR_ARANGO_DOCUMENT_TYPE_INVALID_def

subsection \<open>The debug handler\<close>

text \<open>
  C9. The claim: on \<^verbatim>\<open>/_admin/debug/failat\<close> a \<^verbatim>\<open>DELETE\<close> (all fail-points, or the
  named one) and a \<^verbatim>\<open>PUT\<close> with a name answer 200 with body \<^verbatim>\<open>true\<close>; every other
  verb, and a \<^verbatim>\<open>PUT\<close> without a name, answers 501 and does not also produce a 200
  response. The handler run on \<^verbatim>\<open>PUT /_admin/debug/failat\<close> (no name) generates the
  501 response and then, the \<^verbatim>\<open>else\<close> branch ending in \<^verbatim>\<open>break\<close> where the
  \<^verbatim>\<open>default\<close> branch returns, the 200 response with body \<^verbatim>\<open>true\<close> as well; the
  latter is what the response object holds at the end.
\<close>

theorem execute_put_without_name:
  "generated (execute PUT [''failat''] s) =
     generated s @ [(NOT_IMPLEMENTED, StringSlice ''ILLEGAL /_admin/debug/failat''),
                    (OK, BoolSlice True)]
   \<and> response (execute PUT [''failat''] s) = Some (OK, BoolSlice True)"
  by (simp add: execute_def generateResult_def generateNotImplemented_def response_def)

text \<open>The other requests behave as the claim says.\<close>

lemma execute_delete_all:
  "execute DELETE_REQ [''failat''] s =
     s\<lparr>failurePoints := {}, generated := generated s @ [(OK, BoolSlice True)]\<rparr>"
  by (simp add: execute_def generateResult_def TRI_ClearFailurePointsDebugging_def)

lemma execute_delete_one:
  "execute DELETE_REQ [''failat'', name] s =
     s\<lparr>failurePoints := failurePoints s - {name},
       generated := generated s @ [(OK, BoolSlice True)]\<rparr>"
  by (simp add: execute_def generateResult_def TRI_RemoveFailurePointDebugging_def)

lemma execute_put_one:
  "execute PUT [''failat'', name] s =
     s\<lparr>failurePoints := insert name (failurePoints s),
       generated := generated s @ [(OK, BoolSlice True)]\<rparr>"
  by (simp add: execute_def generateResult_def TRI_AddFailurePointDebugging_def)

lemma execute_other_verb:
  "type \<noteq> DELETE_REQ \<Longrightarrow> type \<noteq> PUT \<Longrightarrow>
   generated (execute type suffix s) =
     generated s @ [(NOT_IMPLEMENTED, StringSlice ''ILLEGAL /_admin/debug/failat'')]"
  by (cases type) (simp_all add: execute_def generateNotImplemented_def Let_def)

subsection \<open>The coordinator CRUD pipeline\<close>

text \<open>
  C8. The claim: each of \<^verbatim>\<open>documentCoordinator\<close>, \<^verbatim>\<open>updateCoordinator\<close>,
  \<^verbatim>\<open>replaceCoordinator\<close> and \<^verbatim>\<open>removeCoordinator\<close> fails with \<^verbatim>\<open>NOT_IMPLEMENTED\<close>
  when it is given an array. \<^verbatim>\<open>replaceCoordinator\<close> throws
  \<^verbatim>\<open>ARANGO_DOCUMENT_TYPE_INVALID\<close> instead, for every array, whatever the
  collaborators answer.
\<close>

theorem replaceCoordinator_array:
  "replaceCoordinator cm collectionName (ArraySlice xs) options
     = Inl (ArangoException TRI_ERROR_ARANGO_DOCUMENT_TYPE_INVALID)
   \<and> TRI_ERROR_ARANGO_DOCUMENT_TYPE_INVALID \<noteq> TRI_ERROR_NOT_IMPLEMENTED"
  by (simp add: replaceCoordinator_def TRI_ERROR_defs)

text \<open>Its three siblings throw \<^verbatim>\<open>NOT_IMPLEMENTED\<close>.\<close>

lemma coordinator_array_siblings:
  "documentCoordinator cm c (ArraySlice xs) opts = Inl (ArangoException TRI_ERROR_NOT_IMPLEMENTED)"
  "updateCoordinator cm c (ArraySlice xs) opts = Inl (ArangoException TRI_ERROR_NOT_IMPLEMENTED)"
  "removeCoordinator cm c (ArraySlice xs) opts = Inl (ArangoException TRI_ERROR_NOT_IMPLEMENTED)"
  by (simp_all add: documentCoordinator_def updateCoordinator_def removeCoordinator_def)

subsection \<open>Document ids\<close>

text \<open>
  C5. For every well-formed document (an object with a string \<^verbatim>\<open>_key\<close> and an
  \<^verbatim>\<open>_id\<close> that is the literal string or the custom \<^verbatim>\<open>0xF3\<close> blob of a collection
  the resolver knows as \<open>name\<close>), \<^verbatim>\<open>extractIdString\<close> returns the collection name,
  a slash and \<^verbatim>\<open>extractKey\<close> of the document; \<open>base\<close> plays no part.
\<close>

theorem extractIdString_roundtrip:
  assumes "well_formed_document resolver name sl"
  shows "extractIdString resolver sl base = Inr (name @ ''/'' @ extractKey sl)"
  using assms
  by (auto simp: well_formed_document_def extractIdString_def Let_def
           split: VPackSlice.splits option.splits)

text \<open>The custom-tagged form: collection id \<^verbatim>\<open>0x123\<close>, known as \<^verbatim>\<open>users\<close>, key
  \<^verbatim>\<open>abc\<close>.\<close>

theorem extractIdString_roundtrip_witness:
  "well_formed_document (\<lambda>cid. if cid = 0x123 then ''users'' else ''_unknown'') ''users''
     (ObjectSlice [(''_id'', CustomSlice 0xf3 [0x23, 0x01, 0, 0, 0, 0, 0, 0]),
                   (''_key'', StringSlice ''abc'')])
   \<and> extractIdString (\<lambda>cid. if cid = 0x123 then ''users'' else ''_unknown'')
       (ObjectSlice [(''_id'', CustomSlice 0xf3 [0x23, 0x01, 0, 0, 0, 0, 0, 0]),
                     (''_key'', StringSlice ''abc'')]) NoneSlice = Inr ''users/abc''"
proof -
  have wf: "well_formed_document (\<lambda>cid. if cid = 0x123 then ''users'' else ''_unknown'') ''users''
     (ObjectSlice [(''_id'', CustomSlice 0xf3 [0x23, 0x01, 0, 0, 0, 0, 0, 0]),
                   (''_key'', StringSlice ''abc'')])"
    by (simp add: well_formed_document_def TRI_VOC_ATTRIBUTE_KEY_def TRI_VOC_ATTRIBUTE_ID_def
                  ReadNumber_def)
  from extractIdString_roundtrip [OF wf, of NoneSlice] wf show ?thesis
    by (simp add: TRI_VOC_ATTRIBUTE_KEY_def)
qed

subsection \<open>The local CRUD pipeline\<close>

lemma sum_bump:
  fixes cs :: "(int \<times> nat) list"
  shows "distinct (map fst cs) \<Longrightarrow> map_of cs e = Some n \<Longrightarrow>
   sum_list (map snd (map (\<lambda>(k, v). if k = e then (k, v + 1) else (k, v)) cs))
     = sum_list (map snd cs) + 1"
proof (induction cs)
  case Nil
  then show ?case by simp
next
  case (Cons a cs)
  obtain k v where a: "a = (k, v)" by (cases a)
  show ?case
  proof (cases "k = e")
    case True
    with Cons.prems a have "e \<notin> fst ` set cs" by auto
    then have "map (\<lambda>(k, v). if k = e then (k, v + 1) else (k, v)) cs = cs"
      by (induction cs) auto
    with True a show ?thesis by simp
  next
    case False
    with Cons a show ?thesis by simp
  qed
qed

lemma fst_bump:
  "map fst (map (\<lambda>(k, v). if k = e then (k, v + 1) else (k, v)) cs) = map fst cs"
  by (induction cs) auto

lemma map_of_bump:
  "map_of (map (\<lambda>(k, v). if k = e then (k, v + 1) else (k, v)) cs) c
     = (if c = e then map_option Suc (map_of cs c) else map_of cs c)"
  by (induction cs) auto

lemma createBabiesError_distinct:
  "distinct (map fst cs) \<Longrightarrow> distinct (map fst (snd (createBabiesError b cs e)))"
  using fst_bump [of e cs]
  by (auto simp: createBabiesError_def map_of_eq_None_iff simp del: map_map split: option.splits)

lemma createBabiesError_sum:
  "distinct (map fst cs) \<Longrightarrow>
   sum_list (map snd (snd (createBabiesError b cs e))) = sum_list (map snd cs) + 1"
  using sum_bump [of cs e]
  by (auto simp: createBabiesError_def simp del: map_map split: option.splits)

lemma createBabiesError_count:
  "count_of (snd (createBabiesError b cs e)) c = count_of cs c + (if c = e then 1 else 0)"
  by (auto simp: createBabiesError_def count_of_def map_of_bump map_of_append split: option.splits)

lemma createBabiesError_builder:
  "fst (createBabiesError b cs e) = fst (createBabiesError b [] e)"
  by (simp add: createBabiesError_def)

lemma insert_babies_counts:
  "insert_babies eng cname options ms (b, cs, d) = Inr (b', cs', d') \<Longrightarrow> distinct (map fst cs) \<Longrightarrow>
   length (insert_codes eng cname options ms (b, d)) = length ms
   \<and> distinct (map fst cs')
   \<and> sum_list (map snd cs') = sum_list (map snd cs)
        + length (filter (\<lambda>c. c \<noteq> TRI_ERROR_NO_ERROR) (insert_codes eng cname options ms (b, d)))
   \<and> (\<forall>c. c \<noteq> TRI_ERROR_NO_ERROR \<longrightarrow>
         count_of cs' c = count_of cs c + count_list (insert_codes eng cname options ms (b, d)) c)"
proof (induction ms arbitrary: b cs d)
  case Nil
  then show ?case by simp
next
  case (Cons m ms)
  from Cons.prems(1) obtain res b1 d1 where
    w: "insert_workForOneDocument eng cname options d b m = Inr (res, b1, d1)"
    by (auto split: sum.splits)
  show ?case
  proof (cases "res = TRI_ERROR_NO_ERROR")
    case True
    with Cons.prems w have "insert_babies eng cname options ms (b1, cs, d1) = Inr (b', cs', d')"
      by simp
    from Cons.IH [OF this Cons.prems(2)] w True show ?thesis by simp
  next
    case False
    obtain b2 cs2 where c: "createBabiesError b1 cs res = (b2, cs2)"
      by (cases "createBabiesError b1 cs res")
    with Cons.prems w False have r: "insert_babies eng cname options ms (b2, cs2, d1) = Inr (b', cs', d')"
      by simp
    have d2: "distinct (map fst cs2)"
      using createBabiesError_distinct [OF Cons.prems(2), of b1 res] c by simp
    have b2: "fst (createBabiesError b1 [] res) = b2"
      using createBabiesError_builder [of b1 cs res] c by simp
    have s2: "sum_list (map snd cs2) = sum_list (map snd cs) + 1"
      using createBabiesError_sum [OF Cons.prems(2), of b1 res] c by simp
    have c2: "\<And>x. count_of cs2 x = count_of cs x + (if x = res then 1 else 0)"
      using createBabiesError_count [of b1 cs res] c by simp
    from Cons.IH [OF r d2] w False b2 s2 c2 show ?thesis by simp
  qed
qed

lemma insert_workForOneDocument_builder:
  assumes "insert_workForOneDocument eng cname options d b m = Inr (res, b1, d1)"
  shows "if res \<noteq> TRI_ERROR_NO_ERROR \<or> silent options then b1 = b
         else \<exists>key rid newMptr.
                b1 = b @ [buildDocumentIdentity cname key rid NoneSlice None newMptr]"
  using assms
  by (auto simp: insert_workForOneDocument_def Let_def TRI_ERROR_defs
        split: if_splits prod.splits sum.splits)

lemma insert_babies_payload:
  "insert_babies eng cname options ms (b, cs, d) = Inr (b', cs', d') \<Longrightarrow>
   \<exists>entries. b' = b @ concat entries \<and> length entries = length ms
     \<and> (\<forall>k < length ms.
           if insert_codes eng cname options ms (b, d) ! k \<noteq> TRI_ERROR_NO_ERROR
           then entries ! k
                  = [ObjectSlice [(''error'', BoolSlice True),
                       (''errorNum'', IntSlice (insert_codes eng cname options ms (b, d) ! k))]]
           else if silent options then entries ! k = []
           else \<exists>key rid newMptr.
                  entries ! k = [buildDocumentIdentity cname key rid NoneSlice None newMptr])"
proof (induction ms arbitrary: b cs d)
  case Nil
  then show ?case by simp
next
  case (Cons m ms)
  from Cons.prems(1) obtain res b1 d1 where
    w: "insert_workForOneDocument eng cname options d b m = Inr (res, b1, d1)"
    by (auto split: sum.splits)
  note wb = insert_workForOneDocument_builder [OF w]
  define b2 where "b2 = (if res \<noteq> TRI_ERROR_NO_ERROR
                         then fst (createBabiesError b1 [] res) else b1)"
  define cs2 where "cs2 = (if res \<noteq> TRI_ERROR_NO_ERROR
                         then snd (createBabiesError b1 cs res) else cs)"
  have b2': "fst (createBabiesError b1 cs res) = fst (createBabiesError b1 [] res)"
    by (simp add: createBabiesError_def)
  from Cons.prems w have r: "insert_babies eng cname options ms (b2, cs2, d1) = Inr (b', cs', d')"
    by (auto simp: b2_def cs2_def b2' [symmetric] split: prod.splits)
  have codes: "insert_codes eng cname options (m # ms) (b, d)
                 = res # insert_codes eng cname options ms (b2, d1)"
    using w by (simp add: b2_def)
  from Cons.IH [OF r] obtain entries where
    e: "b' = b2 @ concat entries" "length entries = length ms"
    and ek: "\<And>k. k < length ms \<Longrightarrow>
           (if insert_codes eng cname options ms (b2, d1) ! k \<noteq> TRI_ERROR_NO_ERROR
           then entries ! k
                  = [ObjectSlice [(''error'', BoolSlice True),
                       (''errorNum'', IntSlice (insert_codes eng cname options ms (b2, d1) ! k))]]
           else if silent options then entries ! k = []
           else \<exists>key rid newMptr.
                  entries ! k = [buildDocumentIdentity cname key rid NoneSlice None newMptr])"
    by blast
  obtain e0 where e0: "b2 = b @ e0"
    and e0k: "if res \<noteq> TRI_ERROR_NO_ERROR
              then e0 = [ObjectSlice [(''error'', BoolSlice True), (''errorNum'', IntSlice res)]]
              else if silent options then e0 = []
              else \<exists>key rid newMptr.
                     e0 = [buildDocumentIdentity cname key rid NoneSlice None newMptr]"
  proof (cases "res \<noteq> TRI_ERROR_NO_ERROR")
    case True
    with wb have "b2 = b @ [ObjectSlice [(''error'', BoolSlice True), (''errorNum'', IntSlice res)]]"
      by (simp add: b2_def createBabiesError_def)
    with True that show thesis by simp
  next
    case False
    show thesis
    proof (cases "silent options")
      case True
      with False wb have "b2 = b @ []" by (simp add: b2_def)
      with False True that show thesis by simp
    next
      case ns: False
      with False wb obtain key rid newMptr where
        "b2 = b @ [buildDocumentIdentity cname key rid NoneSlice None newMptr]"
        by (auto simp: b2_def)
      with False ns that show thesis by auto
    qed
  qed
  show ?case
  proof (intro exI [of _ "e0 # entries"] conjI allI impI)
    show "b' = b @ concat (e0 # entries)" using e(1) e0 by simp
    show "length (e0 # entries) = length (m # ms)" using e(2) by simp
    fix k assume k: "k < length (m # ms)"
    show "if insert_codes eng cname options (m # ms) (b, d) ! k \<noteq> TRI_ERROR_NO_ERROR
           then (e0 # entries) ! k
                  = [ObjectSlice [(''error'', BoolSlice True),
                       (''errorNum'', IntSlice (insert_codes eng cname options (m # ms) (b, d) ! k))]]
           else if silent options then (e0 # entries) ! k = []
           else \<exists>key rid newMptr.
                  (e0 # entries) ! k = [buildDocumentIdentity cname key rid NoneSlice None newMptr]"
    proof (cases k)
      case 0
      with e0k show ?thesis unfolding codes by simp
    next
      case (Suc k')
      with k ek [of k'] show ?thesis unfolding codes by simp
    qed
  qed
qed

text \<open>
  C10. For every array given to \<^verbatim>\<open>insertLocal\<close>, the result that is returned has
  the top-level code \<^verbatim>\<open>TRI_ERROR_NO_ERROR\<close>, however many members failed; every
  member is processed (\<open>insert_codes\<close> has one code for each), and the counters of
  the counter map add up to the number of members minus the number of members
  that succeeded. The payload is an array made of what each member has added, in
  order: for a member that failed, one error object with \<^verbatim>\<open>error\<close> true and the
  member's code as \<^verbatim>\<open>errorNum\<close>; for a member that succeeded, its document
  identity (nothing when the \<^verbatim>\<open>silent\<close> option is set).
\<close>

theorem insertLocal_array_status:
  assumes "insertLocal eng env cname (ArraySlice members) options st = Inr (r, st')"
  shows "code r = TRI_ERROR_NO_ERROR
    \<and> length (insert_codes eng cname options members ([], collection st)) = length members
    \<and> sum_list (map snd (countErrorCodes r)) =
        length members
        - length (filter (\<lambda>c. c = TRI_ERROR_NO_ERROR)
                    (insert_codes eng cname options members ([], collection st)))
    \<and> (\<exists>entries.
          buffer r = Some (ArraySlice (concat entries)) \<and> length entries = length members
          \<and> (\<forall>k < length members.
                if insert_codes eng cname options members ([], collection st) ! k
                     \<noteq> TRI_ERROR_NO_ERROR
                then entries ! k
                       = [ObjectSlice [(''error'', BoolSlice True),
                            (''errorNum'',
                             IntSlice (insert_codes eng cname options members
                                         ([], collection st) ! k))]]
                else if silent options then entries ! k = []
                else \<exists>key rid newMptr.
                       entries ! k
                         = [buildDocumentIdentity cname key rid NoneSlice None newMptr]))"
proof -
  from assms obtain b cs d where
    ib: "insert_babies eng cname options members ([], [], collection st) = Inr (b, cs, d)"
    and r: "r = OperationResult_buffer (ArraySlice b) [] TRI_ERROR_NO_ERROR (waitForSync options) cs"
    by (auto simp: insertLocal_def steal_def split: sum.splits)
  let ?codes = "insert_codes eng cname options members ([], collection st)"
  from insert_babies_counts [OF ib] have
    len: "length ?codes = length members" and
    sm: "sum_list (map snd cs) = length (filter (\<lambda>c. c \<noteq> TRI_ERROR_NO_ERROR) ?codes)"
    by simp_all
  have "length (filter (\<lambda>c. c \<noteq> TRI_ERROR_NO_ERROR) ?codes)
          + length (filter (\<lambda>c. c = TRI_ERROR_NO_ERROR) ?codes) = length ?codes"
    using sum_length_filter_compl [of "\<lambda>c. c = TRI_ERROR_NO_ERROR" ?codes] by simp
  with len sm r have first: "code r = TRI_ERROR_NO_ERROR
    \<and> length ?codes = length members
    \<and> sum_list (map snd (countErrorCodes r)) =
        length members - length (filter (\<lambda>c. c = TRI_ERROR_NO_ERROR) ?codes)"
    by (simp add: OperationResult_buffer_def)
  have br: "buffer r = Some (ArraySlice b)" by (simp add: r OperationResult_buffer_def)
  from insert_babies_payload [OF ib] br first show ?thesis by simp
qed


lemma babies_until_error_append:
  "babies_until_error work pre (b0, d0) = Inr (TRI_ERROR_NO_ERROR, b1, d1) \<Longrightarrow>
   babies_until_error work (pre @ rest) (b0, d0) = babies_until_error work rest (b1, d1)"
proof (induction pre arbitrary: b0 d0)
  case Nil
  then show ?case by simp
next
  case (Cons p pre)
  then show ?case by (auto split: sum.splits if_splits)
qed

lemma babies_until_error_stops:
  assumes "babies_until_error work pre (b0, d0) = Inr (TRI_ERROR_NO_ERROR, b1, d1)"
    and "work d1 b1 x = Inr (e, b2, d2)" and "e \<noteq> TRI_ERROR_NO_ERROR"
  shows "babies_until_error work (pre @ x # post) (b0, d0) = Inr (e, b2, d2)"
  using babies_until_error_append [OF assms(1), of "x # post"] assms(2,3) by simp

text \<open>
  C1. On an array value: \<^verbatim>\<open>insertLocal\<close> processes every member, and the counter
  map counts each error code as often as a member returned it (processing goes on
  after a failure); in \<^verbatim>\<open>modifyLocal\<close> and in \<^verbatim>\<open>removeLocal\<close> the first member
  whose processing returns a code other than \<^verbatim>\<open>TRI_ERROR_NO_ERROR\<close> ends the batch:
  the members before it (\<open>pre\<close>) succeeded, its code is the top-level code of the
  result, and the result, the payload and the collection are those reached at that
  member, whatever follows it (\<open>post\<close>).
\<close>

theorem batch_error_handling:
  "(insertLocal eng env cname (ArraySlice members) options st = Inr (r, st') \<longrightarrow>
      length (insert_codes eng cname options members ([], collection st)) = length members
      \<and> (\<forall>c. c \<noteq> TRI_ERROR_NO_ERROR \<longrightarrow>
            count_of (countErrorCodes r) c
              = count_list (insert_codes eng cname options members ([], collection st)) c))
   \<and> (lock eng (collection st) = TRI_ERROR_NO_ERROR
      \<and> babies_until_error (modify_workForOneDocument eng cname options operation) pre
           ([], collection st) = Inr (TRI_ERROR_NO_ERROR, b1, d1)
      \<and> modify_workForOneDocument eng cname options operation d1 b1 x = Inr (e, b2, d2)
      \<and> e \<noteq> TRI_ERROR_NO_ERROR \<longrightarrow>
      modifyLocal eng cname (ArraySlice (pre @ x # post)) options operation st
        = Inr (OperationResult_buffer (ArraySlice b2) [] e (waitForSync options) [],
               st\<lparr>collection := d2\<rparr>))
   \<and> (babies_until_error (remove_workOnOneDocument eng cname options) pre'
           ([], collection st) = Inr (TRI_ERROR_NO_ERROR, b1', d1')
      \<and> remove_workOnOneDocument eng cname options d1' b1' x' = Inr (e', b2', d2')
      \<and> e' \<noteq> TRI_ERROR_NO_ERROR \<longrightarrow>
      removeLocal eng cname (ArraySlice (pre' @ x' # post')) options st
        = Inr (OperationResult_buffer (ArraySlice b2') [] e' (waitForSync options) [],
               st\<lparr>collection := d2'\<rparr>))"
proof (intro conjI impI)
  assume a: "insertLocal eng env cname (ArraySlice members) options st = Inr (r, st')"
  then obtain b cs d where
    ib: "insert_babies eng cname options members ([], [], collection st) = Inr (b, cs, d)"
    and r: "countErrorCodes r = cs"
    by (auto simp: insertLocal_def OperationResult_buffer_def split: sum.splits)
  from insert_babies_counts [OF ib] r
  show "length (insert_codes eng cname options members ([], collection st)) = length members"
    and "\<forall>c. c \<noteq> TRI_ERROR_NO_ERROR \<longrightarrow>
            count_of (countErrorCodes r) c
              = count_list (insert_codes eng cname options members ([], collection st)) c"
    by (simp_all add: count_of_def)
next
  assume "lock eng (collection st) = TRI_ERROR_NO_ERROR
      \<and> babies_until_error (modify_workForOneDocument eng cname options operation) pre
           ([], collection st) = Inr (TRI_ERROR_NO_ERROR, b1, d1)
      \<and> modify_workForOneDocument eng cname options operation d1 b1 x = Inr (e, b2, d2)
      \<and> e \<noteq> TRI_ERROR_NO_ERROR"
  then show "modifyLocal eng cname (ArraySlice (pre @ x # post)) options operation st
        = Inr (OperationResult_buffer (ArraySlice b2) [] e (waitForSync options) [],
               st\<lparr>collection := d2\<rparr>)"
    using babies_until_error_stops [of "modify_workForOneDocument eng cname options operation"
        pre "[]" "collection st" b1 d1 x e b2 d2 post]
    by (simp add: modifyLocal_def steal_def)
next
  assume "babies_until_error (remove_workOnOneDocument eng cname options) pre'
           ([], collection st) = Inr (TRI_ERROR_NO_ERROR, b1', d1')
      \<and> remove_workOnOneDocument eng cname options d1' b1' x' = Inr (e', b2', d2')
      \<and> e' \<noteq> TRI_ERROR_NO_ERROR"
  then show "removeLocal eng cname (ArraySlice (pre' @ x' # post')) options st
        = Inr (OperationResult_buffer (ArraySlice b2') [] e' (waitForSync options) [],
               st\<lparr>collection := d2'\<rparr>)"
    using babies_until_error_stops [of "remove_workOnOneDocument eng cname options"
        pre' "[]" "collection st" b1' d1' x' e' b2' d2' post']
    by (simp add: removeLocal_def steal_def)
qed


lemmas example_defs =
  example_engine_def example_modify_def example_mptr_def example_options_def example_doc_def
  example_env_def received_def
  insert_workForOneDocument_def modify_workForOneDocument_def remove_workOnOneDocument_def
  createBabiesError_def buildDocumentIdentity_def OperationResult_buffer_def steal_def
  TRI_VOC_ATTRIBUTE_KEY_def TRI_VOC_ATTRIBUTE_ID_def TRI_VOC_ATTRIBUTE_REV_def TRI_ERROR_defs

text \<open>
  Four members on a collection that holds the key \<^verbatim>\<open>a\<close>: a duplicate, an insert
  that succeeds, a member that is no object, a second duplicate.
\<close>

theorem insertLocal_array_status_witness:
  "insertLocal example_engine (example_env 0 []) ''users''
     (ArraySlice [example_doc ''a'', example_doc ''b'', IntSlice 3, example_doc ''b''])
     example_options \<lparr>collection = [''a''], followers = [], log_REPLICATION = []\<rparr>
   = Inr (\<lparr>code = 0,
           buffer = Some (ArraySlice
             [ObjectSlice [(''error'', BoolSlice True), (''errorNum'', IntSlice 1210)],
              ObjectSlice [(''_id'', StringSlice ''users/b''), (''_key'', StringSlice ''b''),
                           (''_rev'', StringSlice ''1'')],
              ObjectSlice [(''error'', BoolSlice True), (''errorNum'', IntSlice 1227)],
              ObjectSlice [(''error'', BoolSlice True), (''errorNum'', IntSlice 1210)]]),
           errorMessage = [], wasSynchronous = False,
           countErrorCodes = [(1210, 2), (1227, 1)]\<rparr>,
          \<lparr>collection = [''a'', ''b''], followers = [], log_REPLICATION = []\<rparr>)
   \<and> insert_codes example_engine ''users'' example_options
        [example_doc ''a'', example_doc ''b'', IntSlice 3, example_doc ''b''] ([], [''a''])
       = [1210, 0, 1227, 1210]
   \<and> sum_list (map snd [(1210, 2), (1227, 1::nat)]) = 4 - 1"
proof -
  have run: "insertLocal example_engine (example_env 0 []) ''users''
     (ArraySlice [example_doc ''a'', example_doc ''b'', IntSlice 3, example_doc ''b''])
     example_options \<lparr>collection = [''a''], followers = [], log_REPLICATION = []\<rparr>
   = Inr (\<lparr>code = 0,
           buffer = Some (ArraySlice
             [ObjectSlice [(''error'', BoolSlice True), (''errorNum'', IntSlice 1210)],
              ObjectSlice [(''_id'', StringSlice ''users/b''), (''_key'', StringSlice ''b''),
                           (''_rev'', StringSlice ''1'')],
              ObjectSlice [(''error'', BoolSlice True), (''errorNum'', IntSlice 1227)],
              ObjectSlice [(''error'', BoolSlice True), (''errorNum'', IntSlice 1210)]]),
           errorMessage = [], wasSynchronous = False,
           countErrorCodes = [(1210, 2), (1227, 1)]\<rparr>,
          \<lparr>collection = [''a'', ''b''], followers = [], log_REPLICATION = []\<rparr>)"
    by (simp add: insertLocal_def replicate_insert_def example_defs)
  have codes: "insert_codes example_engine ''users'' example_options
        [example_doc ''a'', example_doc ''b'', IntSlice 3, example_doc ''b''] ([], [''a''])
       = [1210, 0, 1227, 1210]"
    by (simp add: example_defs)
  from insertLocal_array_status [OF run] run codes show ?thesis
    by (simp add: TRI_ERROR_defs)
qed


text \<open>
  The insert batch of above; an update batch and a remove batch whose second
  member fails with document-not-found.
\<close>

theorem batch_error_handling_witness:
  "insertLocal example_engine (example_env 0 []) ''users''
     (ArraySlice [example_doc ''a'', example_doc ''b'', IntSlice 3, example_doc ''b''])
     example_options \<lparr>collection = [''a''], followers = [], log_REPLICATION = []\<rparr>
   = Inr (\<lparr>code = 0,
           buffer = Some (ArraySlice
             [ObjectSlice [(''error'', BoolSlice True), (''errorNum'', IntSlice 1210)],
              ObjectSlice [(''_id'', StringSlice ''users/b''), (''_key'', StringSlice ''b''),
                           (''_rev'', StringSlice ''1'')],
              ObjectSlice [(''error'', BoolSlice True), (''errorNum'', IntSlice 1227)],
              ObjectSlice [(''error'', BoolSlice True), (''errorNum'', IntSlice 1210)]]),
           errorMessage = [], wasSynchronous = False,
           countErrorCodes = [(1210, 2), (1227, 1)]\<rparr>,
          \<lparr>collection = [''a'', ''b''], followers = [], log_REPLICATION = []\<rparr>)
   \<and> count_list (insert_codes example_engine ''users'' example_options
        [example_doc ''a'', example_doc ''b'', IntSlice 3, example_doc ''b''] ([], [''a''])) 1210
       = 2
   \<and> modifyLocal example_engine ''users''
       (ArraySlice ([example_doc ''a''] @ example_doc ''zz'' # [example_doc ''a'']))
       example_options TRI_VOC_DOCUMENT_OPERATION_UPDATE
       \<lparr>collection = [''a''], followers = [], log_REPLICATION = []\<rparr>
     = Inr (\<lparr>code = 1202,
             buffer = Some (ArraySlice
               [ObjectSlice [(''_id'', StringSlice ''users/a''), (''_key'', StringSlice ''a''),
                             (''_rev'', StringSlice ''1''), (''_oldRev'', StringSlice ''0'')]]),
             errorMessage = [], wasSynchronous = False, countErrorCodes = []\<rparr>,
            \<lparr>collection = [''a''], followers = [], log_REPLICATION = []\<rparr>)
   \<and> removeLocal example_engine ''users''
       (ArraySlice ([example_doc ''a''] @ example_doc ''a'' # [example_doc ''a'']))
       example_options \<lparr>collection = [''a''], followers = [], log_REPLICATION = []\<rparr>
     = Inr (\<lparr>code = 1202,
             buffer = Some (ArraySlice
               [ObjectSlice [(''_id'', StringSlice ''users/a''), (''_key'', StringSlice ''a''),
                             (''_rev'', StringSlice ''1'')]]),
             errorMessage = [], wasSynchronous = False, countErrorCodes = []\<rparr>,
            \<lparr>collection = [], followers = [], log_REPLICATION = []\<rparr>)"
proof -
  let ?st = "\<lparr>collection = [''a''], followers = [], log_REPLICATION = []\<rparr> :: string list local_state"
  let ?ida = "ObjectSlice [(''_id'', StringSlice ''users/a''), (''_key'', StringSlice ''a''),
                             (''_rev'', StringSlice ''1''), (''_oldRev'', StringSlice ''0'')]"
  let ?idr = "ObjectSlice [(''_id'', StringSlice ''users/a''), (''_key'', StringSlice ''a''),
                             (''_rev'', StringSlice ''1'')]"
  have ins: "insertLocal example_engine (example_env 0 []) ''users''
     (ArraySlice [example_doc ''a'', example_doc ''b'', IntSlice 3, example_doc ''b''])
     example_options ?st
   = Inr (\<lparr>code = 0,
           buffer = Some (ArraySlice
             [ObjectSlice [(''error'', BoolSlice True), (''errorNum'', IntSlice 1210)],
              ObjectSlice [(''_id'', StringSlice ''users/b''), (''_key'', StringSlice ''b''),
                           (''_rev'', StringSlice ''1'')],
              ObjectSlice [(''error'', BoolSlice True), (''errorNum'', IntSlice 1227)],
              ObjectSlice [(''error'', BoolSlice True), (''errorNum'', IntSlice 1210)]]),
           errorMessage = [], wasSynchronous = False,
           countErrorCodes = [(1210, 2), (1227, 1)]\<rparr>,
          \<lparr>collection = [''a'', ''b''], followers = [], log_REPLICATION = []\<rparr>)"
    by (simp add: insertLocal_def replicate_insert_def example_defs)
  have lk: "lock example_engine (collection ?st) = TRI_ERROR_NO_ERROR"
    by (simp add: example_defs)
  have mpre: "babies_until_error
      (modify_workForOneDocument example_engine ''users'' example_options
         TRI_VOC_DOCUMENT_OPERATION_UPDATE) [example_doc ''a''] ([], collection ?st)
      = Inr (TRI_ERROR_NO_ERROR, [?ida], [''a''])"
    by (simp add: example_defs)
  have mx: "modify_workForOneDocument example_engine ''users'' example_options
         TRI_VOC_DOCUMENT_OPERATION_UPDATE [''a''] [?ida] (example_doc ''zz'')
      = Inr (1202, [?ida], [''a''])"
    by (simp add: example_defs)
  have rpre: "babies_until_error
      (remove_workOnOneDocument example_engine ''users'' example_options)
      [example_doc ''a''] ([], collection ?st)
      = Inr (TRI_ERROR_NO_ERROR, [?idr], [])"
    by (simp add: example_defs)
  have rx: "remove_workOnOneDocument example_engine ''users'' example_options [] [?idr]
       (example_doc ''a'') = Inr (1202, [?idr], [])"
    by (simp add: example_defs)
  have ne: "(1202::int) \<noteq> TRI_ERROR_NO_ERROR" "(1210::int) \<noteq> TRI_ERROR_NO_ERROR"
    by (simp_all add: TRI_ERROR_defs)
  note T = batch_error_handling [of example_engine "example_env 0 []"
        "''users''"
        "[example_doc ''a'', example_doc ''b'', IntSlice 3, example_doc ''b'']" example_options ?st
        "\<lparr>code = 0,
           buffer = Some (ArraySlice
             [ObjectSlice [(''error'', BoolSlice True), (''errorNum'', IntSlice 1210)],
              ObjectSlice [(''_id'', StringSlice ''users/b''), (''_key'', StringSlice ''b''),
                           (''_rev'', StringSlice ''1'')],
              ObjectSlice [(''error'', BoolSlice True), (''errorNum'', IntSlice 1227)],
              ObjectSlice [(''error'', BoolSlice True), (''errorNum'', IntSlice 1210)]]),
           errorMessage = [], wasSynchronous = False,
           countErrorCodes = [(1210, 2), (1227, 1)]\<rparr>"
        "\<lparr>collection = [''a'', ''b''], followers = [], log_REPLICATION = []\<rparr>"
        TRI_VOC_DOCUMENT_OPERATION_UPDATE "[example_doc ''a'']" "[?ida]" "[''a'']"
        "example_doc ''zz''" 1202 "[?ida]" "[''a'']" "[example_doc ''a'']"
        "[example_doc ''a'']" "[?idr]" "[]" "example_doc ''a''" 1202 "[?idr]" "[]"
        "[example_doc ''a'']"]
  from T ins ne have "count_of [(1210, 2), (1227, 1)] 1210
      = count_list (insert_codes example_engine ''users'' example_options
        [example_doc ''a'', example_doc ''b'', IntSlice 3, example_doc ''b''] ([], [''a''])) 1210"
    by simp
  then have c1: "count_list (insert_codes example_engine ''users'' example_options
        [example_doc ''a'', example_doc ''b'', IntSlice 3, example_doc ''b''] ([], [''a''])) 1210
       = 2"
    by (simp add: count_of_def)
  from T lk mpre mx ne have c2: "modifyLocal example_engine ''users''
       (ArraySlice ([example_doc ''a''] @ example_doc ''zz'' # [example_doc ''a'']))
       example_options TRI_VOC_DOCUMENT_OPERATION_UPDATE ?st
     = Inr (OperationResult_buffer (ArraySlice [?ida]) [] 1202 (waitForSync example_options) [],
            ?st\<lparr>collection := [''a'']\<rparr>)"
    by blast
  from T rpre rx ne have c3: "removeLocal example_engine ''users''
       (ArraySlice ([example_doc ''a''] @ example_doc ''a'' # [example_doc ''a'']))
       example_options ?st
     = Inr (OperationResult_buffer (ArraySlice [?idr]) [] 1202 (waitForSync example_options) [],
            ?st\<lparr>collection := []\<rparr>)"
    by blast
  from ins c1 c2 c3 show ?thesis
    by (simp add: OperationResult_buffer_def example_options_def)
qed

lemma drop_follower_collection [simp]:
  "collection (drop_follower nm outs st i) = collection st"
  by (simp add: drop_follower_def followerInfo_remove_def)

lemma foldl_drop_follower_collection [simp]:
  "collection (foldl (drop_follower nm outs) st is) = collection st"
  by (induction "is" arbitrary: st) simp_all

lemma foldl_drop_follower_followers:
  "followers (foldl (drop_follower nm outs) st is)
     = filter (\<lambda>f. \<forall>i \<in> set is. \<not> (not_successful (outs i) \<and> f = serverID (snd (outs i))))
         (followers st)"
proof (induction "is" arbitrary: st)
  case Nil
  then show ?case by simp
next
  case (Cons i "is")
  have "followers (drop_follower nm outs st i)
          = filter (\<lambda>f. \<not> (not_successful (outs i) \<and> f = serverID (snd (outs i)))) (followers st)"
    by (simp add: drop_follower_def followerInfo_remove_def)
  with Cons.IH [of "drop_follower nm outs st i"] show ?case
    by (auto intro!: filter_cong)
qed

lemma foldl_drop_follower_log:
  "log_REPLICATION (foldl (drop_follower nm outs) st is)
     = log_REPLICATION st
       @ map (\<lambda>i. nm @ '': dropping follower '' @ serverID (snd (outs i)))
           (filter (\<lambda>i. not_successful (outs i)) is)"
proof (induction "is" arbitrary: st)
  case Nil
  then show ?case by simp
next
  case (Cons i "is")
  show ?case
    by (simp add: Cons.IH) (simp add: drop_follower_def followerInfo_remove_def)
qed

lemma replicate_insert_collection [simp]:
  "collection (replicate_insert env val st) = collection st"
  by (simp add: replicate_insert_def Let_def split: prod.splits)

text \<open>The local write alone: \<^verbatim>\<open>insertLocal\<close> on a server that is no shard leader.\<close>

lemma insertLocal_result_independent:
  assumes "insertLocal eng env cname val options st = Inr (r, st')"
    and "collection st2 = collection st"
  shows "\<exists>st2'. insertLocal eng env2 cname val options st2 = Inr (r, st2')
                \<and> collection st2' = collection st'"
  using assms
  by (auto simp: insertLocal_def split: sum.splits VPackSlice.splits)

text \<open>
  C2, as amended. Let \<^verbatim>\<open>performRequests\<close> answer \<open>nrGood\<close> and leave \<open>requests\<close>.
  The \<^verbatim>\<open>OperationResult\<close> of \<^verbatim>\<open>insertLocal\<close> and the collection afterwards are
  those of the local write, whatever the role of the server, the followers and
  the outcome of the follower requests (\<open>env2\<close>, \<open>st2\<close>). On a shard leader with
  \<open>nrGood\<close> below the number of followers, every follower whose request did not
  complete with \<^verbatim>\<open>ACCEPTED\<close> or \<^verbatim>\<open>CREATED\<close> (the request's result naming that
  follower) is removed from the follower list and logged. When \<open>nrGood\<close> is not
  below the number of followers, or the server is no shard leader, the follower
  list and the log stay as they were.
\<close>

theorem insertLocal_replication:
  assumes "insertLocal eng env cname val options st = Inr (r, st')"
    and "performRequests env (replication_requests env val (followers st)) 60 = (nrGood, requests)"
  shows "(\<forall>env2 st2. collection st2 = collection st \<longrightarrow>
            (\<exists>st2'. insertLocal eng env2 cname val options st2 = Inr (r, st2')
                    \<and> collection st2' = collection st'))
    \<and> (isDBServer env \<and> nrGood < length (followers st) \<longrightarrow>
         (\<forall>i < length (followers st).
            not_successful (requests i) \<and> serverID (snd (requests i)) = followers st ! i \<longrightarrow>
              followers st ! i \<notin> set (followers st')
              \<and> (''insertLocal: dropping follower '' @ followers st ! i)
                  \<in> set (log_REPLICATION st')))
    \<and> (\<not> isDBServer env \<or> nrGood \<ge> length (followers st) \<longrightarrow>
         followers st' = followers st \<and> log_REPLICATION st' = log_REPLICATION st)"
proof (intro conjI allI impI)
  fix env2 and st2 :: "'a local_state"
  assume "collection st2 = collection st"
  with insertLocal_result_independent [OF assms(1) this]
  show "\<exists>st2'. insertLocal eng env2 cname val options st2 = Inr (r, st2')
                \<and> collection st2' = collection st'" by simp
next
  from assms(1) obtain d where
    st': "st' = replicate_insert env val (st\<lparr>collection := d\<rparr>)"
    by (auto simp: insertLocal_def split: sum.splits VPackSlice.splits)
  {
    fix i
    assume db: "isDBServer env \<and> nrGood < length (followers st)"
      and i: "i < length (followers st)"
      and bad: "not_successful (requests i) \<and> serverID (snd (requests i)) = followers st ! i"
    from db i assms(2) have
      eq: "st' = foldl (drop_follower ''insertLocal'' requests) (st\<lparr>collection := d\<rparr>)
                   [0 ..< length (followers st)]"
      by (auto simp: st' replicate_insert_def Let_def)
    from i bad show "followers st ! i \<notin> set (followers st')"
      by (auto simp: eq foldl_drop_follower_followers)
    from i bad show "(''insertLocal: dropping follower '' @ followers st ! i)
                  \<in> set (log_REPLICATION st')"
      by (force simp: eq foldl_drop_follower_log)
  }
  {
    assume "\<not> isDBServer env \<or> nrGood \<ge> length (followers st)"
    with assms(2) show "followers st' = followers st"
      by (auto simp: st' replicate_insert_def Let_def)
  }
  {
    assume "\<not> isDBServer env \<or> nrGood \<ge> length (followers st)"
    with assms(2) show "log_REPLICATION st' = log_REPLICATION st"
      by (auto simp: st' replicate_insert_def Let_def)
  }
qed


text \<open>
  C2 as stated fails: \<^verbatim>\<open>performRequests\<close> reports one good request for the one
  follower \<^verbatim>\<open>F1\<close>, whose request was answered \<^verbatim>\<open>200 OK\<close>, neither \<^verbatim>\<open>ACCEPTED\<close> nor
  \<^verbatim>\<open>CREATED\<close>; the drop loop is guarded by \<^verbatim>\<open>nrGood < followers->size()\<close>, and
  \<^verbatim>\<open>F1\<close> stays a follower.
\<close>

theorem insertLocal_replication_counterexample:
  "insertLocal example_engine (example_env 1 [received OK ''F1'']) ''users'' (example_doc ''a'')
     example_options \<lparr>collection = [], followers = [''F1''], log_REPLICATION = []\<rparr>
   = Inr (\<lparr>code = 0,
           buffer = Some (ObjectSlice [(''_id'', StringSlice ''users/a''),
                                       (''_key'', StringSlice ''a''),
                                       (''_rev'', StringSlice ''1'')]),
           errorMessage = [], wasSynchronous = False, countErrorCodes = []\<rparr>,
          \<lparr>collection = [''a''], followers = [''F1''], log_REPLICATION = []\<rparr>)
   \<and> answer_code (snd (received OK ''F1'')) \<noteq> ACCEPTED
   \<and> answer_code (snd (received OK ''F1'')) \<noteq> CREATED"
  by (simp add: insertLocal_def replicate_insert_def replication_requests_def example_defs)

text \<open>
  Two followers: \<^verbatim>\<open>F1\<close> answers 201 and \<^verbatim>\<open>F2\<close> answers 500 with one good request
  reported, so \<^verbatim>\<open>F2\<close> is dropped and logged; both answer 201 or 202 with two
  good requests reported, and both stay.
\<close>

theorem insertLocal_replication_witness:
  "insertLocal example_engine
     (example_env 1 [received CREATED ''F1'', received SERVER_ERROR ''F2'']) ''users''
     (example_doc ''a'') example_options
     \<lparr>collection = [], followers = [''F1'', ''F2''], log_REPLICATION = []\<rparr>
   = Inr (\<lparr>code = 0,
           buffer = Some (ObjectSlice [(''_id'', StringSlice ''users/a''),
                                       (''_key'', StringSlice ''a''),
                                       (''_rev'', StringSlice ''1'')]),
           errorMessage = [], wasSynchronous = False, countErrorCodes = []\<rparr>,
          \<lparr>collection = [''a''], followers = [''F1''],
           log_REPLICATION = [''insertLocal: dropping follower F2'']\<rparr>)
   \<and> ''F2'' \<notin> set [''F1'']
   \<and> ''insertLocal: dropping follower F2'' \<in> set [''insertLocal: dropping follower F2'']
   \<and> insertLocal example_engine
       (example_env 2 [received CREATED ''F1'', received ACCEPTED ''F2'']) ''users''
       (example_doc ''a'') example_options
       \<lparr>collection = [], followers = [''F1'', ''F2''], log_REPLICATION = []\<rparr>
     = Inr (\<lparr>code = 0,
             buffer = Some (ObjectSlice [(''_id'', StringSlice ''users/a''),
                                         (''_key'', StringSlice ''a''),
                                         (''_rev'', StringSlice ''1'')]),
             errorMessage = [], wasSynchronous = False, countErrorCodes = []\<rparr>,
            \<lparr>collection = [''a''], followers = [''F1'', ''F2''], log_REPLICATION = []\<rparr>)"
proof -
  let ?r = "\<lparr>code = 0,
           buffer = Some (ObjectSlice [(''_id'', StringSlice ''users/a''),
                                       (''_key'', StringSlice ''a''),
                                       (''_rev'', StringSlice ''1'')]),
           errorMessage = [], wasSynchronous = False, countErrorCodes = []\<rparr>"
  let ?st = "\<lparr>collection = [], followers = [''F1'', ''F2''], log_REPLICATION = []\<rparr>
               :: string list local_state"
  let ?env1 = "example_env 1 [received CREATED ''F1'', received SERVER_ERROR ''F2'']"
  let ?env2 = "example_env 2 [received CREATED ''F1'', received ACCEPTED ''F2'']"
  let ?out1 = "\<lambda>i. [received CREATED ''F1'', received SERVER_ERROR ''F2''] ! i"
  let ?out2 = "\<lambda>i. [received CREATED ''F1'', received ACCEPTED ''F2''] ! i"
  have run1: "insertLocal example_engine ?env1 ''users'' (example_doc ''a'') example_options ?st
     = Inr (?r, \<lparr>collection = [''a''], followers = [''F1''],
                 log_REPLICATION = [''insertLocal: dropping follower F2'']\<rparr>)"
    by (simp add: insertLocal_def replicate_insert_def replication_requests_def example_defs
                  drop_follower_def not_successful_def followerInfo_remove_def)
  have pr1: "performRequests ?env1
               (replication_requests ?env1 (example_doc ''a'') (followers ?st)) 60 = (1, ?out1)"
    by (simp add: example_env_def)
  have run2: "insertLocal example_engine ?env2 ''users'' (example_doc ''a'') example_options ?st
     = Inr (?r, \<lparr>collection = [''a''], followers = [''F1'', ''F2''], log_REPLICATION = []\<rparr>)"
    by (simp add: insertLocal_def replicate_insert_def replication_requests_def example_defs)
  have pr2: "performRequests ?env2
               (replication_requests ?env2 (example_doc ''a'') (followers ?st)) 60 = (2, ?out2)"
    by (simp add: example_env_def)
  have hyp1: "isDBServer ?env1 \<and> (1::nat) < length (followers ?st)"
    by (simp add: example_env_def)
  have bad: "(1::nat) < length (followers ?st) \<and> not_successful (?out1 1)
             \<and> serverID (snd (?out1 1)) = followers ?st ! 1"
    by (simp add: not_successful_def received_def)
  from insertLocal_replication [OF run1 pr1] hyp1 bad
  have "followers ?st ! 1 \<notin> set [''F1'']
        \<and> (''insertLocal: dropping follower '' @ followers ?st ! 1)
             \<in> set [''insertLocal: dropping follower F2'']"
    by simp
  moreover from insertLocal_replication [OF run2 pr2]
  have "followers \<lparr>collection = [''a''], followers = [''F1'', ''F2''],
                   log_REPLICATION = ([] :: string list)\<rparr> = followers ?st"
    by simp
  ultimately show ?thesis using run1 run2 by simp
qed

subsection \<open>The AND-clause planner\<close>

lemma index_costs_views:
  "\<exists>c. index_costs dbl lib idx node reference sortCondition items covered =
     (index_supportsFilter dbl lib node reference sortCondition items idx,
      index_supportsSort dbl lib node reference sortCondition items idx,
      index_filterCost dbl lib node reference sortCondition items idx,
      index_sortCost dbl lib node reference sortCondition items idx, c)"
  by (simp add: index_costs_def index_supportsFilter_def index_supportsSort_def
        index_filterCost_def index_sortCost_def indexSupportsSort_def Let_def
      split: prod.splits)

lemma index_filterCost_eq:
  "index_filterCost dbl lib node reference sortCondition items idx =
     (if fst (supportsFilterCondition idx node reference items)
      then snd (snd (supportsFilterCondition idx node reference items))
      else d_times_1_5 dbl items)"
  by (simp add: index_filterCost_def index_costs_def Let_def split: prod.splits)

lemma index_supportsFilter_eq:
  "index_supportsFilter dbl lib node reference sortCondition items idx =
     fst (supportsFilterCondition idx node reference items)"
  by (simp add: index_supportsFilter_def index_costs_def Let_def split: prod.splits)

lemma best_inv_SomeI:
  assumes "bestIndex s = Some (pre ! i)" "i < length pre"
    "index_supportsFilter dbl lib node reference sc items (pre ! i)
       \<or> index_supportsSort dbl lib node reference sc items (pre ! i)"
    "bestCost s = index_totalCost dbl lib node reference sc items (pre ! i)"
    "bestSupportsFilter s = index_supportsFilter dbl lib node reference sc items (pre ! i)"
    "bestSupportsSort s = index_supportsSort dbl lib node reference sc items (pre ! i)"
    "\<And>j. j < length pre \<Longrightarrow>
           index_supportsFilter dbl lib node reference sc items (pre ! j)
            \<or> index_supportsSort dbl lib node reference sc items (pre ! j) \<Longrightarrow>
           \<not> d_less dbl (index_totalCost dbl lib node reference sc items (pre ! j))
                    (index_totalCost dbl lib node reference sc items (pre ! i))"
    "\<And>j. j < i \<Longrightarrow>
           index_supportsFilter dbl lib node reference sc items (pre ! j)
            \<or> index_supportsSort dbl lib node reference sc items (pre ! j) \<Longrightarrow>
           index_totalCost dbl lib node reference sc items (pre ! j)
             \<noteq> index_totalCost dbl lib node reference sc items (pre ! i)
           \<and> (comparable dbl (index_totalCost dbl lib node reference sc items (pre ! j))
                \<longrightarrow> d_less dbl (index_totalCost dbl lib node reference sc items (pre ! i))
                      (index_totalCost dbl lib node reference sc items (pre ! j)))"
  shows "best_inv dbl lib node reference sc items pre s"
  unfolding best_inv_def
  apply (simp only: assms(1) option.case)
  apply (rule exI [of _ i])
  using assms(2-8) apply simp
  done

lemma best_inv_SomeD:
  assumes "best_inv dbl lib node reference sc items pre s" "bestIndex s = Some b"
  obtains i where "i < length pre" "b = pre ! i"
    "index_supportsFilter dbl lib node reference sc items (pre ! i)
       \<or> index_supportsSort dbl lib node reference sc items (pre ! i)"
    "bestCost s = index_totalCost dbl lib node reference sc items (pre ! i)"
    "bestSupportsFilter s = index_supportsFilter dbl lib node reference sc items (pre ! i)"
    "bestSupportsSort s = index_supportsSort dbl lib node reference sc items (pre ! i)"
    "\<And>j. j < length pre \<Longrightarrow>
           index_supportsFilter dbl lib node reference sc items (pre ! j)
            \<or> index_supportsSort dbl lib node reference sc items (pre ! j) \<Longrightarrow>
           \<not> d_less dbl (index_totalCost dbl lib node reference sc items (pre ! j))
                    (index_totalCost dbl lib node reference sc items (pre ! i))"
    "\<And>j. j < i \<Longrightarrow>
           index_supportsFilter dbl lib node reference sc items (pre ! j)
            \<or> index_supportsSort dbl lib node reference sc items (pre ! j) \<Longrightarrow>
           index_totalCost dbl lib node reference sc items (pre ! j)
             \<noteq> index_totalCost dbl lib node reference sc items (pre ! i)
           \<and> (comparable dbl (index_totalCost dbl lib node reference sc items (pre ! j))
                \<longrightarrow> d_less dbl (index_totalCost dbl lib node reference sc items (pre ! i))
                      (index_totalCost dbl lib node reference sc items (pre ! j)))"
proof -
  from assms have "\<exists>i < length pre. b = pre ! i
            \<and> (index_supportsFilter dbl lib node reference sc items b
                \<or> index_supportsSort dbl lib node reference sc items b)
            \<and> bestCost s = index_totalCost dbl lib node reference sc items b
            \<and> bestSupportsFilter s = index_supportsFilter dbl lib node reference sc items b
            \<and> bestSupportsSort s = index_supportsSort dbl lib node reference sc items b
            \<and> (\<forall>j < length pre.
                  index_supportsFilter dbl lib node reference sc items (pre ! j)
                  \<or> index_supportsSort dbl lib node reference sc items (pre ! j)
                  \<longrightarrow> \<not> d_less dbl (index_totalCost dbl lib node reference sc items (pre ! j))
                              (index_totalCost dbl lib node reference sc items b))
            \<and> (\<forall>j < i.
                  index_supportsFilter dbl lib node reference sc items (pre ! j)
                  \<or> index_supportsSort dbl lib node reference sc items (pre ! j)
                  \<longrightarrow> index_totalCost dbl lib node reference sc items (pre ! j)
                        \<noteq> index_totalCost dbl lib node reference sc items b
                      \<and> (comparable dbl (index_totalCost dbl lib node reference sc items (pre ! j))
                           \<longrightarrow> d_less dbl (index_totalCost dbl lib node reference sc items b)
                                 (index_totalCost dbl lib node reference sc items (pre ! j))))"
    by (simp add: best_inv_def)
  then obtain i where "i < length pre" "b = pre ! i"
    and r: "(index_supportsFilter dbl lib node reference sc items b
                \<or> index_supportsSort dbl lib node reference sc items b)
            \<and> bestCost s = index_totalCost dbl lib node reference sc items b
            \<and> bestSupportsFilter s = index_supportsFilter dbl lib node reference sc items b
            \<and> bestSupportsSort s = index_supportsSort dbl lib node reference sc items b
            \<and> (\<forall>j < length pre.
                  index_supportsFilter dbl lib node reference sc items (pre ! j)
                  \<or> index_supportsSort dbl lib node reference sc items (pre ! j)
                  \<longrightarrow> \<not> d_less dbl (index_totalCost dbl lib node reference sc items (pre ! j))
                              (index_totalCost dbl lib node reference sc items b))
            \<and> (\<forall>j < i.
                  index_supportsFilter dbl lib node reference sc items (pre ! j)
                  \<or> index_supportsSort dbl lib node reference sc items (pre ! j)
                  \<longrightarrow> index_totalCost dbl lib node reference sc items (pre ! j)
                        \<noteq> index_totalCost dbl lib node reference sc items b
                      \<and> (comparable dbl (index_totalCost dbl lib node reference sc items (pre ! j))
                           \<longrightarrow> d_less dbl (index_totalCost dbl lib node reference sc items b)
                                 (index_totalCost dbl lib node reference sc items (pre ! j))))"
    by blast
  with that [of i] show thesis by blast
qed

lemma best_step_inv:
  assumes ord: "double_order dbl" and inv: "best_inv dbl lib node reference sc items pre s"
  shows "best_inv dbl lib node reference sc items (pre @ [idx])
           (best_step dbl lib node reference sc items s idx)"
proof -
  let ?q = "\<lambda>x. index_supportsFilter dbl lib node reference sc items x
                \<or> index_supportsSort dbl lib node reference sc items x"
  let ?t = "index_totalCost dbl lib node reference sc items"
  from ord have irr: "\<And>a. \<not> d_less dbl a a"
    and tr: "\<And>a b c. d_less dbl a b \<Longrightarrow> d_less dbl b c \<Longrightarrow> d_less dbl a c"
    unfolding double_order_def by blast+
  obtain c where ic: "index_costs dbl lib idx node reference sc items (covered_state s) =
     (index_supportsFilter dbl lib node reference sc items idx,
      index_supportsSort dbl lib node reference sc items idx,
      index_filterCost dbl lib node reference sc items idx,
      index_sortCost dbl lib node reference sc items idx, c)"
    using index_costs_views by blast
  have keep_case: "best_inv dbl lib node reference sc items (pre @ [idx]) (s\<lparr>covered_state := c\<rparr>)"
    if some: "bestIndex s = Some b" and ge: "?q idx \<Longrightarrow> \<not> d_less dbl (?t idx) (bestCost s)" for b
  proof -
    from inv some obtain i where i: "i < length pre" "b = pre ! i" "?q (pre ! i)"
        "bestCost s = ?t (pre ! i)"
        "bestSupportsFilter s = index_supportsFilter dbl lib node reference sc items (pre ! i)"
        "bestSupportsSort s = index_supportsSort dbl lib node reference sc items (pre ! i)"
        and mn: "\<And>j. j < length pre \<Longrightarrow> ?q (pre ! j) \<Longrightarrow> \<not> d_less dbl (?t (pre ! j)) (?t (pre ! i))"
        and st: "\<And>j. j < i \<Longrightarrow> ?q (pre ! j) \<Longrightarrow>
                  ?t (pre ! j) \<noteq> ?t (pre ! i)
                  \<and> (comparable dbl (?t (pre ! j)) \<longrightarrow> d_less dbl (?t (pre ! i)) (?t (pre ! j)))"
      by (rule best_inv_SomeD) blast
    have nth: "(pre @ [idx]) ! i = pre ! i" using i(1) by (simp add: nth_append)
    show ?thesis
    proof (rule best_inv_SomeI [where i = i], unfold nth)
      show "bestIndex (s\<lparr>covered_state := c\<rparr>) = Some (pre ! i)" using some i(2) by simp
      show "i < length (pre @ [idx])" using i(1) by simp
      show "?q (pre ! i)" by (rule i(3))
      show "bestCost (s\<lparr>covered_state := c\<rparr>) = ?t (pre ! i)" using i(4) by simp
      show "bestSupportsFilter (s\<lparr>covered_state := c\<rparr>)
              = index_supportsFilter dbl lib node reference sc items (pre ! i)" using i(5) by simp
      show "bestSupportsSort (s\<lparr>covered_state := c\<rparr>)
              = index_supportsSort dbl lib node reference sc items (pre ! i)" using i(6) by simp
    next
      fix j assume j: "j < length (pre @ [idx])" and q: "?q ((pre @ [idx]) ! j)"
      show "\<not> d_less dbl (?t ((pre @ [idx]) ! j)) (?t (pre ! i))"
      proof (cases "j < length pre")
        case True
        with q mn [of j] show ?thesis by (simp add: nth_append)
      next
        case False
        with j have "j = length pre" by simp
        with q ge i(4) show ?thesis by simp
      qed
    next
      fix j assume j: "j < i" and q: "?q ((pre @ [idx]) ! j)"
      with i(1) st [of j]
      show "?t ((pre @ [idx]) ! j) \<noteq> ?t (pre ! i)
            \<and> (comparable dbl (?t ((pre @ [idx]) ! j))
                 \<longrightarrow> d_less dbl (?t (pre ! i)) (?t ((pre @ [idx]) ! j)))"
        by (simp add: nth_append)
    qed
  qed
  show ?thesis
  proof (cases "?q idx")
    case False
    then have st: "best_step dbl lib node reference sc items s idx = s\<lparr>covered_state := c\<rparr>"
      by (simp add: best_step_def ic)
    show ?thesis
    proof (cases "bestIndex s")
      case None
      with inv False show ?thesis by (simp add: best_inv_def st)
    next
      case (Some b)
      from keep_case [OF Some] False show ?thesis by (simp add: st)
    qed
  next
    case True
    show ?thesis
    proof (cases "bestIndex s = None \<or> d_less dbl (?t idx) (bestCost s)")
      case upd: True
      have st: "best_step dbl lib node reference sc items s idx =
          \<lparr>bestIndex = Some idx, bestCost = ?t idx,
           bestSupportsFilter = index_supportsFilter dbl lib node reference sc items idx,
           bestSupportsSort = index_supportsSort dbl lib node reference sc items idx,
           covered_state = c\<rparr>"
        using True upd by (auto simp: best_step_def ic index_totalCost_def Let_def)
      have lt: "\<not> d_less dbl (?t (pre ! j)) (?t idx) \<and> ?t (pre ! j) \<noteq> ?t idx
                \<and> (comparable dbl (?t (pre ! j)) \<longrightarrow> d_less dbl (?t idx) (?t (pre ! j)))"
        if "j < length pre" "?q (pre ! j)" for j
      proof (cases "bestIndex s")
        case None
        with inv that show ?thesis by (auto simp: best_inv_def)
      next
        case (Some b)
        with upd have l: "d_less dbl (?t idx) (bestCost s)" by simp
        from inv Some obtain i where bc: "bestCost s = ?t (pre ! i)"
          and mn: "\<And>j. j < length pre \<Longrightarrow> ?q (pre ! j)
                     \<Longrightarrow> \<not> d_less dbl (?t (pre ! j)) (?t (pre ! i))"
          by (rule best_inv_SomeD) blast
        from mn [OF that] have n: "\<not> d_less dbl (?t (pre ! j)) (bestCost s)" by (simp add: bc)
        have 1: "\<not> d_less dbl (?t (pre ! j)) (?t idx)" using tr l n by blast
        have 2: "?t (pre ! j) \<noteq> ?t idx" using l n by auto
        have 3: "comparable dbl (?t (pre ! j)) \<longrightarrow> d_less dbl (?t idx) (?t (pre ! j))"
          using l n unfolding comparable_def by blast
        from 1 2 3 show ?thesis by blast
      qed
      have nth: "(pre @ [idx]) ! length pre = idx" by simp
      show ?thesis unfolding st
      proof (rule best_inv_SomeI [where i = "length pre"], unfold nth)
        fix j assume j: "j < length (pre @ [idx])" and q: "?q ((pre @ [idx]) ! j)"
        show "\<not> d_less dbl (?t ((pre @ [idx]) ! j)) (?t idx)"
        proof (cases "j < length pre")
          case True
          with q lt [of j] show ?thesis by (simp add: nth_append)
        next
          case False
          with j have "j = length pre" by simp
          then show ?thesis by (simp add: irr)
        qed
      next
        fix j assume j: "j < length pre" and q: "?q ((pre @ [idx]) ! j)"
        with lt [of j]
        show "?t ((pre @ [idx]) ! j) \<noteq> ?t idx
              \<and> (comparable dbl (?t ((pre @ [idx]) ! j))
                   \<longrightarrow> d_less dbl (?t idx) (?t ((pre @ [idx]) ! j)))"
          by (simp add: nth_append)
      qed (use True in simp_all)
    next
      case keep: False
      then obtain b where Some: "bestIndex s = Some b"
        and ge: "\<not> d_less dbl (?t idx) (bestCost s)"
        by auto
      have st: "best_step dbl lib node reference sc items s idx = s\<lparr>covered_state := c\<rparr>"
        using True keep by (auto simp: best_step_def ic index_totalCost_def Let_def)
      from keep_case [OF Some] ge show ?thesis by (simp add: st)
    qed
  qed
qed

lemma best_search_inv:
  assumes "double_order dbl"
  shows "best_inv dbl lib node reference sc items indexes
           (best_search dbl lib indexes node reference sc items)"
proof -
  have "best_inv dbl lib node reference sc items pre s \<Longrightarrow>
        best_inv dbl lib node reference sc items (pre @ rest)
          (foldl (best_step dbl lib node reference sc items) s rest)" for pre s rest
  proof (induction rest arbitrary: pre s)
    case Nil
    then show ?case by simp
  next
    case (Cons idx rest)
    from Cons.IH [OF best_step_inv [OF assms Cons.prems, of idx]] show ?case by simp
  qed
  from this [of "[]" _ indexes] show ?thesis
    by (simp add: best_search_def best_inv_def)
qed

text \<open>
  C4. \<^verbatim>\<open>findIndexHandleForAndNode\<close> gives each index the cost
  \<open>index_totalCost\<close>, the sum (of doubles) of its \<^verbatim>\<open>filterCost\<close> and its
  \<^verbatim>\<open>sortCost\<close>, the \<^verbatim>\<open>filterCost\<close> being the index's own estimate when the index
  supports the filter and \<^verbatim>\<open>itemsIn * 1.5\<close> otherwise. When no index supports
  filter or sort it returns \<open>(False, False)\<close> and leaves \<^verbatim>\<open>usedIndexes\<close> (and the
  other output parameters) as they were. Otherwise it chooses one of the indexes
  that support filter or sort: it returns what that index supports, appends it
  to \<^verbatim>\<open>usedIndexes\<close>, and sets the specialised condition and \<^verbatim>\<open>isSparse\<close> from it.
  The index chosen is of minimal total cost (no supporting index has a total
  cost less than its own), and it is the first such: no supporting index before
  it has the same total cost, and every one before it whose total cost is
  comparable has a greater one. \<^verbatim>\<open><\<close> on doubles is taken to be irreflexive and
  transitive.
\<close>

theorem findIndexHandleForAndNode_minimal_cost:
  assumes "double_order dbl"
  shows "index_totalCost dbl lib node reference sc items idx
     = d_add dbl
         (if fst (supportsFilterCondition idx node reference items)
          then snd (snd (supportsFilterCondition idx node reference items))
          else d_times_1_5 dbl items)
         (index_sortCost dbl lib node reference sc items idx)
   \<and> ((\<forall>j < length indexes.
          \<not> index_supportsFilter dbl lib node reference sc items (indexes ! j)
          \<and> \<not> index_supportsSort dbl lib node reference sc items (indexes ! j)) \<longrightarrow>
        findIndexHandleForAndNode dbl lib indexes node reference sc items usedIndexes
            specializedCondition isSparse
          = ((False, False), usedIndexes, specializedCondition, isSparse))
   \<and> ((\<exists>j < length indexes.
          index_supportsFilter dbl lib node reference sc items (indexes ! j)
          \<or> index_supportsSort dbl lib node reference sc items (indexes ! j)) \<longrightarrow>
        (\<exists>i < length indexes.
           (index_supportsFilter dbl lib node reference sc items (indexes ! i)
            \<or> index_supportsSort dbl lib node reference sc items (indexes ! i))
         \<and> findIndexHandleForAndNode dbl lib indexes node reference sc items usedIndexes
              specializedCondition isSparse
            = ((index_supportsFilter dbl lib node reference sc items (indexes ! i),
                index_supportsSort dbl lib node reference sc items (indexes ! i)),
               usedIndexes @ [indexes ! i],
               specializeCondition (indexes ! i) node reference,
               sparse (indexes ! i))
         \<and> (\<forall>j < length indexes.
               index_supportsFilter dbl lib node reference sc items (indexes ! j)
               \<or> index_supportsSort dbl lib node reference sc items (indexes ! j)
               \<longrightarrow> \<not> d_less dbl (index_totalCost dbl lib node reference sc items (indexes ! j))
                           (index_totalCost dbl lib node reference sc items (indexes ! i)))
         \<and> (\<forall>j < i.
               index_supportsFilter dbl lib node reference sc items (indexes ! j)
               \<or> index_supportsSort dbl lib node reference sc items (indexes ! j)
               \<longrightarrow> index_totalCost dbl lib node reference sc items (indexes ! j)
                     \<noteq> index_totalCost dbl lib node reference sc items (indexes ! i)
                   \<and> (comparable dbl
                          (index_totalCost dbl lib node reference sc items (indexes ! j))
                        \<longrightarrow> d_less dbl
                              (index_totalCost dbl lib node reference sc items (indexes ! i))
                              (index_totalCost dbl lib node reference sc items (indexes ! j))))))"
proof (intro conjI impI)
  show "index_totalCost dbl lib node reference sc items idx
     = d_add dbl
         (if fst (supportsFilterCondition idx node reference items)
          then snd (snd (supportsFilterCondition idx node reference items))
          else d_times_1_5 dbl items)
         (index_sortCost dbl lib node reference sc items idx)"
    by (simp only: index_totalCost_def index_filterCost_eq)
next
  let ?s = "best_search dbl lib indexes node reference sc items"
  let ?q = "\<lambda>x. index_supportsFilter dbl lib node reference sc items x
                \<or> index_supportsSort dbl lib node reference sc items x"
  let ?t = "index_totalCost dbl lib node reference sc items"
  have inv: "best_inv dbl lib node reference sc items indexes ?s"
    by (rule best_search_inv [OF assms])
  {
    assume none: "\<forall>j < length indexes.
          \<not> index_supportsFilter dbl lib node reference sc items (indexes ! j)
          \<and> \<not> index_supportsSort dbl lib node reference sc items (indexes ! j)"
    have "bestIndex ?s = None"
    proof (rule ccontr)
      assume "bestIndex ?s \<noteq> None"
      then obtain b where "bestIndex ?s = Some b" by auto
      with inv obtain k where "k < length indexes" "?q (indexes ! k)"
        by (rule best_inv_SomeD)
      with none show False by blast
    qed
    then show "findIndexHandleForAndNode dbl lib indexes node reference sc items usedIndexes
            specializedCondition isSparse
          = ((False, False), usedIndexes, specializedCondition, isSparse)"
      by (simp add: findIndexHandleForAndNode_def)
  }
  {
    assume "\<exists>j < length indexes.
          index_supportsFilter dbl lib node reference sc items (indexes ! j)
          \<or> index_supportsSort dbl lib node reference sc items (indexes ! j)"
    then obtain j where j: "j < length indexes" "?q (indexes ! j)" by blast
    have "bestIndex ?s \<noteq> None"
    proof
      assume "bestIndex ?s = None"
      with inv have "\<forall>x \<in> set indexes. \<not> ?q x" by (simp add: best_inv_def)
      with j show False by (metis nth_mem)
    qed
    then obtain b where some: "bestIndex ?s = Some b" by auto
    from inv some obtain k where k: "k < length indexes" "b = indexes ! k" "?q (indexes ! k)"
      "bestSupportsFilter ?s = index_supportsFilter dbl lib node reference sc items (indexes ! k)"
      "bestSupportsSort ?s = index_supportsSort dbl lib node reference sc items (indexes ! k)"
      and kmn: "\<And>j. j < length indexes \<Longrightarrow> ?q (indexes ! j)
                  \<Longrightarrow> \<not> d_less dbl (?t (indexes ! j)) (?t (indexes ! k))"
      and kst: "\<And>j. j < k \<Longrightarrow> ?q (indexes ! j) \<Longrightarrow>
                  ?t (indexes ! j) \<noteq> ?t (indexes ! k)
                  \<and> (comparable dbl (?t (indexes ! j))
                       \<longrightarrow> d_less dbl (?t (indexes ! k)) (?t (indexes ! j)))"
      by (rule best_inv_SomeD) blast
    have res: "findIndexHandleForAndNode dbl lib indexes node reference sc items usedIndexes
              specializedCondition isSparse
            = ((index_supportsFilter dbl lib node reference sc items (indexes ! k),
                index_supportsSort dbl lib node reference sc items (indexes ! k)),
               usedIndexes @ [indexes ! k],
               specializeCondition (indexes ! k) node reference,
               sparse (indexes ! k))"
      using some k by (simp add: findIndexHandleForAndNode_def)
    show "\<exists>i < length indexes.
           (index_supportsFilter dbl lib node reference sc items (indexes ! i)
            \<or> index_supportsSort dbl lib node reference sc items (indexes ! i))
         \<and> findIndexHandleForAndNode dbl lib indexes node reference sc items usedIndexes
              specializedCondition isSparse
            = ((index_supportsFilter dbl lib node reference sc items (indexes ! i),
                index_supportsSort dbl lib node reference sc items (indexes ! i)),
               usedIndexes @ [indexes ! i],
               specializeCondition (indexes ! i) node reference,
               sparse (indexes ! i))
         \<and> (\<forall>j < length indexes.
               index_supportsFilter dbl lib node reference sc items (indexes ! j)
               \<or> index_supportsSort dbl lib node reference sc items (indexes ! j)
               \<longrightarrow> \<not> d_less dbl (index_totalCost dbl lib node reference sc items (indexes ! j))
                           (index_totalCost dbl lib node reference sc items (indexes ! i)))
         \<and> (\<forall>j < i.
               index_supportsFilter dbl lib node reference sc items (indexes ! j)
               \<or> index_supportsSort dbl lib node reference sc items (indexes ! j)
               \<longrightarrow> index_totalCost dbl lib node reference sc items (indexes ! j)
                     \<noteq> index_totalCost dbl lib node reference sc items (indexes ! i)
                   \<and> (comparable dbl
                          (index_totalCost dbl lib node reference sc items (indexes ! j))
                        \<longrightarrow> d_less dbl
                              (index_totalCost dbl lib node reference sc items (indexes ! i))
                              (index_totalCost dbl lib node reference sc items (indexes ! j))))"
      using k(1,3) res kmn kst by (intro exI [of _ k]) blast
  }
qed


lemmas example_index_defs =
  example_indexes_def no_support_index_def filter_index_def sorted_index_def
  example_sortCondition_def example_clause_def and_clause_def compare_node_def doc_attr_def
  int_node_def example_var_def example_lib_def exact_arith_def
  index_costs_def indexSupportsSort_def index_supportsFilter_def index_supportsSort_def
  index_filterCost_def index_sortCost_def index_totalCost_def

lemma exact_arith_order: "double_order exact_arith"
  by (auto simp: double_order_def exact_arith_def)

text \<open>
  Three indexes for \<^verbatim>\<open>doc.x == 5 && doc.y > 3\<close>: the first supports nothing, the
  second the filter at total cost 12, the third filter and sort at total cost 6,
  and is chosen. With the first index alone, none is chosen.
\<close>

theorem findIndexHandleForAndNode_minimal_cost_witness:
  "findIndexHandleForAndNode exact_arith example_lib example_indexes example_clause example_var
     example_sortCondition 1000 [] Nullptr False
     = ((True, True), [sorted_index False [example_clause] 5 6], example_clause, False)
   \<and> index_totalCost exact_arith example_lib example_clause example_var example_sortCondition
        1000 (sorted_index False [example_clause] 5 6) = 6
   \<and> index_totalCost exact_arith example_lib example_clause example_var example_sortCondition
        1000 (filter_index False [example_clause] 2 10) = 12
   \<and> findIndexHandleForAndNode exact_arith example_lib [no_support_index] example_clause
        example_var example_sortCondition 1000 [] Nullptr False
      = ((False, False), [], Nullptr, False)"
proof -
  let ?sf = "index_supportsFilter exact_arith example_lib example_clause example_var
               example_sortCondition 1000"
  let ?ss = "index_supportsSort exact_arith example_lib example_clause example_var
               example_sortCondition 1000"
  let ?t = "index_totalCost exact_arith example_lib example_clause example_var
              example_sortCondition 1000"
  let ?find = "findIndexHandleForAndNode exact_arith example_lib example_indexes example_clause
                 example_var example_sortCondition 1000 [] Nullptr False"
  have q0: "\<not> ?sf no_support_index \<and> \<not> ?ss no_support_index"
    by (simp add: example_index_defs)
  have q1: "?sf (filter_index False [example_clause] 2 10)"
    "\<not> ?ss (filter_index False [example_clause] 2 10)"
    "?t (filter_index False [example_clause] 2 10) = 12"
    by (simp_all add: example_index_defs)
  have q2: "?sf (sorted_index False [example_clause] 5 6)"
    "?ss (sorted_index False [example_clause] 5 6)"
    "?t (sorted_index False [example_clause] 5 6) = 6"
    by (simp_all add: example_index_defs)
  have nth: "example_indexes ! 0 = no_support_index"
    "example_indexes ! 1 = filter_index False [example_clause] 2 10"
    "example_indexes ! Suc 0 = filter_index False [example_clause] 2 10"
    "example_indexes ! 2 = sorted_index False [example_clause] 5 6"
    "length example_indexes = 3"
    by (simp_all add: example_indexes_def)
  have less: "d_less exact_arith a b = (a < b)" for a b by (simp add: exact_arith_def)
  note planner = findIndexHandleForAndNode_minimal_cost [OF exact_arith_order,
      of example_lib example_clause example_var example_sortCondition 1000 no_support_index]
  have some: "\<exists>j < length example_indexes. ?sf (example_indexes ! j) \<or> ?ss (example_indexes ! j)"
    using q2 nth by (intro exI [of _ 2]) simp
  from planner [of example_indexes "[]" Nullptr False] some
  obtain i where i: "i < length example_indexes"
    "?sf (example_indexes ! i) \<or> ?ss (example_indexes ! i)"
    and r: "?find = ((?sf (example_indexes ! i), ?ss (example_indexes ! i)),
                     [] @ [example_indexes ! i],
                     specializeCondition (example_indexes ! i) example_clause example_var,
                     sparse (example_indexes ! i))"
    and mn: "\<And>j. j < length example_indexes
               \<Longrightarrow> ?sf (example_indexes ! j) \<or> ?ss (example_indexes ! j)
               \<Longrightarrow> \<not> d_less exact_arith (?t (example_indexes ! j)) (?t (example_indexes ! i))"
    by blast
  from i(1) nth(5) consider "i = 0" | "i = 1" | "i = 2" by linarith
  then have "i = 2"
  proof cases
    case 1
    with i(2) q0 nth show ?thesis by simp
  next
    case 2
    with mn [of 2] q1 q2 nth show ?thesis by (simp add: less)
  next
    case 3
    then show ?thesis .
  qed
  with r q2 nth have r1: "?find
     = ((True, True), [sorted_index False [example_clause] 5 6], example_clause, False)"
    by (simp add: sorted_index_def)
  have h0: "\<forall>j < length [no_support_index].
          \<not> ?sf ([no_support_index] ! j) \<and> \<not> ?ss ([no_support_index] ! j)"
    using q0 by simp
  from planner [of "[no_support_index]" "[]" Nullptr False] h0
  have r2: "findIndexHandleForAndNode exact_arith example_lib [no_support_index] example_clause
        example_var example_sortCondition 1000 [] Nullptr False
      = ((False, False), [], Nullptr, False)"
    by blast
  from r1 r2 q1 q2 show ?thesis by simp
qed

subsection \<open>The OR-tree planner\<close>

lemma findIndexHandleForAndNode_views:
  "findIndexHandleForAndNode dbl lib indexes node reference sc items usedIndexes spec sp =
     (and_result dbl lib indexes reference sc items node,
      usedIndexes @ (case chosen_index dbl lib indexes reference sc items node of
                       None \<Rightarrow> [] | Some b \<Rightarrow> [b]),
      (case chosen_index dbl lib indexes reference sc items node of
         None \<Rightarrow> spec | Some b \<Rightarrow> specializeCondition b node reference),
      (case chosen_index dbl lib indexes reference sc items node of
         None \<Rightarrow> sp | Some b \<Rightarrow> sparse b))"
  by (simp add: findIndexHandleForAndNode_def and_result_def chosen_index_def Let_def
           split: option.splits)

lemma specialized_eq:
  "specialized dbl lib indexes reference sc items node =
     (case chosen_index dbl lib indexes reference sc items node of
        None \<Rightarrow> Nullptr | Some b \<Rightarrow> specializeCondition b node reference)"
  by (simp add: specialized_def findIndexHandleForAndNode_views)

lemma and_result_sort_only:
  assumes "and_result dbl lib indexes reference sc items node = (False, True)"
  obtains w where "chosen_index dbl lib indexes reference sc items node = Some w"
  using assms
  by (cases "chosen_index dbl lib indexes reference sc items node")
     (auto simp: and_result_def findIndexHandleForAndNode_def chosen_index_def Let_def)

lemma best_handles_loop_escape:
  assumes "\<forall>n \<in> set pre. and_result dbl lib indexes reference sc items n \<noteq> (False, True)"
    and "and_result dbl lib indexes reference sc items node = (False, True)"
    and "chosen_index dbl lib indexes reference sc items node = Some w"
  shows "best_handles_loop dbl lib indexes reference sc items done' (pre @ node # rest)
           (cf, cs, used, sp)
         = Inl ((False, \<not> sparse w), (if sparse w then [] else [w]),
                done' @ map (specialized dbl lib indexes reference sc items) pre @ node # rest)"
  using assms(1)
proof (induction pre arbitrary: done' cf cs used sp)
  case Nil
  show ?case
    using assms(2,3) by (simp add: findIndexHandleForAndNode_views)
next
  case (Cons p pre)
  from Cons.prems have p: "and_result dbl lib indexes reference sc items p \<noteq> (False, True)"
    and rest: "\<forall>n \<in> set pre. and_result dbl lib indexes reference sc items n \<noteq> (False, True)"
    by simp_all
  from p have np: "(snd (and_result dbl lib indexes reference sc items p)
                      \<and> \<not> fst (and_result dbl lib indexes reference sc items p)) = False"
    by (cases "and_result dbl lib indexes reference sc items p") auto
  have sp: "(case chosen_index dbl lib indexes reference sc items p of
               None \<Rightarrow> Nullptr | Some b \<Rightarrow> specializeCondition b p reference)
            = specialized dbl lib indexes reference sc items p"
    by (simp add: specialized_eq)
  show ?case
    using Cons.IH [OF rest] by (simp add: findIndexHandleForAndNode_views sp np)
qed

text \<open>
  C3, as amended. When the clause at position \<open>i\<close> is the first for which the AND
  planner returns \<open>(False, True)\<close>, \<^verbatim>\<open>getBestIndexHandlesForFilterCondition\<close>
  returns at that clause: \<^verbatim>\<open>usedIndexes\<close> then holds nothing but that clause's sort
  index \<open>w\<close>, whatever was chosen before, or nothing at all when \<open>w\<close> is sparse;
  the pair returned is \<open>(False, \<not> sparse w)\<close>; the clauses before \<open>i\<close> have been
  specialised and \<^verbatim>\<open>isSorted\<close> is left as it was. On this path the output is never
  a sparse index.
\<close>

theorem sort_only_escape:
  assumes "i < length members"
    and "and_result dbl lib indexes reference sc items (members ! i) = (False, True)"
    and "\<forall>j < i. and_result dbl lib indexes reference sc items (members ! j) \<noteq> (False, True)"
  shows "\<exists>w. chosen_index dbl lib indexes reference sc items (members ! i) = Some w
     \<and> getBestIndexHandlesForFilterCondition dbl lib std_sort indexes (AstNode t d members)
          reference sc items usedIndexes isSorted'
        = Inr ((False, \<not> sparse w), (if sparse w then [] else [w]),
               AstNode t d (map (specialized dbl lib indexes reference sc items) (take i members)
                            @ drop i members),
               isSorted')"
proof -
  from assms(2) obtain w where
    w: "chosen_index dbl lib indexes reference sc items (members ! i) = Some w"
    by (rule and_result_sort_only)
  have split: "members = take i members @ (members ! i) # drop (Suc i) members"
    using assms(1) by (simp add: id_take_nth_drop)
  have pre: "\<forall>n \<in> set (take i members).
               and_result dbl lib indexes reference sc items n \<noteq> (False, True)"
    using assms(1,3) by (auto simp: in_set_conv_nth)
  have "best_handles_loop dbl lib indexes reference sc items []
          (take i members @ (members ! i) # drop (Suc i) members)
          (length members > 0, False, usedIndexes, False)
        = Inl ((False, \<not> sparse w), (if sparse w then [] else [w]),
               [] @ map (specialized dbl lib indexes reference sc items) (take i members)
                  @ (members ! i) # drop (Suc i) members)"
    by (rule best_handles_loop_escape [OF pre assms(2) w])
  then have "best_handles_loop dbl lib indexes reference sc items [] members
          (length members > 0, False, usedIndexes, False)
        = Inl ((False, \<not> sparse w), (if sparse w then [] else [w]),
               map (specialized dbl lib indexes reference sc items) (take i members)
                  @ drop i members)"
    using split assms(1) by (simp add: Cons_nth_drop_Suc)
  with w show ?thesis
    by (simp add: getBestIndexHandlesForFilterCondition_def)
qed

text \<open>
  C3 as stated fails. One sparse index that supports the filter of the first
  clause and nothing of the second: the AND planner returns \<open>(True, False)\<close> and
  \<open>(False, False)\<close>, never \<open>(False, True)\<close>, so the function returns
  \<open>canUseForFilter = False\<close> at its end, with the sparse index as the only member
  of \<^verbatim>\<open>usedIndexes\<close>.
\<close>

theorem sparse_sole_output_counterexample:
  "getBestIndexHandlesForFilterCondition exact_arith example_lib insertion_sort
     [filter_index True [example_clause] 2 10] (or_root [example_clause, other_clause])
     example_var example_sortCondition 1000 [] False
   = Inr ((False, False), [filter_index True [example_clause] 2 10],
          or_root [example_clause, Nullptr], False)
   \<and> sparse (filter_index True [example_clause] 2 10)"
  by (simp add: getBestIndexHandlesForFilterCondition_def or_root_def
        findIndexHandleForAndNode_def best_search_def best_step_def other_clause_def
        example_index_defs)

text \<open>
  A sorted index that supports the sort only: it is the output. The same index
  made sparse, behind an index chosen for the first clause: the output is empty.
\<close>

theorem sort_only_escape_witness:
  "getBestIndexHandlesForFilterCondition exact_arith example_lib insertion_sort
     [sorted_index False [] 5 6] (or_root [example_clause, other_clause])
     example_var example_sortCondition 1000 [] False
   = Inr ((False, True), [sorted_index False [] 5 6],
          or_root [example_clause, other_clause], False)
   \<and> getBestIndexHandlesForFilterCondition exact_arith example_lib insertion_sort
       [filter_index False [example_clause] 2 10, sorted_index True [] 5 6]
       (or_root [example_clause, other_clause])
       example_var example_sortCondition 1000 [] False
     = Inr ((False, False), [], or_root [example_clause, other_clause], False)"
proof -
  let ?ar = "and_result exact_arith example_lib [sorted_index False [] 5 6] example_var
               example_sortCondition 1000"
  have a0: "0 < length [example_clause, other_clause]" by simp
  have a1: "?ar ([example_clause, other_clause] ! 0) = (False, True)"
    by (simp add: and_result_def findIndexHandleForAndNode_def best_search_def best_step_def
          example_index_defs)
  have a2: "\<forall>j < 0. ?ar ([example_clause, other_clause] ! j) \<noteq> (False, True)" by simp
  have c1: "chosen_index exact_arith example_lib [sorted_index False [] 5 6] example_var
              example_sortCondition 1000 example_clause = Some (sorted_index False [] 5 6)"
    by (simp add: chosen_index_def best_search_def best_step_def example_index_defs)
  from sort_only_escape [OF a0 a1 a2, of insertion_sort NODE_TYPE_OPERATOR_NARY_OR NoData "[]" False]
    c1
  have r1: "getBestIndexHandlesForFilterCondition exact_arith example_lib insertion_sort
     [sorted_index False [] 5 6] (or_root [example_clause, other_clause])
     example_var example_sortCondition 1000 [] False
   = Inr ((False, True), [sorted_index False [] 5 6],
          or_root [example_clause, other_clause], False)"
    by (simp add: or_root_def) (simp add: sorted_index_def)
  let ?ix = "[filter_index False [example_clause] 2 10, sorted_index True [] 5 6]"
  let ?ar2 = "and_result exact_arith example_lib ?ix example_var example_sortCondition 1000"
  have b0: "1 < length [example_clause, other_clause]" by simp
  have b1: "?ar2 ([example_clause, other_clause] ! 1) = (False, True)"
    by (simp add: and_result_def findIndexHandleForAndNode_def best_search_def best_step_def
          other_clause_def example_index_defs)
  have b2: "\<forall>j < 1. ?ar2 ([example_clause, other_clause] ! j) \<noteq> (False, True)"
    by (simp add: and_result_def findIndexHandleForAndNode_def best_search_def best_step_def
          other_clause_def example_index_defs)
  have c2: "chosen_index exact_arith example_lib ?ix example_var
              example_sortCondition 1000 other_clause = Some (sorted_index True [] 5 6)"
    by (simp add: chosen_index_def best_search_def best_step_def other_clause_def
          example_index_defs)
  have s2: "specialized exact_arith example_lib ?ix example_var example_sortCondition 1000 example_clause
              = example_clause"
    by (simp add: specialized_def findIndexHandleForAndNode_def best_search_def best_step_def
          example_index_defs)
  from sort_only_escape [OF b0 b1 b2, of insertion_sort NODE_TYPE_OPERATOR_NARY_OR NoData "[]" False]
    c2 s2
  have r2: "getBestIndexHandlesForFilterCondition exact_arith example_lib insertion_sort ?ix
       (or_root [example_clause, other_clause])
       example_var example_sortCondition 1000 [] False
     = Inr ((False, False), [], or_root [example_clause, other_clause], False)"
    by (simp add: or_root_def) (simp add: sorted_index_def)
  from r1 r2 show ?thesis by simp
qed

subsection \<open>The condition normaliser: when it gives up\<close>

lemma sortOrs_false_unchanged:
  "sortOrs lib srt root0 v hs = Inr (False, root1, hs1) \<Longrightarrow> root1 = root0 \<and> hs1 = hs"
  by (auto simp: sortOrs_def Let_def split: AstNode.splits if_splits sum.splits option.splits
      prod.splits)

lemma clause_parts_comparison:
  assumes "isComparisonOperatorType ot" "ot \<noteq> NODE_TYPE_OPERATOR_BINARY_NE"
    "ot \<noteq> NODE_TYPE_OPERATOR_BINARY_NIN" "l \<noteq> Nullptr" "r \<noteq> Nullptr"
  shows "clause_parts lib v (AstNode t d [AstNode ot od (l # r # others)])
         = Inr (Some
             ((if node_type l = NODE_TYPE_ATTRIBUTE_ACCESS then left_part lib v ot l r else [])
              @ (if node_type r = NODE_TYPE_ATTRIBUTE_ACCESS \<or> node_type r = NODE_TYPE_EXPANSION
                 then right_part lib v ot l r else [])))"
  using assms by (simp add: clause_parts_def Let_def)

lemma clause_parts_SomeE:
  assumes "clause_parts lib v sub = Inr (Some ps)"
  obtains t d ot od l r others where
    "sub = AstNode t d [AstNode ot od (l # r # others)]"
    "isComparisonOperatorType ot" "ot \<noteq> NODE_TYPE_OPERATOR_BINARY_NE"
    "ot \<noteq> NODE_TYPE_OPERATOR_BINARY_NIN" "l \<noteq> Nullptr" "r \<noteq> Nullptr"
proof (cases sub)
  case Nullptr
  with assms show ?thesis by (simp add: clause_parts_def)
next
  case sub: (AstNode t d ms)
  show ?thesis
  proof (cases ms)
    case Nil
    with assms sub show ?thesis by (simp add: clause_parts_def)
  next
    case (Cons op ms')
    show ?thesis
    proof (cases ms')
      case ms': (Cons a b)
      with assms sub Cons show ?thesis by (simp add: clause_parts_def)
    next
      case Nil
      show ?thesis
      proof (cases op)
        case Nullptr
        with assms sub Cons Nil show ?thesis by (simp add: clause_parts_def)
      next
        case op: (AstNode ot od oms)
        from assms sub Cons Nil op have ok: "isComparisonOperatorType ot"
          "ot \<noteq> NODE_TYPE_OPERATOR_BINARY_NE" "ot \<noteq> NODE_TYPE_OPERATOR_BINARY_NIN"
          "\<not> length oms < 2"
          by (auto simp: clause_parts_def split: if_splits)
        then obtain l r others where oms: "oms = l # r # others"
          by (cases oms; cases "tl oms") auto
        from assms sub Cons Nil op ok oms have "l \<noteq> Nullptr" "r \<noteq> Nullptr"
          by (auto simp: clause_parts_def Let_def split: if_splits)
        with that [of t d ot od l r others] sub Cons Nil op oms ok
        show ?thesis by simp
      qed
    qed
  qed
qed

lemma clause_parts_wf:
  assumes "wf_clause sub"
  shows "\<exists>r. clause_parts lib v sub = Inr r"
proof (cases sub)
  case Nullptr
  with assms show ?thesis by (simp add: wf_clause_def)
next
  case sub: (AstNode t d ms)
  show ?thesis
  proof (cases "length ms = 1")
    case False
    then show ?thesis by (simp add: clause_parts_def sub)
  next
    case True
    then obtain op where ms: "ms = [op]" by (cases ms) auto
    show ?thesis
    proof (cases op)
      case Nullptr
      with assms sub ms show ?thesis by (simp add: wf_clause_def)
    next
      case op: (AstNode ot od oms)
      show ?thesis
      proof (cases "isComparisonOperatorType ot \<and> ot \<noteq> NODE_TYPE_OPERATOR_BINARY_NE
                     \<and> ot \<noteq> NODE_TYPE_OPERATOR_BINARY_NIN")
        case False
        then show ?thesis by (auto simp: clause_parts_def sub ms op)
      next
        case True
        with assms sub ms op obtain lt ld lm rt rd rm others where
          "oms = AstNode lt ld lm # AstNode rt rd rm # others"
          by (auto simp: wf_clause_def split: list.splits AstNode.splits)
        with True show ?thesis
          by (simp add: sub ms op clause_parts_comparison)
      qed
    qed
  qed
qed

lemma collect_parts_wf:
  "list_all wf_clause subs \<Longrightarrow> \<exists>r. collect_parts lib v subs hs i = Inr r"
proof (induction subs arbitrary: i)
  case Nil
  then show ?case by simp
next
  case (Cons sub subs)
  then obtain r where r: "clause_parts lib v sub = Inr r"
    using clause_parts_wf [of sub lib v] by auto
  from Cons obtain r' where r': "collect_parts lib v subs hs (Suc i) = Inr r'"
    by fastforce
  show ?case by (simp add: r r' split: option.splits)
qed

lemma sortOrs_wf:
  "list_all wf_clause subs \<Longrightarrow> \<exists>r. sortOrs lib srt (AstNode t d subs) v hs = Inr r"
  using collect_parts_wf [of subs lib v hs 0]
  by (auto simp: sortOrs_def Let_def split: option.splits prod.splits)

lemma left_right_exclusive:
  assumes "ast_consistent lib"
  shows "length (left_part lib v ot l r) \<le> 1" "length (right_part lib v ot l r) \<le> 1"
    "left_part lib v ot l r \<noteq> [] \<Longrightarrow> right_part lib v ot l r = []"
proof -
  from assms have c: "\<And>node. isConstant lib node \<Longrightarrow> isAttributeAccessForVariable lib node = None"
    by (simp add: ast_consistent_def)
  show "length (left_part lib v ot l r) \<le> 1"
    by (simp add: left_part_def split: option.splits)
  show "length (right_part lib v ot l r) \<le> 1"
    by (simp add: right_part_def split: option.splits)
  show "left_part lib v ot l r \<noteq> [] \<Longrightarrow> right_part lib v ot l r = []"
    by (auto simp: left_part_def right_part_def dest: c split: option.splits if_splits)
qed

lemma clause_parts_length:
  assumes "ast_consistent lib" "clause_parts lib v sub = Inr (Some ps)"
  shows "length ps \<le> 1"
proof -
  from assms(2) obtain t d ot od l r others where
    sub: "sub = AstNode t d [AstNode ot od (l # r # others)]"
    and ok: "isComparisonOperatorType ot" "ot \<noteq> NODE_TYPE_OPERATOR_BINARY_NE"
    "ot \<noteq> NODE_TYPE_OPERATOR_BINARY_NIN" "l \<noteq> Nullptr" "r \<noteq> Nullptr"
    by (rule clause_parts_SomeE)
  from assms(2) have "ps = (if node_type l = NODE_TYPE_ATTRIBUTE_ACCESS
               then left_part lib v ot l r else [])
              @ (if node_type r = NODE_TYPE_ATTRIBUTE_ACCESS \<or> node_type r = NODE_TYPE_EXPANSION
                 then right_part lib v ot l r else [])"
    by (simp add: sub clause_parts_comparison [OF ok])
  with left_right_exclusive [OF assms(1), of v ot l r]
  show ?thesis by (cases "left_part lib v ot l r = []") auto
qed

lemma collect_parts_exact:
  assumes "ast_consistent lib" "collect_parts lib v subs hs i = Inr (Some parts)"
  shows "length parts \<le> length subs
    \<and> (length parts = length subs \<longrightarrow>
         (\<forall>k < length subs. clause_parts lib v (subs ! k) = Inr (Some [fst (parts ! k)])
                             \<and> snd (parts ! k) = (i + k, hs ! (i + k))))"
  using assms(2)
proof (induction subs arbitrary: i parts)
  case Nil
  then show ?case by simp
next
  case (Cons sub subs)
  from Cons.prems obtain ps rest where
    ps: "clause_parts lib v sub = Inr (Some ps)"
    and rest: "collect_parts lib v subs hs (Suc i) = Inr (Some rest)"
    and parts: "parts = map (\<lambda>p. (p, (i, hs ! i))) ps @ rest"
    by (auto split: sum.splits option.splits)
  from clause_parts_length [OF assms(1) ps] have lps: "length ps \<le> 1" .
  from Cons.IH [OF rest] have lrest: "length rest \<le> length subs"
    and ex: "length rest = length subs \<Longrightarrow>
         (\<forall>k < length subs. clause_parts lib v (subs ! k) = Inr (Some [fst (rest ! k)])
                             \<and> snd (rest ! k) = (Suc i + k, hs ! (Suc i + k)))"
    by simp_all
  show ?case
  proof (intro conjI impI allI)
    show "length parts \<le> length (sub # subs)" using lps lrest parts by simp
  next
    fix k
    assume len: "length parts = length (sub # subs)" and k: "k < length (sub # subs)"
    with lps lrest parts have l1: "length ps = 1" and l2: "length rest = length subs"
      by simp_all
    from l1 obtain p where p: "ps = [p]" by (cases ps) auto
    show "clause_parts lib v ((sub # subs) ! k) = Inr (Some [fst (parts ! k)])"
      using ex [OF l2] k ps p parts by (cases k) simp_all
    show "snd (parts ! k) = (i + k, hs ! (i + k))"
      using ex [OF l2] k ps p parts by (cases k) simp_all
  qed
qed

lemma same_attribute_nth:
  "same_attribute ps \<Longrightarrow> k < length ps \<Longrightarrow>
   variable (ps ! k) = variable (ps ! 0) \<and> attributeName (ps ! k) = attributeName (ps ! 0)"
proof (induction ps arbitrary: k rule: same_attribute.induct)
  case (1 l r ps)
  then show ?case by (cases k) (auto split: if_splits)
qed simp_all

lemma clause_attribute_of_part:
  assumes "ast_consistent lib" "clause_parts lib v sub = Inr (Some [p])"
  shows "clause_attribute lib sub = Some (v, attributeName p) \<and> variable p = v"
proof -
  from assms(1) have c: "\<And>node. isConstant lib node \<Longrightarrow> isAttributeAccessForVariable lib node = None"
    by (simp add: ast_consistent_def)
  from assms(2) obtain t d ot od l r others where
    sub: "sub = AstNode t d [AstNode ot od (l # r # others)]"
    and ok: "isComparisonOperatorType ot" "ot \<noteq> NODE_TYPE_OPERATOR_BINARY_NE"
    "ot \<noteq> NODE_TYPE_OPERATOR_BINARY_NIN" "l \<noteq> Nullptr" "r \<noteq> Nullptr"
    by (rule clause_parts_SomeE)
  from assms(2) have eq: "[p] = (if node_type l = NODE_TYPE_ATTRIBUTE_ACCESS
               then left_part lib v ot l r else [])
              @ (if node_type r = NODE_TYPE_ATTRIBUTE_ACCESS \<or> node_type r = NODE_TYPE_EXPANSION
                 then right_part lib v ot l r else [])"
    by (simp add: sub clause_parts_comparison [OF ok])
  show ?thesis
  proof (cases "node_type l = NODE_TYPE_ATTRIBUTE_ACCESS \<and> left_part lib v ot l r \<noteq> []")
    case True
    then obtain attr where acc: "isAttributeAccessForVariable lib l = Some (v, attr)"
      and lp: "left_part lib v ot l r = [make_ConditionPart lib v attr ot l r ATTRIBUTE_LEFT]"
      by (auto simp: left_part_def split: option.splits if_splits)
    from True left_right_exclusive(3) [OF assms(1), of v ot l r]
    have "right_part lib v ot l r = []" by blast
    with eq True lp have "p = make_ConditionPart lib v attr ot l r ATTRIBUTE_LEFT" by simp
    with acc True ok(4,5) show ?thesis
      by (simp add: sub clause_attribute_def make_ConditionPart_def)
  next
    case False
    with eq have r: "node_type r = NODE_TYPE_ATTRIBUTE_ACCESS \<or> node_type r = NODE_TYPE_EXPANSION"
      and rp: "right_part lib v ot l r = [p]"
      by (auto split: if_splits)
    from rp obtain attr where acc: "isAttributeAccessForVariable lib r = Some (v, attr)"
      and cl: "isConstant lib l"
      and p: "p = make_ConditionPart lib v attr ot l r ATTRIBUTE_RIGHT"
      by (auto simp: right_part_def split: option.splits if_splits)
    from c [OF cl] acc r p ok(4,5) show ?thesis
      by (auto simp: sub clause_attribute_def make_ConditionPart_def)
  qed
qed

lemma single_comparison_of_part:
  assumes "clause_parts lib v sub = Inr (Some ps)"
  shows "\<exists>ot. single_comparison sub = Some ot \<and> ot \<noteq> NODE_TYPE_OPERATOR_BINARY_NE
              \<and> ot \<noteq> NODE_TYPE_OPERATOR_BINARY_NIN"
  using assms by (rule clause_parts_SomeE) (simp add: single_comparison_def)

lemma sortOrs_true_D:
  assumes "ast_consistent lib" "2 \<le> length subs"
    and "sortOrs lib srt (AstNode t d subs) v hs = Inr (True, r1, h1)"
  shows "length subs = length hs"
    and "\<forall>k < length subs. \<exists>ot. single_comparison (subs ! k) = Some ot
            \<and> ot \<noteq> NODE_TYPE_OPERATOR_BINARY_NE \<and> ot \<noteq> NODE_TYPE_OPERATOR_BINARY_NIN"
    and "\<exists>attr. \<forall>k < length subs. clause_attribute lib (subs ! k) = Some (v, attr)"
proof -
  from assms(2,3) show len: "length subs = length hs"
    by (auto simp: sortOrs_def Let_def split: if_splits)
  from assms(2,3) len obtain parts where
    cp: "collect_parts lib v subs hs 0 = Inr (Some parts)"
    and lp: "length parts = length subs"
    and sa: "same_attribute (map fst parts)"
    by (auto simp: sortOrs_def Let_def split: if_splits sum.splits option.splits)
  from collect_parts_exact [OF assms(1) cp] lp have
    ex: "\<And>k. k < length subs \<Longrightarrow> clause_parts lib v (subs ! k) = Inr (Some [fst (parts ! k)])"
    by simp
  show "\<forall>k < length subs. \<exists>ot. single_comparison (subs ! k) = Some ot
            \<and> ot \<noteq> NODE_TYPE_OPERATOR_BINARY_NE \<and> ot \<noteq> NODE_TYPE_OPERATOR_BINARY_NIN"
    using ex single_comparison_of_part by blast
  have "\<forall>k < length subs. clause_attribute lib (subs ! k)
          = Some (v, attributeName (fst (parts ! 0)))"
  proof (intro allI impI)
    fix k assume k: "k < length subs"
    from assms(2) lp have "0 < length parts" by linarith
    with same_attribute_nth [OF sa, of k] k lp
    have "attributeName (fst (parts ! k)) = attributeName (fst (parts ! 0))"
      by simp
    with clause_attribute_of_part [OF assms(1) ex [OF k]]
    show "clause_attribute lib (subs ! k) = Some (v, attributeName (fst (parts ! 0)))"
      by simp
  qed
  then show "\<exists>attr. \<forall>k < length subs. clause_attribute lib (subs ! k) = Some (v, attr)"
    by blast
qed

text \<open>
  C6, as amended. On a root with at least two clauses (well-formed ones, and an
  AST library in which constants are no attribute accesses), \<^verbatim>\<open>sortOrs\<close> returns
  false, leaving the root and \<^verbatim>\<open>usedIndexes\<close> as they are, whenever the number of
  clauses differs from the number of index handles, some clause is not exactly
  one binary comparison, the comparison of some clause is \<^verbatim>\<open>!=\<close> or \<^verbatim>\<open>NOT IN\<close>, or
  two clauses refer to different variables or attribute paths.
\<close>

theorem sortOrs_returns_false:
  assumes "ast_consistent lib" and "list_all wf_clause subs" and "2 \<le> length subs"
    and "length subs \<noteq> length usedIndexes
       \<or> (\<exists>k < length subs. single_comparison (subs ! k) = None)
       \<or> (\<exists>k < length subs.
             single_comparison (subs ! k) = Some NODE_TYPE_OPERATOR_BINARY_NE
             \<or> single_comparison (subs ! k) = Some NODE_TYPE_OPERATOR_BINARY_NIN)
       \<or> (\<exists>j < length subs. \<exists>k < length subs.
             clause_attribute lib (subs ! j) \<noteq> clause_attribute lib (subs ! k))"
  shows "sortOrs lib std_sort (AstNode t d subs) variable' usedIndexes
           = Inr (False, AstNode t d subs, usedIndexes)"
proof -
  from sortOrs_wf [OF assms(2)] obtain b r1 h1 where
    r: "sortOrs lib std_sort (AstNode t d subs) variable' usedIndexes = Inr (b, r1, h1)"
    by (metis prod_cases3)
  show ?thesis
  proof (cases b)
    case False
    with r sortOrs_false_unchanged [of lib std_sort "AstNode t d subs" variable' usedIndexes r1 h1]
    show ?thesis by simp
  next
    case True
    with r have t: "sortOrs lib std_sort (AstNode t d subs) variable' usedIndexes
                      = Inr (True, r1, h1)" by simp
    note D = sortOrs_true_D [OF assms(1,3) t]
    from D(3) obtain attr where
      attr: "\<And>k. k < length subs \<Longrightarrow> clause_attribute lib (subs ! k) = Some (variable', attr)"
      by blast
    from assms(4) D(1) D(2) attr have False by fastforce
    then show ?thesis ..
  qed
qed


text \<open>On a root with fewer than two clauses \<^verbatim>\<open>sortOrs\<close> returns true before any
  check, and changes nothing.\<close>

lemma sortOrs_small_root:
  "length subs < 2 \<Longrightarrow>
   sortOrs lib std_sort (AstNode t d subs) variable' usedIndexes
     = Inr (True, AstNode t d subs, usedIndexes)"
  by (simp add: sortOrs_def)

lemma example_lib_consistent: "ast_consistent example_lib"
proof -
  have "example_isConstant node \<Longrightarrow> example_access node = None" for node
    by (cases node) auto
  then show ?thesis by (simp add: ast_consistent_def example_lib_def)
qed

text \<open>
  C6 as stated fails on a root with fewer than two clauses, where \<^verbatim>\<open>sortOrs\<close>
  returns true before any check: here the one clause is \<^verbatim>\<open>doc.a != 2\<close>.
\<close>

theorem sortOrs_single_clause_counterexample:
  "sortOrs example_lib insertion_sort
     (or_root [and_clause [compare_node NODE_TYPE_OPERATOR_BINARY_NE (doc_attr ''a'') (int_node 2)]])
     example_var [''h0'']
   = Inr (True,
          or_root [and_clause [compare_node NODE_TYPE_OPERATOR_BINARY_NE (doc_attr ''a'')
                                 (int_node 2)]],
          [''h0''])"
  by (simp add: sortOrs_def or_root_def)

text \<open>
  \<^verbatim>\<open>doc.a != 2 || doc.a == 3\<close>: false, and nothing changed.
\<close>

theorem sortOrs_returns_false_witness:
  "sortOrs example_lib insertion_sort
     (or_root [and_clause [compare_node NODE_TYPE_OPERATOR_BINARY_NE (doc_attr ''a'') (int_node 2)],
               and_clause [compare_node NODE_TYPE_OPERATOR_BINARY_EQ (doc_attr ''a'') (int_node 3)]])
     example_var [''h0'', ''h1'']
   = Inr (False,
          or_root [and_clause [compare_node NODE_TYPE_OPERATOR_BINARY_NE (doc_attr ''a'')
                                 (int_node 2)],
                   and_clause [compare_node NODE_TYPE_OPERATOR_BINARY_EQ (doc_attr ''a'')
                                 (int_node 3)]],
          [''h0'', ''h1''])"
proof -
  let ?subs = "[and_clause [compare_node NODE_TYPE_OPERATOR_BINARY_NE (doc_attr ''a'') (int_node 2)],
                and_clause [compare_node NODE_TYPE_OPERATOR_BINARY_EQ (doc_attr ''a'') (int_node 3)]]"
  have wf: "list_all wf_clause ?subs"
    by (simp add: wf_clause_def and_clause_def compare_node_def doc_attr_def int_node_def
          isComparisonOperatorType_def)
  have len: "2 \<le> length ?subs" by simp
  have bad: "length ?subs \<noteq> length [''h0'', ''h1'']
       \<or> (\<exists>k < length ?subs. single_comparison (?subs ! k) = None)
       \<or> (\<exists>k < length ?subs.
             single_comparison (?subs ! k) = Some NODE_TYPE_OPERATOR_BINARY_NE
             \<or> single_comparison (?subs ! k) = Some NODE_TYPE_OPERATOR_BINARY_NIN)
       \<or> (\<exists>j < length ?subs. \<exists>k < length ?subs.
             clause_attribute example_lib (?subs ! j) \<noteq> clause_attribute example_lib (?subs ! k))"
  proof -
    have "single_comparison (?subs ! 0) = Some NODE_TYPE_OPERATOR_BINARY_NE"
      by (simp add: single_comparison_def and_clause_def compare_node_def
            isComparisonOperatorType_def)
    then show ?thesis by (intro disjI2 disjI1 exI [of _ 0]) simp
  qed
  from sortOrs_returns_false [OF example_lib_consistent wf len bad,
      of insertion_sort NODE_TYPE_OPERATOR_NARY_OR NoData example_var]
  show ?thesis by (simp add: or_root_def)
qed

subsection \<open>The condition normaliser: applying it twice\<close>

lemma changeValue_twice:
  "changeValue (changeValue sub m1) m2 = changeValue sub m2"
  by (induction sub m1 rule: changeValue.induct) simp_all

lemma changeValue_clause:
  "changeValue (AstNode t d [AstNode ot od (l # r # others)]) m
     = AstNode t d [AstNode ot od (l # m # others)]"
  by simp

lemma isInArray_update:
  "isInArray p \<Longrightarrow> isInArray (p\<lparr>valueNode := AstNode NODE_TYPE_ARRAY NoData ms\<rparr>)"
  by (simp add: isInArray_def)

lemma isEmptyIn_update:
  "isInArray p \<Longrightarrow> isEmptyIn (p\<lparr>valueNode := createNodeArray\<rparr>)"
  by (simp add: isInArray_def isEmptyIn_def createNodeArray_def)

lemma merged_at_refl: "merged_at parts subs parts subs k"
  by (simp add: merged_at_def)

lemma merge_inv_init: "merge_inv parts subs 0 (None, parts, subs)"
  by (simp add: merge_inv_def merged_at_refl)

lemma merge_step_inv:
  assumes inv: "merge_inv parts subs m st" and m: "m < length parts"
    and len: "length subs = length parts"
  shows "merge_inv parts subs (Suc m) (merge_step lib st m)"
proof -
  obtain prev ps ss where st: "st = (prev, ps, ss)" by (cases st)
  from inv st have lps: "length ps = length parts" and lss: "length ss = length subs"
    and mg: "\<And>k. k < length parts \<Longrightarrow> merged_at parts subs ps ss k"
    and un: "\<And>k. m \<le> k \<Longrightarrow> k < length parts \<Longrightarrow> ps ! k = parts ! k \<and> ss ! k = subs ! k"
    by (simp_all add: merge_inv_def)
  from un [of m] m have pm: "ps ! m = parts ! m" and sm: "ss ! m = subs ! m" by simp_all
  from inv st have inv': "merge_inv parts subs m (prev, ps, ss)" by simp
  show ?thesis unfolding st
  proof (cases "isInArray (fst (parts ! m))")
    case False
    then have step: "merge_step lib (prev, ps, ss) m = (prev, ps, ss)"
      by (simp add: merge_step_def pm)
    from inv' False show "merge_inv parts subs (Suc m) (merge_step lib (prev, ps, ss) m)"
      unfolding step merge_inv_def
      by (auto simp: less_Suc_eq split: option.splits)
  next
    case True
    show "merge_inv parts subs (Suc m) (merge_step lib (prev, ps, ss) m)"
    proof (cases prev)
      case None
      then have step: "merge_step lib (prev, ps, ss) m = (Some m, ps, ss)"
        using True by (simp add: merge_step_def pm)
      from inv' None True show ?thesis
        unfolding step merge_inv_def
        by (auto simp: less_Suc_eq)
    next
      case (Some pin)
      from inv st Some have pin: "pin < m" and pinarr: "isInArray (fst (parts ! pin))"
        and emp: "\<And>k. k < m \<Longrightarrow> k \<noteq> pin \<Longrightarrow> isInArray (fst (parts ! k))
                     \<Longrightarrow> isEmptyIn (fst (ps ! k))"
        by (simp_all add: merge_inv_def)
      define merged where "merged = createNodeUnionizedArray lib (valueNode (fst (ps ! pin)))
                                 (valueNode (fst (ps ! m)))"
      define ps1 where "ps1 = ps[pin := ((fst (ps ! pin))\<lparr>valueNode := merged\<rparr>, snd (ps ! pin))]"
      define ps2 where "ps2 = ps1[m := ((fst (ps1 ! m))\<lparr>valueNode := createNodeArray\<rparr>, snd (ps1 ! m))]"
      define ss1 where "ss1 = ss[pin := changeValue (ss ! pin) merged]"
      define ss2 where "ss2 = ss1[m := changeValue (ss1 ! m) createNodeArray]"
      have step: "merge_step lib (prev, ps, ss) m = (Some pin, ps2, ss2)"
        using True Some
        by (simp add: merge_step_def pm [symmetric] Let_def merged_def ps1_def ps2_def
              ss1_def ss2_def)
      obtain ms where merged: "merged = AstNode NODE_TYPE_ARRAY NoData ms"
        by (simp add: merged_def createNodeUnionizedArray_def)
      have pinm: "pin \<noteq> m" using pin by simp
      have pinlt: "pin < length parts" using pin m by simp
      have ps2m: "ps2 ! m = ((fst (parts ! m))\<lparr>valueNode := createNodeArray\<rparr>, snd (parts ! m))"
        using m lps pinm pm by (simp add: ps2_def ps1_def)
      have ss2m: "ss2 ! m = changeValue (subs ! m) createNodeArray"
        using m lss len pinm sm by (simp add: ss2_def ss1_def)
      have ps2pin: "ps2 ! pin = ((fst (ps ! pin))\<lparr>valueNode := merged\<rparr>, snd (ps ! pin))"
        using pinlt lps pinm by (simp add: ps2_def ps1_def)
      have ss2pin: "ss2 ! pin = changeValue (ss ! pin) merged"
        using pinlt lss len pinm by (simp add: ss2_def ss1_def)
      have other: "ps2 ! k = ps ! k \<and> ss2 ! k = ss ! k" if "k \<noteq> m" "k \<noteq> pin" for k
        using that by (simp add: ps2_def ps1_def ss2_def ss1_def)
      have mg2: "merged_at parts subs ps2 ss2 k" if k: "k < length parts" for k
      proof (cases "k = m")
        case True
        have "isInArray (fst (parts ! m))" by fact
        then show ?thesis
          unfolding merged_at_def True ps2m ss2m
          by (auto simp: createNodeArray_def)
      next
        case km: False
        show ?thesis
        proof (cases "k = pin")
          case True
          from mg [OF pinlt] have
            fstpin: "(fst (ps ! pin))\<lparr>valueNode := merged\<rparr>
                       = (fst (parts ! pin))\<lparr>valueNode := merged\<rparr>"
            and sspin: "changeValue (ss ! pin) merged = changeValue (subs ! pin) merged"
            and sndpin: "snd (ps ! pin) = snd (parts ! pin)"
            by (auto simp: merged_at_def changeValue_twice)
          show ?thesis
            unfolding merged_at_def True ps2pin ss2pin fstpin sspin
            using pinarr sndpin merged by auto
        next
          case False
          with km other [of k] mg [OF k] show ?thesis by (simp add: merged_at_def)
        qed
      qed
      have un2: "ps2 ! k = parts ! k \<and> ss2 ! k = subs ! k" if "Suc m \<le> k" "k < length parts" for k
        using that other [of k] un [of k] pin by simp
      have emp2: "isEmptyIn (fst (ps2 ! k))"
        if "k < Suc m" "k \<noteq> pin" "isInArray (fst (parts ! k))" for k
      proof (cases "k = m")
        case True
        with that(3) show ?thesis by (simp add: ps2m isEmptyIn_update)
      next
        case False
        with that other [of k] emp [of k] show ?thesis by simp
      qed
      show ?thesis
        unfolding step merge_inv_def
        using lps lss mg2 un2 emp2 pin pinarr
        by (simp add: ps2_def ps1_def ss2_def ss1_def)
    qed
  qed
qed

lemma merge_fold_inv:
  assumes "length subs = length parts" "m \<le> length parts"
  shows "merge_inv parts subs m (foldl (merge_step lib) (None, parts, subs) [0 ..< m])"
  using assms(2)
proof (induction m)
  case 0
  show ?case by (simp add: merge_inv_init)
next
  case (Suc m)
  then have "merge_inv parts subs m (foldl (merge_step lib) (None, parts, subs) [0 ..< m])"
    and "m < length parts" by simp_all
  from merge_step_inv [OF this assms(1)] show ?case by simp
qed


lemma merge_ins_facts:
  assumes len: "length subs = length parts"
    and res: "merge_ins lib (length parts) parts subs = (parts', subs')"
  shows "length parts' = length parts" "length subs' = length subs"
    and "\<And>k. k < length parts \<Longrightarrow> merged_at parts subs parts' subs' k"
    and "\<exists>e. \<forall>k < length parts.
           isInArray (fst (parts' ! k)) \<and> \<not> isEmptyIn (fst (parts' ! k)) \<longrightarrow> k = e"
proof -
  obtain prev where f: "foldl (merge_step lib) (None, parts, subs) [0 ..< length parts]
                          = (prev, parts', subs')"
    using res by (cases "foldl (merge_step lib) (None, parts, subs) [0 ..< length parts]")
      (simp add: merge_ins_def)
  from merge_fold_inv [OF len, of "length parts" lib] f
  have inv: "merge_inv parts subs (length parts) (prev, parts', subs')" by simp
  then show l1: "length parts' = length parts" and "length subs' = length subs"
    and mg: "\<And>k. k < length parts \<Longrightarrow> merged_at parts subs parts' subs' k"
    by (simp_all add: merge_inv_def)
  show "\<exists>e. \<forall>k < length parts.
           isInArray (fst (parts' ! k)) \<and> \<not> isEmptyIn (fst (parts' ! k)) \<longrightarrow> k = e"
  proof (cases prev)
    case None
    with inv have no: "\<And>k. k < length parts \<Longrightarrow> \<not> isInArray (fst (parts ! k))"
      by (simp add: merge_inv_def)
    have "\<not> isInArray (fst (parts' ! k))" if "k < length parts" for k
      using mg [OF that] no [OF that] by (auto simp: merged_at_def)
    then show ?thesis by blast
  next
    case (Some pin)
    with inv have emp: "\<And>k. k < length parts \<Longrightarrow> k \<noteq> pin \<Longrightarrow> isInArray (fst (parts ! k))
                     \<Longrightarrow> isEmptyIn (fst (parts' ! k))"
      by (simp add: merge_inv_def)
    have "k = pin" if k: "k < length parts"
      and a: "isInArray (fst (parts' ! k))" "\<not> isEmptyIn (fst (parts' ! k))" for k
    proof (rule ccontr)
      assume ne: "k \<noteq> pin"
      show False
      proof (cases "isInArray (fst (parts ! k))")
        case True
        from emp [OF k ne True] a(2) show False by simp
      next
        case False
        with mg [OF k] have "parts' ! k = parts ! k" by (auto simp: merged_at_def)
        with False a(1) show False by simp
      qed
    qed
    then show ?thesis by blast
  qed
qed

lemma merge_step_noop:
  assumes uniq: "\<And>i j. i < length ps \<Longrightarrow> j < length ps \<Longrightarrow> isInArray (fst (ps ! i))
                    \<Longrightarrow> isInArray (fst (ps ! j)) \<Longrightarrow> i = j"
    and m: "m < length ps"
    and prev: "\<And>pin. prev = Some pin \<Longrightarrow> pin < m \<and> isInArray (fst (ps ! pin))"
  shows "\<exists>prev'. merge_step lib (prev, ps, ss) m = (prev', ps, ss)
                 \<and> (\<forall>pin. prev' = Some pin \<longrightarrow> pin < Suc m \<and> isInArray (fst (ps ! pin)))"
proof (cases "isInArray (fst (ps ! m))")
  case False
  with prev show ?thesis by (auto simp: merge_step_def less_Suc_eq)
next
  case True
  show ?thesis
  proof (cases prev)
    case None
    with True show ?thesis by (simp add: merge_step_def)
  next
    case (Some pin)
    from prev [OF Some] have "pin < m" "isInArray (fst (ps ! pin))" by simp_all
    with uniq [of pin m] m True have "pin = m" by simp
    with \<open>pin < m\<close> show ?thesis by simp
  qed
qed

lemma merge_ins_noop:
  assumes uniq: "\<And>i j. i < length ps \<Longrightarrow> j < length ps \<Longrightarrow> isInArray (fst (ps ! i))
                    \<Longrightarrow> isInArray (fst (ps ! j)) \<Longrightarrow> i = j"
  shows "merge_ins lib (length ps) ps ss = (ps, ss)"
proof -
  have "m \<le> length ps \<Longrightarrow>
        \<exists>prev. foldl (merge_step lib) (None, ps, ss) [0 ..< m] = (prev, ps, ss)
               \<and> (\<forall>pin. prev = Some pin \<longrightarrow> pin < m \<and> isInArray (fst (ps ! pin)))" for m
  proof (induction m)
    case 0
    show ?case by simp
  next
    case (Suc m)
    then obtain prev where
      f: "foldl (merge_step lib) (None, ps, ss) [0 ..< m] = (prev, ps, ss)"
      and p: "\<And>pin. prev = Some pin \<Longrightarrow> pin < m \<and> isInArray (fst (ps ! pin))"
      by auto
    from Suc.prems have m: "m < length ps" by simp
    from merge_step_noop [where lib = lib and ss = ss and prev = prev, OF uniq m p] f
    show ?case by auto
  qed
  from this [of "length ps"] show ?thesis by (auto simp: merge_ins_def)
qed

lemma collect_parts_total:
  assumes "\<And>k. k < length subs \<Longrightarrow> \<exists>x. clause_parts lib v (subs ! k) = Inr (Some x)"
  shows "\<exists>ps. collect_parts lib v subs hs i = Inr (Some ps)"
  using assms
proof (induction subs arbitrary: i)
  case Nil
  show ?case by simp
next
  case (Cons sub subs)
  from Cons.prems [of 0] obtain x where x: "clause_parts lib v sub = Inr (Some x)" by auto
  have "\<And>k. k < length subs \<Longrightarrow> \<exists>x. clause_parts lib v (subs ! k) = Inr (Some x)"
    using Cons.prems [of "Suc k" for k] by simp
  from Cons.IH [OF this, of "Suc i"] obtain ps where
    "collect_parts lib v subs hs (Suc i) = Inr (Some ps)" by auto
  with x show ?case by simp
qed

lemma clause_parts_after_merge:
  assumes cons: "ast_consistent lib"
    and orig: "clause_parts lib v sub = Inr (Some [p])"
    and arr: "isInArray p"
  shows "clause_parts lib v (changeValue sub (AstNode NODE_TYPE_ARRAY NoData ms))
           = Inr (Some [p\<lparr>valueNode := AstNode NODE_TYPE_ARRAY NoData ms\<rparr>])
         \<or> clause_parts lib v (changeValue sub (AstNode NODE_TYPE_ARRAY NoData ms))
           = Inr (Some [])"
proof -
  let ?M = "AstNode NODE_TYPE_ARRAY NoData ms"
  from cons have c: "\<And>node. isConstant lib node \<Longrightarrow> isAttributeAccessForVariable lib node = None"
    by (simp add: ast_consistent_def)
  from orig obtain t d ot od l r others where
    sub: "sub = AstNode t d [AstNode ot od (l # r # others)]"
    and ok: "isComparisonOperatorType ot" "ot \<noteq> NODE_TYPE_OPERATOR_BINARY_NE"
    "ot \<noteq> NODE_TYPE_OPERATOR_BINARY_NIN" "l \<noteq> Nullptr" "r \<noteq> Nullptr"
    by (rule clause_parts_SomeE)
  from orig have eq: "[p] = (if node_type l = NODE_TYPE_ATTRIBUTE_ACCESS
               then left_part lib v ot l r else [])
              @ (if node_type r = NODE_TYPE_ATTRIBUTE_ACCESS \<or> node_type r = NODE_TYPE_EXPANSION
                 then right_part lib v ot l r else [])"
    by (simp add: sub clause_parts_comparison [OF ok])
  have new: "clause_parts lib v (changeValue sub ?M)
        = Inr (Some (if node_type l = NODE_TYPE_ATTRIBUTE_ACCESS
                     then left_part lib v ot l ?M else []))"
    using clause_parts_comparison [OF ok(1-4), of ?M lib v t d od others]
    by (simp add: sub)
  show ?thesis
  proof (cases "node_type l = NODE_TYPE_ATTRIBUTE_ACCESS \<and> left_part lib v ot l r \<noteq> []")
    case True
    then obtain attr where acc: "isAttributeAccessForVariable lib l = Some (v, attr)"
      and lp: "left_part lib v ot l r = [make_ConditionPart lib v attr ot l r ATTRIBUTE_LEFT]"
      by (auto simp: left_part_def split: option.splits if_splits)
    from True left_right_exclusive(3) [OF cons, of v ot l r]
    have "right_part lib v ot l r = []" by blast
    with eq True lp have p: "p = make_ConditionPart lib v attr ot l r ATTRIBUTE_LEFT" by simp
    have "left_part lib v ot l ?M = [p\<lparr>valueNode := ?M\<rparr>] \<or> left_part lib v ot l ?M = []"
      by (simp add: left_part_def acc p make_ConditionPart_def)
    with True new show ?thesis by auto
  next
    case False
    with eq have rp: "right_part lib v ot l r = [p]"
      by (auto split: if_splits)
    then have "isConstant lib l"
      by (auto simp: right_part_def split: option.splits if_splits)
    from c [OF this] have "left_part lib v ot l ?M = []"
      by (simp add: left_part_def)
    with new show ?thesis by simp
  qed
qed


lemma sortOrs_sorting:
  assumes "2 \<le> length subs" "length subs = length hs"
    and "collect_parts lib v subs hs 0 = Inr (Some parts)" "length parts = length subs"
    and "same_attribute (map fst parts)"
    and "merge_ins lib (length subs) parts subs = (parts', subs')"
  shows "sortOrs lib srt (AstNode t d subs) v hs
     = Inr (True,
            AstNode t d (map (\<lambda>p. subs' ! fst (snd p))
                           (filter (\<lambda>p. \<not> isEmptyIn (fst p)) (srt (data_less lib) parts'))),
            map (\<lambda>p. snd (snd p))
              (filter (\<lambda>p. \<not> isEmptyIn (fst p)) (srt (data_less lib) parts')))"
  using assms by (simp add: sortOrs_def Let_def)

lemma sortOrs_trueE:
  assumes "sortOrs lib srt (AstNode t d subs) v hs = Inr (True, r1, h1)" "2 \<le> length subs"
  obtains parts parts' subs' where
    "length subs = length hs"
    "collect_parts lib v subs hs 0 = Inr (Some parts)" "length parts = length subs"
    "same_attribute (map fst parts)"
    "merge_ins lib (length subs) parts subs = (parts', subs')"
    "r1 = AstNode t d (map (\<lambda>p. subs' ! fst (snd p))
                           (filter (\<lambda>p. \<not> isEmptyIn (fst p)) (srt (data_less lib) parts')))"
    "h1 = map (\<lambda>p. snd (snd p))
              (filter (\<lambda>p. \<not> isEmptyIn (fst p)) (srt (data_less lib) parts'))"
proof -
  from assms have len: "length subs = length hs"
    by (auto simp: sortOrs_def Let_def split: if_splits)
  from assms len obtain parts where
    cp: "collect_parts lib v subs hs 0 = Inr (Some parts)"
    and lp: "length parts = length subs"
    and sa: "same_attribute (map fst parts)"
    by (auto simp: sortOrs_def Let_def split: if_splits sum.splits option.splits)
  obtain parts' subs' where mi: "merge_ins lib (length subs) parts subs = (parts', subs')"
    by (cases "merge_ins lib (length subs) parts subs")
  from sortOrs_sorting [OF assms(2) len cp lp sa mi, of srt t d] assms(1)
  have "r1 = AstNode t d (map (\<lambda>p. subs' ! fst (snd p))
                           (filter (\<lambda>p. \<not> isEmptyIn (fst p)) (srt (data_less lib) parts')))"
    "h1 = map (\<lambda>p. snd (snd p))
              (filter (\<lambda>p. \<not> isEmptyIn (fst p)) (srt (data_less lib) parts'))"
    by simp_all
  with that [OF len cp lp sa mi] show thesis by blast
qed

lemma sorted_wrt_data_less:
  "sorted_wrt (\<lambda>a b. \<not> data_less lib b a) xs
     = sorted_wrt (\<lambda>p q. \<not> part_less lib q p) (map fst xs)"
  by (simp add: sorted_wrt_map data_less_def)

lemma ordered_permutation_unique:
  assumes "sorted_wrt lt xs" "mset ys = mset xs" "sorted_wrt (\<lambda>a b. \<not> lt b a) ys"
  shows "ys = xs"
  using assms
proof (induction xs arbitrary: ys)
  case Nil
  then show ?case by simp
next
  case (Cons x xs)
  from Cons.prems(2) have "ys \<noteq> []" by auto
  then obtain y ys' where ys: "ys = y # ys'" by (cases ys) auto
  have "y = x"
  proof (rule ccontr)
    assume ne: "y \<noteq> x"
    from Cons.prems(2) ys have "y \<in># mset (x # xs)" by (metis list.set_intros(1) set_mset_mset)
    with ne have "y \<in> set xs" by simp
    with Cons.prems(1) have l: "lt x y" by simp
    from Cons.prems(2) ys have "x \<in># mset (y # ys')" by (metis list.set_intros(1) set_mset_mset)
    with ne have "x \<in> set ys'" by auto
    with Cons.prems(3) ys have "\<not> lt x y" by simp
    with l show False by simp
  qed
  with Cons.prems ys have "mset ys' = mset xs" "sorted_wrt lt xs"
    "sorted_wrt (\<lambda>a b. \<not> lt b a) ys'" by simp_all
  from Cons.IH [OF this(2) this(1) this(3)] ys \<open>y = x\<close> show ?case by simp
qed

text \<open>
  C7, as amended. When \<^verbatim>\<open>sortOrs\<close> has returned true and no two clauses of the
  root it has left are equivalent for its comparator, a second call on that root
  and the \<^verbatim>\<open>usedIndexes\<close> it has left returns (it does not throw) and leaves that
  root and that vector as they are: the same clauses in the same order, with the
  same merged \<^verbatim>\<open>IN\<close> arrays, and the same handles. The AST library is one in which
  constants are no attribute accesses, and \<^verbatim>\<open>std::sort\<close> one that permutes and
  puts in order.
\<close>

theorem sortOrs_idempotent:
  assumes cons: "ast_consistent lib" and srt: "sort_contract lib std_sort"
    and first: "sortOrs lib std_sort root0 variable' usedIndexes = Inr (True, root1, usedIndexes1)"
    and noeq: "no_equivalent_clauses lib root1 variable' usedIndexes1"
  shows "\<exists>b. sortOrs lib std_sort root1 variable' usedIndexes1 = Inr (b, root1, usedIndexes1)"
proof (cases root0)
  case Nullptr
  with first show ?thesis by (auto simp: sortOrs_def)
next
  case root0: (AstNode t d subs)
  show ?thesis
  proof (cases "2 \<le> length subs")
    case False
    with first root0 have "root1 = root0" "usedIndexes1 = usedIndexes"
      by (auto simp: sortOrs_def Let_def)
    with first show ?thesis by blast
  next
    case n2: True
    let ?R = "\<lambda>a b. \<not> data_less lib b a"
    let ?keep = "\<lambda>p. \<not> isEmptyIn (fst p)"
    from first root0 n2 obtain parts parts' subs' where
      len: "length subs = length usedIndexes"
      and cp: "collect_parts lib variable' subs usedIndexes 0 = Inr (Some parts)"
      and lp: "length parts = length subs"
      and mi: "merge_ins lib (length subs) parts subs = (parts', subs')"
      and r1: "root1 = AstNode t d (map (\<lambda>p. subs' ! fst (snd p))
                           (filter ?keep (std_sort (data_less lib) parts')))"
      and h1: "usedIndexes1 = map (\<lambda>p. snd (snd p))
              (filter ?keep (std_sort (data_less lib) parts'))"
      by (auto elim: sortOrs_trueE)
    define sorted' where "sorted' = std_sort (data_less lib) parts'"
    define kept where "kept = filter ?keep sorted'"
    define subs2 where "subs2 = map (\<lambda>p. subs' ! fst (snd p)) kept"
    define hs2 where "hs2 = map (\<lambda>p. snd (snd p)) kept"
    have r1': "root1 = AstNode t d subs2" and h1': "usedIndexes1 = hs2"
      by (simp_all add: r1 h1 subs2_def hs2_def kept_def sorted'_def)
    have l2: "length subs2 = length kept" "length hs2 = length kept"
      by (simp_all add: subs2_def hs2_def)
    \<comment> \<open>the first pass\<close>
    from collect_parts_exact [OF cons cp] lp have
      A: "\<And>k. k < length subs \<Longrightarrow>
             clause_parts lib variable' (subs ! k) = Inr (Some [fst (parts ! k)])
             \<and> snd (parts ! k) = (k, usedIndexes ! k)"
      by simp
    from mi lp have mi': "merge_ins lib (length parts) parts subs = (parts', subs')" by simp
    note M = merge_ins_facts [OF lp [symmetric] mi']
    from M(4) obtain e where
      e: "\<And>k. k < length parts \<Longrightarrow> isInArray (fst (parts' ! k))
               \<Longrightarrow> \<not> isEmptyIn (fst (parts' ! k)) \<Longrightarrow> k = e"
      by blast
    have idx: "fst (snd (parts' ! k)) = k" if "k < length parts" for k
      using M(3) [OF that] A [of k] that lp by (simp add: merged_at_def)
    \<comment> \<open>what the sort and the filter keep\<close>
    from srt have ms: "mset sorted' = mset parts'" and so: "sorted_wrt ?R sorted'"
      by (simp_all add: sort_contract_def sorted'_def)
    have "map (\<lambda>p. fst (snd p)) parts' = [0 ..< length parts]"
      using idx M(1) by (intro nth_equalityI) simp_all
    then have "distinct (map (\<lambda>p. fst (snd p)) parts')" by simp
    then have "distinct parts'" by (rule distinct_map [THEN iffD1, THEN conjunct1])
    with ms have "distinct sorted'" by (metis distinct_count_atmost_1 set_mset_mset)
    then have dk: "distinct kept" by (simp add: kept_def)
    have sk: "sorted_wrt ?R kept"
      using so by (simp add: kept_def sorted_wrt_filter)
    have mem: "\<exists>k < length parts. kept ! j = parts' ! k \<and> fst (snd (kept ! j)) = k
                 \<and> \<not> isEmptyIn (fst (kept ! j))" if j: "j < length kept" for j
    proof -
      from j have "kept ! j \<in> set kept" by simp
      then have in': "kept ! j \<in> set parts'" and ne: "\<not> isEmptyIn (fst (kept ! j))"
        using ms by (auto simp: kept_def dest: mset_eq_setD)
      then obtain k where "k < length parts'" "parts' ! k = kept ! j"
        by (auto simp: in_set_conv_nth)
      with M(1) idx [of k] ne show ?thesis by auto
    qed
    \<comment> \<open>the clauses of the new root, read again\<close>
    have B: "clause_parts lib variable' (subs2 ! j) = Inr (Some [fst (kept ! j)])
             \<or> clause_parts lib variable' (subs2 ! j) = Inr (Some [])"
      if j: "j < length kept" for j
    proof -
      from mem [OF j] obtain k where k: "k < length parts" "kept ! j = parts' ! k"
        "fst (snd (kept ! j)) = k" "\<not> isEmptyIn (fst (kept ! j))" by blast
      have s2: "subs2 ! j = subs' ! k" using j k(3) by (simp add: subs2_def)
      from A [of k] k(1) lp have
        orig: "clause_parts lib variable' (subs ! k) = Inr (Some [fst (parts ! k)])" by simp
      from M(3) [OF k(1)] consider
        (same) "parts' ! k = parts ! k" "subs' ! k = subs ! k"
        | (merged) ms where "isInArray (fst (parts ! k))"
            "fst (parts' ! k) = (fst (parts ! k))\<lparr>valueNode := AstNode NODE_TYPE_ARRAY NoData ms\<rparr>"
            "subs' ! k = changeValue (subs ! k) (AstNode NODE_TYPE_ARRAY NoData ms)"
        by (auto simp: merged_at_def)
      then show ?thesis
      proof cases
        case same
        with orig s2 k(2) show ?thesis by simp
      next
        case merged
        from clause_parts_after_merge [OF cons orig merged(1), of ms] merged(2,3) s2 k(2)
        show ?thesis by simp
      qed
    qed
    show ?thesis
    proof (cases "2 \<le> length kept")
      case False
      then have "sortOrs lib std_sort (AstNode t d subs2) variable' hs2
                   = Inr (True, AstNode t d subs2, hs2)"
        by (simp add: sortOrs_def l2)
      then show ?thesis unfolding r1' h1' by (rule exI)
    next
      case k2: True
      have "\<And>j. j < length subs2 \<Longrightarrow> \<exists>x. clause_parts lib variable' (subs2 ! j) = Inr (Some x)"
        using B l2 by metis
      from collect_parts_total [OF this, of hs2 0] obtain parts2 where
        cp2: "collect_parts lib variable' subs2 hs2 0 = Inr (Some parts2)" by blast
      show ?thesis
      proof (cases "length parts2 = length subs2 \<and> same_attribute (map fst parts2)")
        case False
        with cp2 k2 l2 have "sortOrs lib std_sort (AstNode t d subs2) variable' hs2
                               = Inr (False, AstNode t d subs2, hs2)"
          by (auto simp: sortOrs_def Let_def)
        then show ?thesis unfolding r1' h1' by (rule exI)
      next
        case True
        then have lp2: "length parts2 = length subs2"
          and sa2: "same_attribute (map fst parts2)" by simp_all
        from collect_parts_exact [OF cons cp2] lp2 have
          A2: "\<And>j. j < length subs2 \<Longrightarrow>
             clause_parts lib variable' (subs2 ! j) = Inr (Some [fst (parts2 ! j)])
             \<and> snd (parts2 ! j) = (j, hs2 ! j)"
          by simp
        have fst2: "fst (parts2 ! j) = fst (kept ! j)" if "j < length kept" for j
          using A2 [of j] B [OF that] that l2 by auto
        have uniq: "i = j" if "i < length parts2" "j < length parts2"
          "isInArray (fst (parts2 ! i))" "isInArray (fst (parts2 ! j))" for i j
        proof -
          from that lp2 l2 have i: "i < length kept" and j: "j < length kept" by simp_all
          from mem [OF i] obtain ki where ki: "ki < length parts" "kept ! i = parts' ! ki"
            "\<not> isEmptyIn (fst (kept ! i))" by blast
          from mem [OF j] obtain kj where kj: "kj < length parts" "kept ! j = parts' ! kj"
            "\<not> isEmptyIn (fst (kept ! j))" by blast
          from e [OF ki(1)] ki(2,3) that(3) fst2 [OF i] have "ki = e" by simp
          moreover from e [OF kj(1)] kj(2,3) that(4) fst2 [OF j] have "kj = e" by simp
          ultimately have "kept ! i = kept ! j" using ki(2) kj(2) by simp
          with dk i j show ?thesis by (simp add: nth_eq_iff_index_eq)
        qed
        from merge_ins_noop [of parts2 lib subs2, OF uniq] lp2
        have mi2: "merge_ins lib (length subs2) parts2 subs2 = (parts2, subs2)" by simp
        have mf: "map fst parts2 = map fst kept"
          using fst2 lp2 l2 by (intro nth_equalityI) simp_all
        have ord2: "sorted_wrt ?R parts2"
          using sk by (simp add: sorted_wrt_data_less mf)
        from noeq cp2 have "sorted_wrt (\<lambda>a b. data_less lib a b \<or> data_less lib b a) parts2"
          by (simp add: no_equivalent_clauses_def r1' h1')
        with ord2 have "sorted_wrt (data_less lib) parts2"
          by (auto simp: sorted_wrt_iff_nth_less)
        moreover from srt have "mset (std_sort (data_less lib) parts2) = mset parts2"
          and "sorted_wrt ?R (std_sort (data_less lib) parts2)"
          by (simp_all add: sort_contract_def)
        ultimately have st2: "std_sort (data_less lib) parts2 = parts2"
          by (rule ordered_permutation_unique)
        have "?keep p" if "p \<in> set parts2" for p
        proof -
          from that obtain j where j: "j < length parts2" "p = parts2 ! j"
            by (auto simp: in_set_conv_nth)
          with lp2 l2 have jk: "j < length kept" by simp
          from mem [OF jk] fst2 [OF jk] j(2) show ?thesis by simp
        qed
        then have f2: "filter ?keep parts2 = parts2" by simp
        have s2: "map (\<lambda>p. subs2 ! fst (snd p)) parts2 = subs2"
          using A2 lp2 by (intro nth_equalityI) simp_all
        have hh: "map (\<lambda>p. snd (snd p)) parts2 = hs2"
          using A2 lp2 l2 by (intro nth_equalityI) simp_all
        from k2 l2 have n2': "2 \<le> length subs2" and len2: "length subs2 = length hs2"
          by simp_all
        from sortOrs_sorting [OF n2' len2 cp2 lp2 sa2 mi2, of std_sort t d]
        have "sortOrs lib std_sort (AstNode t d subs2) variable' hs2
                = Inr (True, AstNode t d subs2, hs2)"
          by (simp add: st2 f2 s2 hh)
        then show ?thesis unfolding r1' h1' by (rule exI)
      qed
    qed
  qed
qed

subsection \<open>The condition normaliser: the example sorts\<close>

lemma insort_by_mset: "mset (insort_by lt x xs) = add_mset x (mset xs)"
  by (induction xs) simp_all

lemma insertion_sort_mset: "mset (insertion_sort lt xs) = mset xs"
  by (induction xs) (simp_all add: insertion_sort_def insort_by_mset)

lemma insort_by_set: "set (insort_by lt x xs) = insert x (set xs)"
  by (induction xs) auto

lemma insort_by_sorted:
  fixes k :: "'a \<Rightarrow> 'k::linorder"
  assumes "\<And>a b. lt a b = (k a < k b)"
  shows "sorted (map k xs) \<Longrightarrow> sorted (map k (insort_by lt x xs))"
  by (induction xs) (auto simp: assms insort_by_set)

lemma insertion_sort_sorted:
  fixes k :: "'a \<Rightarrow> 'k::linorder"
  assumes "\<And>a b. lt a b = (k a < k b)"
  shows "sorted (map k (insertion_sort lt xs))"
proof (induction xs)
  case Nil
  show ?case by (simp add: insertion_sort_def)
next
  case (Cons x xs)
  from insort_by_sorted [of lt k, OF assms Cons, of x]
  show ?case by (simp add: insertion_sort_def)
qed

lemma insort_last_mset: "mset (insort_last lt x xs) = add_mset x (mset xs)"
  by (induction xs) simp_all

lemma reversing_sort_mset: "mset (reversing_sort lt xs) = mset xs"
  by (induction xs) (simp_all add: reversing_sort_def insort_last_mset)

lemma insort_last_set: "set (insort_last lt x xs) = insert x (set xs)"
  by (induction xs) auto

lemma insort_last_sorted:
  fixes k :: "'a \<Rightarrow> 'k::linorder"
  assumes "\<And>a b. lt a b = (k a < k b)"
  shows "sorted (map k xs) \<Longrightarrow> sorted (map k (insort_last lt x xs))"
  by (induction xs) (auto simp: assms insort_last_set)

lemma reversing_sort_sorted:
  fixes k :: "'a \<Rightarrow> 'k::linorder"
  assumes "\<And>a b. lt a b = (k a < k b)"
  shows "sorted (map k (reversing_sort lt xs))"
proof (induction xs)
  case Nil
  show ?case by (simp add: reversing_sort_def)
next
  case (Cons x xs)
  from insort_last_sorted [of lt k, OF assms Cons, of x]
  show ?case by (simp add: reversing_sort_def)
qed

lemma CompareAstNodes_example:
  "CompareAstNodes example_lib a b
     = (if node_int a < node_int b then - 1 else if node_int a = node_int b then 0 else 1)"
  by (simp add: example_lib_def)

lemma part_less_example: "part_less example_lib p q = (example_key p < example_key q)"
  unfolding part_less_def example_key_def string_compare_def Let_def CompareAstNodes_example
  by (auto simp: less_prod_def')

lemma data_less_example:
  "data_less example_lib a b = (example_key (fst a) < example_key (fst b))"
  by (simp add: data_less_def part_less_example)

lemma data_less_example_ordered:
  "sorted_wrt (\<lambda>a b. \<not> data_less example_lib b a) xs
     = sorted (map (\<lambda>a. example_key (fst a)) xs)"
  by (simp add: data_less_example sorted_map not_less)

lemma example_sort_contract:
  "sort_contract example_lib
     (insertion_sort :: (ConditionPart \<times> 'h ConditionData \<Rightarrow> ConditionPart \<times> 'h ConditionData \<Rightarrow> bool)
        \<Rightarrow> (ConditionPart \<times> 'h ConditionData) list \<Rightarrow> (ConditionPart \<times> 'h ConditionData) list)"
proof -
  let ?k = "\<lambda>a :: ConditionPart \<times> 'h ConditionData. example_key (fst a)"
  let ?lt = "data_less example_lib :: ConditionPart \<times> 'h ConditionData \<Rightarrow> _"
  have lt: "?lt a b = (?k a < ?k b)" for a b
    by (rule data_less_example)
  have "sorted (map ?k (insertion_sort ?lt xs))" for xs
    by (rule insertion_sort_sorted [of ?lt ?k, OF lt])
  then show ?thesis
    unfolding sort_contract_def data_less_example_ordered by (simp add: insertion_sort_mset)
qed

text \<open>The sort that reverses equivalent elements permutes and puts in order
  too.\<close>

lemma reversing_sort_contract:
  "sort_contract example_lib
     (reversing_sort :: (ConditionPart \<times> 'h ConditionData \<Rightarrow> ConditionPart \<times> 'h ConditionData \<Rightarrow> bool)
        \<Rightarrow> (ConditionPart \<times> 'h ConditionData) list \<Rightarrow> (ConditionPart \<times> 'h ConditionData) list)"
proof -
  let ?k = "\<lambda>a :: ConditionPart \<times> 'h ConditionData. example_key (fst a)"
  let ?lt = "data_less example_lib :: ConditionPart \<times> 'h ConditionData \<Rightarrow> _"
  have lt: "?lt a b = (?k a < ?k b)" for a b
    by (rule data_less_example)
  have "sorted (map ?k (reversing_sort ?lt xs))" for xs
    by (rule reversing_sort_sorted [of ?lt ?k, OF lt])
  then show ?thesis
    unfolding sort_contract_def data_less_example_ordered by (simp add: reversing_sort_mset)
qed

text \<open>
  C7 as stated fails where two clauses are equivalent for the comparator and
  \<^verbatim>\<open>std::sort\<close> does not keep their order. \<^verbatim>\<open>doc.a < 1 || doc.a < 2\<close>: neither
  clause has a lower bound, so neither is before the other; with the sort that
  reverses equivalent elements the first call returns true and leaves
  \<^verbatim>\<open>doc.a < 2 || doc.a < 1\<close>, and the second call on that root leaves
  \<^verbatim>\<open>doc.a < 1 || doc.a < 2\<close>, with the handles exchanged each time.
\<close>

theorem sortOrs_equivalent_clauses_counterexample:
  "sortOrs example_lib reversing_sort
     (or_root [and_clause [compare_node NODE_TYPE_OPERATOR_BINARY_LT (doc_attr ''a'') (int_node 1)],
               and_clause [compare_node NODE_TYPE_OPERATOR_BINARY_LT (doc_attr ''a'') (int_node 2)]])
     example_var [''h0'', ''h1'']
   = Inr (True,
          or_root [and_clause [compare_node NODE_TYPE_OPERATOR_BINARY_LT (doc_attr ''a'') (int_node 2)],
                   and_clause [compare_node NODE_TYPE_OPERATOR_BINARY_LT (doc_attr ''a'') (int_node 1)]],
          [''h1'', ''h0''])
   \<and> sortOrs example_lib reversing_sort
       (or_root [and_clause [compare_node NODE_TYPE_OPERATOR_BINARY_LT (doc_attr ''a'') (int_node 2)],
                 and_clause [compare_node NODE_TYPE_OPERATOR_BINARY_LT (doc_attr ''a'') (int_node 1)]])
       example_var [''h1'', ''h0'']
     = Inr (True,
            or_root [and_clause [compare_node NODE_TYPE_OPERATOR_BINARY_LT (doc_attr ''a'') (int_node 1)],
                     and_clause [compare_node NODE_TYPE_OPERATOR_BINARY_LT (doc_attr ''a'') (int_node 2)]],
            [''h0'', ''h1''])
   \<and> (or_root [and_clause [compare_node NODE_TYPE_OPERATOR_BINARY_LT (doc_attr ''a'') (int_node 1)],
                and_clause [compare_node NODE_TYPE_OPERATOR_BINARY_LT (doc_attr ''a'') (int_node 2)]],
       [''h0'', ''h1''])
      \<noteq> (or_root [and_clause [compare_node NODE_TYPE_OPERATOR_BINARY_LT (doc_attr ''a'') (int_node 2)],
                   and_clause [compare_node NODE_TYPE_OPERATOR_BINARY_LT (doc_attr ''a'') (int_node 1)]],
          [''h1'', ''h0''])"
  by code_simp

text \<open>
  \<^verbatim>\<open>doc.a IN [3, 1] || doc.a == 2 || doc.a IN [5, 3]\<close>: the first call merges the
  two arrays into the first \<^verbatim>\<open>IN\<close>, drops the emptied third clause and its handle,
  and leaves \<^verbatim>\<open>doc.a IN [1, 3, 5] || doc.a == 2\<close>, whose two clauses have the lower
  bounds 1 and 2; a second call leaves it as it is.
\<close>

theorem sortOrs_idempotent_witness:
  "sortOrs example_lib insertion_sort
     (or_root [and_clause [compare_node NODE_TYPE_OPERATOR_BINARY_IN (doc_attr ''a'') (int_array [3, 1])],
               and_clause [compare_node NODE_TYPE_OPERATOR_BINARY_EQ (doc_attr ''a'') (int_node 2)],
               and_clause [compare_node NODE_TYPE_OPERATOR_BINARY_IN (doc_attr ''a'') (int_array [5, 3])]])
     example_var [''h0'', ''h1'', ''h2'']
   = Inr (True,
          or_root [and_clause [compare_node NODE_TYPE_OPERATOR_BINARY_IN (doc_attr ''a'') (int_array [1, 3, 5])],
                   and_clause [compare_node NODE_TYPE_OPERATOR_BINARY_EQ (doc_attr ''a'') (int_node 2)]],
          [''h0'', ''h1''])
   \<and> no_equivalent_clauses example_lib
        (or_root [and_clause [compare_node NODE_TYPE_OPERATOR_BINARY_IN (doc_attr ''a'') (int_array [1, 3, 5])],
                  and_clause [compare_node NODE_TYPE_OPERATOR_BINARY_EQ (doc_attr ''a'') (int_node 2)]])
        example_var [''h0'', ''h1'']
   \<and> (\<exists>b. sortOrs example_lib insertion_sort
              (or_root [and_clause [compare_node NODE_TYPE_OPERATOR_BINARY_IN (doc_attr ''a'') (int_array [1, 3, 5])],
                        and_clause [compare_node NODE_TYPE_OPERATOR_BINARY_EQ (doc_attr ''a'') (int_node 2)]])
              example_var [''h0'', ''h1'']
            = Inr (b,
                   or_root [and_clause [compare_node NODE_TYPE_OPERATOR_BINARY_IN (doc_attr ''a'') (int_array [1, 3, 5])],
                            and_clause [compare_node NODE_TYPE_OPERATOR_BINARY_EQ (doc_attr ''a'') (int_node 2)]],
                   [''h0'', ''h1'']))"
proof -
  have first:
    "sortOrs example_lib insertion_sort
       (or_root [and_clause [compare_node NODE_TYPE_OPERATOR_BINARY_IN (doc_attr ''a'') (int_array [3, 1])],
                 and_clause [compare_node NODE_TYPE_OPERATOR_BINARY_EQ (doc_attr ''a'') (int_node 2)],
                 and_clause [compare_node NODE_TYPE_OPERATOR_BINARY_IN (doc_attr ''a'') (int_array [5, 3])]])
       example_var [''h0'', ''h1'', ''h2'']
     = Inr (True,
            or_root [and_clause [compare_node NODE_TYPE_OPERATOR_BINARY_IN (doc_attr ''a'') (int_array [1, 3, 5])],
                     and_clause [compare_node NODE_TYPE_OPERATOR_BINARY_EQ (doc_attr ''a'') (int_node 2)]],
            [''h0'', ''h1''])"
    by code_simp
  have noeq:
    "no_equivalent_clauses example_lib
        (or_root [and_clause [compare_node NODE_TYPE_OPERATOR_BINARY_IN (doc_attr ''a'') (int_array [1, 3, 5])],
                  and_clause [compare_node NODE_TYPE_OPERATOR_BINARY_EQ (doc_attr ''a'') (int_node 2)]])
        example_var [''h0'', ''h1'']"
    by code_simp
  from sortOrs_idempotent [OF example_lib_consistent example_sort_contract first noeq] first noeq
  show ?thesis by blast
qed

end
